(* ===== verification/Rust_Base.thy ===== *)
theory Rust_Base
  imports Main "HOL-Library.Word"
begin

unbundle bit_operations_syntax

text \<open>
  The prelude of the development: machine integers, the outcome of running Rust code, the
  sequencing combinators that stand for statement order and for the question mark operator, the
  safety triple in which the absence of panics and of undefined behaviour is stated, C
  representations of Rust values, C strings and UTF-8 validation.

  The widths are those of the 64-bit targets (\<^verbatim>\<open>usize\<close>, \<^verbatim>\<open>size_t\<close> and pointers have 64 bits,
  \<^verbatim>\<open>c_int\<close> and \<^verbatim>\<open>c_uint\<close> have 32); values are laid out little-endian.
\<close>

section \<open>Collections and types\<close>

named_theorems comp_defs \<open>definitions of the sequencing combinators\<close>
named_theorems safe_rules \<open>introduction rules of the safety triple\<close>

type_synonym byte = "8 word"
type_synonym usize = "64 word"
type_synonym isize = "64 word"
type_synonym u64 = "64 word"
type_synonym c_uint = "32 word"
type_synonym c_int = "32 word"

text \<open>A memory cell holds a byte, or nothing while it is uninitialised.\<close>

type_synonym cell = "byte option"

section \<open>Running Rust code\<close>

text \<open>
  Code returns a value, panics, or has undefined behaviour. The last is a value of the model so
  that its absence can be proved.
\<close>

datatype 'a outcome = Done 'a | Panicked | Undef

type_synonym ('s, 'a) comp = "'s \<Rightarrow> 'a outcome \<times> 's"

abbreviation ret :: "'a \<Rightarrow> ('s, 'a) comp" where
  "ret x \<equiv> Pair (Done x)"

abbreviation panic :: "('s, 'a) comp" where
  "panic \<equiv> Pair Panicked"

abbreviation undef :: "('s, 'a) comp" where
  "undef \<equiv> Pair Undef"

text \<open>Statement order: run \<open>m\<close>, hand its value to \<open>f\<close>; a panic or undefined behaviour ends the run.\<close>

definition run_then :: "('s, 'a) comp \<Rightarrow> ('a \<Rightarrow> ('s, 'b) comp) \<Rightarrow> ('s, 'b) comp" where
  [comp_defs]: "run_then m f = (\<lambda>s. case m s of
      (Done x, s') \<Rightarrow> f x s'
    | (Panicked, s') \<Rightarrow> (Panicked, s')
    | (Undef, s') \<Rightarrow> (Undef, s'))"

text \<open>The question mark operator: an error value is returned at once.\<close>

definition run_try :: "('s, 'e + 'a) comp \<Rightarrow> ('a \<Rightarrow> ('s, 'e + 'b) comp) \<Rightarrow> ('s, 'e + 'b) comp" where
  [comp_defs]: "run_try m f = run_then m (\<lambda>r. case r of Inl e \<Rightarrow> ret (Inl e) | Inr x \<Rightarrow> f x)"

text \<open>\<^verbatim>\<open>Result::map\<close> on the value of a fallible run.\<close>

definition run_map :: "('a \<Rightarrow> 'b) \<Rightarrow> ('s, 'e + 'a) comp \<Rightarrow> ('s, 'e + 'b) comp" where
  [comp_defs]: "run_map g m = run_then m (\<lambda>r. ret (map_sum id g r))"

text \<open>\<^verbatim>\<open>assert!\<close> panics, \<^verbatim>\<open>assert_unchecked\<close> is undefined when its condition fails.\<close>

definition rust_assert :: "bool \<Rightarrow> ('s, unit) comp" where
  [comp_defs]: "rust_assert b = (if b then ret () else panic)"

definition assert_unchecked :: "bool \<Rightarrow> ('s, unit) comp" where
  [comp_defs]: "assert_unchecked b = (if b then ret () else undef)"

lemma rust_assert_simps [simp]: "rust_assert True = ret ()" "rust_assert False = panic"
  by (simp_all add: rust_assert_def)

lemma assert_unchecked_simps [simp]: "assert_unchecked True = ret ()" "assert_unchecked False = undef"
  by (simp_all add: assert_unchecked_def)

lemma run_then_ret [simp]: "run_then (ret x) f = f x"
  by (simp add: comp_defs)

lemma run_then_panic [simp]: "run_then panic f = panic"
  by (simp add: comp_defs)

lemma run_then_undef [simp]: "run_then undef f = undef"
  by (simp add: comp_defs)

lemma run_try_ret_Inr [simp]: "run_try (ret (Inr x)) f = f x"
  by (simp add: run_try_def)

lemma run_try_ret_Inl [simp]: "run_try (ret (Inl e)) f = ret (Inl e)"
  by (simp add: run_try_def)

lemma run_try_panic [simp]: "run_try panic f = panic"
  by (simp add: run_try_def)

lemma run_then_assoc:
  "run_then (run_then m f) g = run_then m (\<lambda>x. run_then (f x) g)"
  by (rule ext) (simp add: run_then_def split: prod.splits outcome.splits)

lemma run_then_Done_iff:
  "run_then m f s = (Done y, t) \<longleftrightarrow> (\<exists>x u. m s = (Done x, u) \<and> f x u = (Done y, t))"
  by (auto simp: run_then_def split: prod.splits outcome.splits)

lemma run_try_eq:
  "run_try m f s = (case m s of
      (Done (Inl e), t) \<Rightarrow> (Done (Inl e), t)
    | (Done (Inr x), t) \<Rightarrow> f x t
    | (Panicked, t) \<Rightarrow> (Panicked, t)
    | (Undef, t) \<Rightarrow> (Undef, t))"
  by (simp add: run_try_def run_then_def split: prod.splits outcome.splits sum.splits)

lemma run_try_Ok_iff:
  "run_try m f s = (Done (Inr y), t) \<longleftrightarrow>
     (\<exists>x u. m s = (Done (Inr x), u) \<and> f x u = (Done (Inr y), t))"
  by (simp add: run_try_eq split: prod.splits outcome.splits sum.splits)

lemma run_try_Err_iff:
  "run_try m f s = (Done (Inl e), t) \<longleftrightarrow>
     m s = (Done (Inl e), t) \<or> (\<exists>x u. m s = (Done (Inr x), u) \<and> f x u = (Done (Inl e), t))"
  by (simp add: run_try_eq split: prod.splits outcome.splits sum.splits)

lemma run_map_eq:
  "run_map g m s = (case m s of
      (Done r, t) \<Rightarrow> (Done (map_sum id g r), t)
    | (Panicked, t) \<Rightarrow> (Panicked, t)
    | (Undef, t) \<Rightarrow> (Undef, t))"
  by (simp add: run_map_def run_then_def split: prod.splits outcome.splits)

section \<open>The safety triple\<close>

text \<open>
  \<open>safe P m Q\<close>: from every state that satisfies \<open>P\<close> the code returns (it neither panics nor runs
  into undefined behaviour) and its value and final state satisfy \<open>Q\<close>.
\<close>

definition safe :: "('s \<Rightarrow> bool) \<Rightarrow> ('s, 'a) comp \<Rightarrow> ('a \<Rightarrow> 's \<Rightarrow> bool) \<Rightarrow> bool" where
  "safe P m Q \<longleftrightarrow> (\<forall>s. P s \<longrightarrow> (\<exists>x t. m s = (Done x, t) \<and> Q x t))"

lemma safeI: "(\<And>s. P s \<Longrightarrow> \<exists>x t. m s = (Done x, t) \<and> Q x t) \<Longrightarrow> safe P m Q"
  by (simp add: safe_def)

lemma safeD: "safe P m Q \<Longrightarrow> P s \<Longrightarrow> \<exists>x t. m s = (Done x, t) \<and> Q x t"
  by (simp add: safe_def)

lemma safe_ret [safe_rules]: "(\<And>s. P s \<Longrightarrow> Q x s) \<Longrightarrow> safe P (ret x) Q"
  by (simp add: safe_def)

lemma safe_then [safe_rules]:
  "safe P m R \<Longrightarrow> (\<And>x. safe (R x) (f x) Q) \<Longrightarrow> safe P (run_then m f) Q"
  unfolding safe_def run_then_def by (force split: prod.splits outcome.splits)

lemma safe_try [safe_rules]:
  assumes "safe P m (\<lambda>r s. case r of Inl e \<Rightarrow> Q (Inl e) s | Inr x \<Rightarrow> R x s)"
    and "\<And>x. safe (R x) (f x) Q"
  shows "safe P (run_try m f) Q"
proof (rule safeI)
  fix s
  assume "P s"
  then obtain r t where mt: "m s = (Done r, t)"
    and q: "case r of Inl e \<Rightarrow> Q (Inl e) t | Inr x \<Rightarrow> R x t"
    using assms(1) by (auto simp: safe_def)
  show "\<exists>x t. run_try m f s = (Done x, t) \<and> Q x t"
    using mt q safeD [OF assms(2)] by (cases r) (auto simp: run_try_eq)
qed

lemma safe_map: "safe P m (\<lambda>r s. Q (map_sum id g r) s) \<Longrightarrow> safe P (run_map g m) Q"
  unfolding run_map_def by (rule safe_then) (auto intro: safe_ret)

lemma safe_weaken: "safe P m Q \<Longrightarrow> (\<And>s. P' s \<Longrightarrow> P s) \<Longrightarrow> (\<And>x s. Q x s \<Longrightarrow> Q' x s) \<Longrightarrow> safe P' m Q'"
  unfolding safe_def by blast

lemma safe_conj_pre: "safe (\<lambda>s. P s \<and> b) m Q \<longleftrightarrow> (b \<longrightarrow> safe P m Q)"
  unfolding safe_def by blast

section \<open>Integer operations of the standard library\<close>

text \<open>\<^verbatim>\<open>usize::checked_add\<close>.\<close>

definition checked_add :: "usize \<Rightarrow> usize \<Rightarrow> usize option" where
  "checked_add a b = (if unat a + unat b < 2 ^ 64 then Some (a + b) else None)"

lemma unat_checked_add: "checked_add a b = Some c \<Longrightarrow> unat c = unat a + unat b"
  by (auto simp: checked_add_def unat_word_ariths split: if_splits)

text \<open>\<^verbatim>\<open>c_uint::try_from(usize)\<close> and \<^verbatim>\<open>usize::try_from(c_uint)\<close>: the second never fails on a
  64-bit target.\<close>

definition u32_try_from :: "usize \<Rightarrow> c_uint option" where
  "u32_try_from i = (if unat i < 2 ^ 32 then Some (ucast i) else None)"

definition usize_try_from :: "c_uint \<Rightarrow> usize option" where
  "usize_try_from i = Some (ucast i)"

lemma unat_ucast_u32 [simp]: "unat (ucast (i :: c_uint) :: usize) = unat i"
  using unsigned_less [of i, where 'a = nat]
  by (simp add: unsigned_ucast_eq take_bit_nat_eq_self)

lemma u32_try_from_small:
  assumes "unat i < 2 ^ 32"
  shows "\<exists>c. u32_try_from i = Some c \<and> unat c = unat i \<and> usize_try_from c = Some i"
proof -
  have u: "unat (ucast i :: c_uint) = unat i"
    using assms by (simp add: unsigned_ucast_eq take_bit_nat_eq_self)
  then have "ucast (ucast i :: c_uint) = i"
    by (metis unat_ucast_u32 word_unat_eq_iff)
  with u assms show ?thesis
    by (simp add: u32_try_from_def usize_try_from_def)
qed

section \<open>C representations\<close>

text \<open>
  What crosses the foreign interface is bytes. A representation of a Rust type gives its size, the
  bytes of a value, and the value of a byte string; \<open>None\<close> marks a byte string that is no valid
  value of the type, so that reading it would be undefined behaviour.
\<close>

record 'a crepr =
  rsize :: nat
  enc :: "'a \<Rightarrow> byte list"
  dec :: "byte list \<Rightarrow> 'a option"

fun le_enc :: "nat \<Rightarrow> nat \<Rightarrow> byte list" where
  "le_enc 0 v = []"
| "le_enc (Suc n) v = word_of_nat (v mod 256) # le_enc n (v div 256)"

fun le_dec :: "byte list \<Rightarrow> nat" where
  "le_dec [] = 0"
| "le_dec (b # bs) = unat b + 256 * le_dec bs"

lemma length_le_enc [simp]: "length (le_enc n v) = n"
  by (induction n arbitrary: v) auto

lemma le_dec_enc: "le_dec (le_enc n v) = v mod 256 ^ n"
proof (induction n arbitrary: v)
  case 0
  then show ?case by simp
next
  case (Suc n)
  have "unat (word_of_nat (v mod 256) :: byte) = v mod 256"
    by (simp add: unat_of_nat)
  with Suc show ?case
    by (simp add: mod_mult2_eq)
qed

lemma unat_mod_pow32 [simp]: "unat (v :: 32 word) mod 4294967296 = unat v"
  using unsigned_less [of v, where 'a = nat] by simp

lemma unat_mod_pow64 [simp]: "unat (v :: 64 word) mod 18446744073709551616 = unat v"
  using unsigned_less [of v, where 'a = nat] by simp

definition u32_repr :: "c_uint crepr" where
  "u32_repr = \<lparr>rsize = 4, enc = (\<lambda>v. le_enc 4 (unat v)),
     dec = (\<lambda>bs. if length bs = 4 then Some (word_of_nat (le_dec bs)) else None)\<rparr>"

definition u64_repr :: "u64 crepr" where
  "u64_repr = \<lparr>rsize = 8, enc = (\<lambda>v. le_enc 8 (unat v)),
     dec = (\<lambda>bs. if length bs = 8 then Some (word_of_nat (le_dec bs)) else None)\<rparr>"

definition bool_repr :: "bool crepr" where
  "bool_repr = \<lparr>rsize = 1, enc = (\<lambda>b. [if b then 1 else 0]),
     dec = (\<lambda>bs. if bs = [0] then Some False else if bs = [1] then Some True else None)\<rparr>"

text \<open>The sizes, pointers and signed sizes have the representation of a 64-bit integer.\<close>

abbreviation usize_repr :: "usize crepr" where "usize_repr \<equiv> u64_repr"
abbreviation isize_repr :: "isize crepr" where "isize_repr \<equiv> u64_repr"
abbreviation ptr_repr :: "usize crepr" where "ptr_repr \<equiv> u64_repr"

text \<open>The interface every typed transfer relies on.\<close>

locale c_type =
  fixes T :: "'a crepr"
  assumes size_pos: "0 < rsize T"
    and length_enc: "length (enc T x) = rsize T"
    and dec_enc: "dec T (enc T x) = Some x"
begin

lemma enc_inj: "enc T x = enc T y \<longleftrightarrow> x = y"
  by (metis dec_enc option.inject)

lemma enc_not_Nil: "enc T x \<noteq> []"
  using size_pos length_enc [of x] by auto

end

interpretation u32: c_type u32_repr
  by unfold_locales (simp_all add: u32_repr_def le_dec_enc unat_mod_pow32)

interpretation u64: c_type u64_repr
  by unfold_locales (simp_all add: u64_repr_def le_dec_enc unat_mod_pow64)

interpretation boolean: c_type bool_repr
  by unfold_locales (simp_all add: bool_repr_def)

end
