(* ===== verification/Ffi.thy ===== *)
theory Ffi
  imports Rust_Base
begin

text \<open>
  The state of the process and the boundary to the C library. The C library (the jemalloc
  submodule), the \<^verbatim>\<open>libc\<close> error constants and the placement of storage by the compiler are not part
  of this repository: they are the fields of the parameter record \<open>ffi\<close>, over an abstract allocator
  state of type \<open>'s\<close>. What the wrappers rely on is stated as named hypotheses where it is used.

  The field \<open>lib_inv\<close> is specification only: an invariant of the machine that every control call
  relies on and keeps, such as an initialised library and the program's static data in place. The
  documented behaviour of a call is required in the states that satisfy it.

  Every crossing of the boundary is recorded in the ghost field \<open>trace\<close>, so that the order and the
  arguments of the calls an operation makes can be stated.
\<close>

section \<open>Extent hook tables\<close>

text \<open>
  A C function pointer of a hook table: one of the Rust trampolines of
  \<^verbatim>\<open>jevmalloc/src/arena/extent_hooks.rs\<close>, or foreign code at an address.
\<close>

datatype hook_kind =
    Hook_alloc | Hook_dalloc | Hook_destroy | Hook_commit | Hook_decommit
  | Hook_purge_lazy | Hook_purge_forced | Hook_split | Hook_merge

datatype hook_fn = Trampoline hook_kind | Foreign_fn usize

text \<open>\<^verbatim>\<open>extent_hooks_s\<close>: nine optional function pointers.\<close>

record extent_hooks_s =
  h_alloc :: "hook_fn option"
  h_dalloc :: "hook_fn option"
  h_destroy :: "hook_fn option"
  h_commit :: "hook_fn option"
  h_decommit :: "hook_fn option"
  h_purge_lazy :: "hook_fn option"
  h_purge_forced :: "hook_fn option"
  h_split :: "hook_fn option"
  h_merge :: "hook_fn option"

section \<open>Machine and process state\<close>

text \<open>
  The machine: the bytes readable from an address to the end of its object, the hook tables at
  their addresses, and the allocator's private state. Address zero is the null pointer.
\<close>

record 's machine =
  bytes_at :: "usize \<Rightarrow> byte list option"
  tables_at :: "usize \<Rightarrow> extent_hooks_s option"
  je :: 's

text \<open>
  \<^verbatim>\<open>Cache\<close> of \<^verbatim>\<open>ctl/key/cache.rs\<close>: the published length, zero before the first successful
  translation, and the eight numeric components.
\<close>

record cache =
  c_len :: usize
  c_segments :: "usize list"

text \<open>The arguments of one \<^verbatim>\<open>mallctlbymib\<close> call and what it leaves behind.\<close>

record mib_call =
  mib :: "usize list"
  oldp :: "cell list option"
  oldlen :: "usize option"
  newp :: "byte list option"
  newlen :: usize

record mib_reply =
  status :: c_int
  out :: "cell list"
  outlen :: usize

datatype ffi_call =
    Call_nametomib "byte list"
  | Call_bymib mib_call
  | Call_mallocx usize c_int
  | Call_rallocx usize usize c_int
  | Call_sallocx usize c_int
  | Call_sdallocx usize usize c_int
  | Call_nallocx usize c_int
  | Call_stats_print "byte list"

text \<open>
  The process: the machine, one static key cache for every accessor of \<^verbatim>\<open>ctl/key.rs\<close> (named by the
  accessor), and the ghost record of the calls made so far.
\<close>

record 's process =
  mach :: "'s machine"
  caches :: "string \<Rightarrow> cache"
  trace :: "ffi_call list"

section \<open>The foreign interface\<close>

datatype errno_name = EPERM | ENOENT | EAGAIN | EFAULT | EINVAL | ENOSPC | EILSEQ

record 's ffi =
  c_nametomib :: "byte list \<Rightarrow> usize \<Rightarrow> ('s machine, c_int \<times> usize option list \<times> usize) comp"
  c_bymib :: "mib_call \<Rightarrow> ('s machine, mib_reply) comp"
  c_mallocx :: "usize \<Rightarrow> c_int \<Rightarrow> ('s machine, usize) comp"
  c_rallocx :: "usize \<Rightarrow> usize \<Rightarrow> c_int \<Rightarrow> ('s machine, usize) comp"
  c_sallocx :: "usize \<Rightarrow> c_int \<Rightarrow> ('s machine, usize) comp"
  c_sdallocx :: "usize \<Rightarrow> usize \<Rightarrow> c_int \<Rightarrow> ('s machine, unit) comp"
  c_nallocx :: "usize \<Rightarrow> c_int \<Rightarrow> ('s machine, usize) comp"
  c_stats_print :: "byte list \<Rightarrow> ('s machine, byte list list) comp"
  errno :: "errno_name \<Rightarrow> c_int"
  static_str :: "byte list \<Rightarrow> usize"
  local_at :: "'s machine \<Rightarrow> usize"
  debug_assertions :: bool
  target_msvc :: bool
  global_hooks :: bool
  lib_inv :: "'s machine \<Rightarrow> bool"

definition foreign :: "ffi_call \<Rightarrow> ('s machine, 'a) comp \<Rightarrow> ('s process, 'a) comp" where
  "foreign c f = (\<lambda>p. case f (mach p) of (r, m) \<Rightarrow> (r, p\<lparr>mach := m, trace := trace p @ [c]\<rparr>))"

definition mallctlnametomib ::
    "'s ffi \<Rightarrow> byte list \<Rightarrow> usize \<Rightarrow> ('s process, c_int \<times> usize option list \<times> usize) comp" where
  "mallctlnametomib F name miblen = foreign (Call_nametomib name) (c_nametomib F name miblen)"

definition mallctlbymib :: "'s ffi \<Rightarrow> mib_call \<Rightarrow> ('s process, mib_reply) comp" where
  "mallctlbymib F c = foreign (Call_bymib c) (c_bymib F c)"

definition mallocx :: "'s ffi \<Rightarrow> usize \<Rightarrow> c_int \<Rightarrow> ('s process, usize) comp" where
  "mallocx F sz flags = foreign (Call_mallocx sz flags) (c_mallocx F sz flags)"

definition rallocx :: "'s ffi \<Rightarrow> usize \<Rightarrow> usize \<Rightarrow> c_int \<Rightarrow> ('s process, usize) comp" where
  "rallocx F ptr sz flags = foreign (Call_rallocx ptr sz flags) (c_rallocx F ptr sz flags)"

definition sallocx :: "'s ffi \<Rightarrow> usize \<Rightarrow> c_int \<Rightarrow> ('s process, usize) comp" where
  "sallocx F ptr flags = foreign (Call_sallocx ptr flags) (c_sallocx F ptr flags)"

definition sdallocx :: "'s ffi \<Rightarrow> usize \<Rightarrow> usize \<Rightarrow> c_int \<Rightarrow> ('s process, unit) comp" where
  "sdallocx F ptr sz flags = foreign (Call_sdallocx ptr sz flags) (c_sdallocx F ptr sz flags)"

definition nallocx :: "'s ffi \<Rightarrow> usize \<Rightarrow> c_int \<Rightarrow> ('s process, usize) comp" where
  "nallocx F sz flags = foreign (Call_nallocx sz flags) (c_nallocx F sz flags)"

definition malloc_stats_print :: "'s ffi \<Rightarrow> byte list \<Rightarrow> ('s process, byte list list) comp" where
  "malloc_stats_print F opts = foreign (Call_stats_print opts) (c_stats_print F opts)"

lemma foreign_caches [simp]: "caches (snd (foreign c f p)) = caches p"
  by (simp add: foreign_def split: prod.splits)

lemma foreign_trace [simp]: "trace (snd (foreign c f p)) = trace p @ [c]"
  by (simp add: foreign_def split: prod.splits)

lemma foreign_Done_iff:
  "foreign c f p = (Done x, q) \<longleftrightarrow>
     (\<exists>m. f (mach p) = (Done x, m) \<and> q = p\<lparr>mach := m, trace := trace p @ [c]\<rparr>)"
  by (auto simp: foreign_def split: prod.splits)

section \<open>Byte strings and C strings\<close>

text \<open>The bytes of a Rust or C string literal.\<close>

definition str_bytes :: "string \<Rightarrow> byte list" where
  "str_bytes s = map of_char s"

lemma length_str_bytes [simp]: "length (str_bytes s) = length s"
  by (simp add: str_bytes_def)

text \<open>
  \<^verbatim>\<open>CStr::from_ptr(p).to_bytes()\<close>: the bytes before the first NUL. A null pointer, an unmapped
  address or an object without a NUL makes it undefined.
\<close>

definition c_str :: "'s machine \<Rightarrow> usize \<Rightarrow> byte list option" where
  "c_str m p = (if p = 0 then None else case bytes_at m p of
      None \<Rightarrow> None
    | Some bs \<Rightarrow> if 0 \<in> set bs then Some (takeWhile (\<lambda>b. b \<noteq> 0) bs) else None)"

definition read_c_str :: "usize \<Rightarrow> ('s process, byte list) comp" where
  "read_c_str p = (\<lambda>s. case c_str (mach s) p of None \<Rightarrow> (Undef, s) | Some bs \<Rightarrow> (Done bs, s))"

lemma c_str_no_nul: "c_str m p = Some bs \<Longrightarrow> 0 \<notin> set bs"
  by (auto simp: c_str_def split: if_splits option.splits dest: set_takeWhileD)

lemma takeWhile_nul_prefix: "0 \<notin> set bs \<Longrightarrow> takeWhile (\<lambda>b. b \<noteq> (0 :: byte)) (bs @ 0 # rest) = bs"
  by (induction bs) auto

text \<open>
  Storage for a local variable whose address is passed to C: the object appears in memory for the
  duration of the call.
\<close>

definition with_local :: "'s ffi \<Rightarrow> byte list \<Rightarrow> (usize \<Rightarrow> ('s process, 'a) comp) \<Rightarrow> ('s process, 'a) comp" where
  "with_local F bs f = (\<lambda>p.
     let a = local_at F (mach p);
         m = mach p;
         enter = p\<lparr>mach := m\<lparr>bytes_at := (bytes_at m)(a \<mapsto> bs)\<rparr>\<rparr>
     in case f a enter of
          (r, q) \<Rightarrow> (r, q\<lparr>mach := (mach q)\<lparr>bytes_at := (bytes_at (mach q))(a := None)\<rparr>\<rparr>))"

end
