(* ===== verification/Ctl_Error.thy ===== *)
theory Ctl_Error
  imports Ffi
begin

text \<open>
  \<^verbatim>\<open>jevmalloc/src/ctl/error.rs\<close>: the nonzero errno-style error of every control operation, its
  construction, its description and its textual form. The lemmas show that construction never
  yields a zero code and that the textual form determines the error.
\<close>

section \<open>The error value\<close>

text \<open>\<^verbatim>\<open>struct Error(NonZeroI32)\<close>.\<close>

datatype error = Error (code: c_int)

type_synonym 'a ctl_result = "error + 'a"

definition error_wf :: "error \<Rightarrow> bool" where
  "error_wf e \<longleftrightarrow> code e \<noteq> 0"

definition error_code :: "error \<Rightarrow> c_int" where
  "error_code e = code e"

definition error_is :: "error \<Rightarrow> c_int \<Rightarrow> bool" where
  "error_is e c \<longleftrightarrow> code e = c"

text \<open>\<^verbatim>\<open>NonZeroI32::new(code).expect(..)\<close> panics on zero.\<close>

definition from_code :: "c_int \<Rightarrow> ('s, error) comp" where
  "from_code c = (if c = 0 then panic else ret (Error c))"

definition invalid_argument :: "'s ffi \<Rightarrow> ('p, error) comp" where
  "invalid_argument F = from_code (errno F EINVAL)"

definition bad_address :: "'s ffi \<Rightarrow> ('p, error) comp" where
  "bad_address F = from_code (errno F EFAULT)"

definition insufficient_space :: "'s ffi \<Rightarrow> ('p, error) comp" where
  "insufficient_space F = from_code (errno F ENOSPC)"

definition invalid_utf8 :: "'s ffi \<Rightarrow> ('p, error) comp" where
  "invalid_utf8 F = from_code (errno F EILSEQ)"

text \<open>\<^verbatim>\<open>return Err(..)\<close> with a constructed error.\<close>

definition fail :: "('p, error) comp \<Rightarrow> ('p, 'a ctl_result) comp" where
  [comp_defs]: "fail m = run_then m (\<lambda>e. ret (Inl e))"

text \<open>What is relied on of the \<^verbatim>\<open>libc\<close> constants: they are nonzero and pairwise distinct.\<close>

definition errno_ok :: "'s ffi \<Rightarrow> bool" where
  "errno_ok F \<longleftrightarrow> inj (errno F) \<and> (\<forall>n. errno F n \<noteq> 0)"

lemma errno_nonzero [simp]: "errno_ok F \<Longrightarrow> errno F n \<noteq> 0"
  by (simp add: errno_ok_def)

lemma errno_eq_iff [simp]: "errno_ok F \<Longrightarrow> errno F a = errno F b \<longleftrightarrow> a = b"
  by (auto simp: errno_ok_def inj_def)

lemma from_code_wf: "from_code c s = (Done e, t) \<Longrightarrow> error_wf e \<and> t = s"
  by (auto simp: from_code_def error_wf_def split: if_splits)

lemmas ctor_defs = invalid_argument_def bad_address_def insufficient_space_def invalid_utf8_def

lemma ctor_ok [simp]:
  assumes "errno_ok F"
  shows "invalid_argument F = ret (Error (errno F EINVAL))"
    and "bad_address F = ret (Error (errno F EFAULT))"
    and "insufficient_space F = ret (Error (errno F ENOSPC))"
    and "invalid_utf8 F = ret (Error (errno F EILSEQ))"
  using assms by (simp_all add: ctor_defs from_code_def)

lemma fail_ret [simp]: "fail (ret e) = ret (Inl e)"
  by (simp add: fail_def)

lemma fail_from_code_iff:
  "fail (from_code c) s = (Done r, t) \<longleftrightarrow> c \<noteq> 0 \<and> r = Inl (Error c) \<and> t = s"
  by (auto simp: from_code_def comp_defs)

lemma fail_not_Ok [simp]: "fail (from_code c) s \<noteq> (Done (Inr x), t)"
  by (simp add: fail_from_code_iff)

section \<open>Text\<close>

text \<open>\<^verbatim>\<open>Error::description\<close>: the first matching constant decides.\<close>

definition description :: "'s ffi \<Rightarrow> error \<Rightarrow> string option" where
  "description F e =
    (if code e = errno F EAGAIN then Some ''Resource temporarily unavailable''
     else if code e = errno F EFAULT then Some ''Bad address''
     else if code e = errno F EILSEQ then Some ''Invalid byte sequence''
     else if code e = errno F EINVAL then Some ''Invalid argument''
     else if code e = errno F ENOENT then Some ''No such entity''
     else if code e = errno F ENOSPC then Some ''Insufficient space''
     else if code e = errno F EPERM then Some ''Operation not permitted''
     else None)"

text \<open>The decimal form of an integer, as \<^verbatim>\<open>core::fmt\<close> prints it.\<close>

definition digit :: "nat \<Rightarrow> char" where
  "digit d = char_of (48 + d)"

fun show_nat :: "nat \<Rightarrow> string" where
  "show_nat n = (if n < 10 then [digit n] else show_nat (n div 10) @ [digit (n mod 10)])"

declare show_nat.simps [simp del]

definition show_int :: "int \<Rightarrow> string" where
  "show_int i = (if i < 0 then CHR ''-'' # show_nat (nat (- i)) else show_nat (nat i))"

definition error_display :: "'s ffi \<Rightarrow> error \<Rightarrow> string" where
  "error_display F e = (case description F e of
      Some d \<Rightarrow> d @ '' (errno '' @ show_int (sint (code e)) @ '')''
    | None \<Rightarrow> ''Unknown jemalloc error'' @ '' (errno '' @ show_int (sint (code e)) @ '')'')"

text \<open>\<^verbatim>\<open>Debug\<close> delegates to \<^verbatim>\<open>Display\<close>.\<close>

definition error_debug :: "'s ffi \<Rightarrow> error \<Rightarrow> string" where
  "error_debug F e = error_display F e"

lemma of_char_digit: "d < 10 \<Longrightarrow> (of_char (digit d) :: nat) = 48 + d"
  unfolding digit_def by (subst of_char_of) simp

lemma digit_eq_iff: "a < 10 \<Longrightarrow> b < 10 \<Longrightarrow> digit a = digit b \<longleftrightarrow> a = b"
  by (metis add_left_cancel of_char_digit)

lemma show_nat_digits: "c \<in> set (show_nat n) \<Longrightarrow> \<exists>d < 10. c = digit d"
proof (induction n rule: show_nat.induct)
  case (1 n)
  then show ?case
    by (cases "n < 10") (auto simp: show_nat.simps [of n] intro: exI [of _ "n mod 10"])
qed

lemma show_nat_not_Nil [simp]: "show_nat n \<noteq> []"
  by (subst show_nat.simps) simp

lemma show_nat_inj: "show_nat a = show_nat b \<Longrightarrow> a = b"
proof (induction a arbitrary: b rule: show_nat.induct)
  case (1 a)
  show ?case
  proof (cases "a < 10 \<or> b < 10")
    case True
    with "1.prems" show ?thesis
      by (auto simp: show_nat.simps [of a] show_nat.simps [of b] digit_eq_iff split: if_splits
            dest: arg_cong [where f = length])
  next
    case False
    with "1.prems" have "show_nat (a div 10) = show_nat (b div 10)" "a mod 10 = b mod 10"
      by (auto simp: show_nat.simps [of a] show_nat.simps [of b] digit_eq_iff)
    with False "1.IH" show ?thesis
      by (metis mod_mult_div_eq)
  qed
qed

lemma digit_neq: "d < 10 \<Longrightarrow> digit d \<noteq> CHR ''-''" "d < 10 \<Longrightarrow> digit d \<noteq> CHR '' ''"
  by (auto dest!: of_char_digit)

lemma show_int_no_space: "CHR '' '' \<notin> set (show_int i)"
  using show_nat_digits [of "CHR '' ''"] digit_neq(2) by (auto simp: show_int_def) (metis+)

lemma show_nat_no_minus: "hd (show_nat n) \<noteq> CHR ''-''"
  using show_nat_digits [of "hd (show_nat n)" n] digit_neq(1) by (metis hd_in_set show_nat_not_Nil)

lemma show_int_inj: "show_int a = show_int b \<Longrightarrow> a = b"
  using show_nat_no_minus [of "nat a"] show_nat_no_minus [of "nat b"]
  by (auto simp: show_int_def split: if_splits dest!: show_nat_inj) (metis list.sel(1))+

lemma takeWhile_last_word:
  "x \<notin> set ys \<Longrightarrow> takeWhile (\<lambda>c. c \<noteq> x) (rev (xs @ x # ys)) = rev ys"
  by (simp, subst takeWhile_append2) auto

lemma error_display_eq:
  "error_display F e = ((case description F e of Some d \<Rightarrow> d | None \<Rightarrow> ''Unknown jemalloc error'')
     @ '' (errno'') @ CHR '' '' # (show_int (sint (code e)) @ [CHR '')''])"
  by (simp add: error_display_def split: option.splits)

lemma error_display_last_word:
  "takeWhile (\<lambda>c. c \<noteq> CHR '' '') (rev (error_display F e)) = rev (show_int (sint (code e)) @ [CHR '')''])"
  unfolding error_display_eq
  by (rule takeWhile_last_word) (simp add: show_int_no_space)

text \<open>
  C36. The textual form of an error determines the error: two errors that print the same are the same,
  whatever the values of the system's error constants.
\<close>

theorem error_display_inj:
  assumes "error_display F e = error_display F e'"
  shows "e = e'"
proof -
  have "sint (code e) = sint (code e')"
    using error_display_last_word [of F e] error_display_last_word [of F e'] assms
    by (auto dest: show_int_inj)
  then have "(word_of_int (sint (code e)) :: c_int) = word_of_int (sint (code e'))"
    by simp
  then show ?thesis
    by (intro error.expand) simp
qed

theorem error_display_inj_witness:
  "\<forall>F. error_display F (Error (- 1)) = error_display F (Error (0xFFFFFFFF)) \<and> Error (- 1) = Error 0xFFFFFFFF"
proof
  fix F :: "'s ffi"
  have "(- 1 :: c_int) = 0xFFFFFFFF" by code_simp
  then have "error_display F (Error (- 1)) = error_display F (Error 0xFFFFFFFF)" by (simp only:)
  with error_display_inj [of F "Error (- 1)" "Error 0xFFFFFFFF"]
  show "error_display F (Error (- 1)) = error_display F (Error 0xFFFFFFFF) \<and> Error (- 1) = Error 0xFFFFFFFF"
    by blast
qed

end
