(* ===== verification/Ctl_Raw.thy ===== *)
theory Ctl_Raw
  imports Ctl_Error
begin

text \<open>
  \<^verbatim>\<open>jevmalloc/src/ctl/raw.rs\<close> and the constants of \<^verbatim>\<open>ctl/key.rs\<close>: translation of a control name
  into a MIB key and the generic, untyped reads, writes, exchanges and commands. A key
  (\<^verbatim>\<open>ArrayVec<usize, 8>\<close>) is the list of its components.

  The lemmas characterise when a name is rejected before the foreign call, show that every
  successful translation yields one component per name segment, and that the unchecked reads of
  foreign output are defined whenever the control honours the size and validity of its type.
\<close>

section \<open>Constants and name segments\<close>

definition NAME_MAX :: nat where "NAME_MAX = 128"

definition KEY_SEGS :: nat where "KEY_SEGS = 8"

type_synonym key = "usize list"

text \<open>\<^verbatim>\<open>name.split('.')\<close>: the full stop is byte 46, and no other character contains that byte.\<close>

fun split_dot :: "byte list \<Rightarrow> byte list list" where
  "split_dot [] = [[]]"
| "split_dot (b # bs) =
     (if b = 46 then [] # split_dot bs
      else case split_dot bs of [] \<Rightarrow> [[b]] | s # ss \<Rightarrow> (b # s) # ss)"

definition segments :: "byte list \<Rightarrow> nat" where
  "segments name = length (split_dot name)"

lemma split_dot_not_Nil [simp]: "split_dot bs \<noteq> []"
  by (induction bs) (auto split: list.splits)

lemma segments_pos [simp]: "0 < segments name"
  by (simp add: segments_def)

lemma segments_count: "segments name = Suc (count_list name 46)"
  unfolding segments_def by (induction name) (auto split: list.splits)

section \<open>Operations\<close>

definition into_result :: "c_int \<Rightarrow> ('p, unit ctl_result) comp" where
  "into_result c = (if c = 0 then ret (Inr ()) else fail (from_code c))"

text \<open>\<^verbatim>\<open>ArrayVec::set_len\<close>: undefined when a slot it exposes is not initialised.\<close>

definition set_len :: "usize option list \<Rightarrow> nat \<Rightarrow> ('p, key ctl_result) comp" where
  "set_len slots n = (if length slots < n then undef else
     case those (take n slots) of None \<Rightarrow> undef | Some k \<Rightarrow> ret (Inr k))"

text \<open>The check before the foreign call.\<close>

definition name_rejected :: "byte list \<Rightarrow> bool" where
  "name_rejected bytes \<longleftrightarrow>
     bytes = [] \<or> NAME_MAX \<le> length bytes \<or> 0 \<in> set bytes \<or> KEY_SEGS < segments bytes"

definition name_buf :: "byte list \<Rightarrow> byte list" where
  "name_buf bytes = bytes @ replicate (NAME_MAX - length bytes) 0"

definition mibs :: "'s ffi \<Rightarrow> byte list \<Rightarrow> ('s process, key ctl_result) comp" where
  "mibs F name =
    (if name_rejected name then fail (invalid_argument F)
     else run_then (mallctlnametomib F (name_buf name) (of_nat KEY_SEGS)) (\<lambda>(st, slots, key_len).
          run_try (into_result st) (\<lambda>_.
          if unat key_len \<noteq> segments name \<or> KEY_SEGS < unat key_len
          then fail (invalid_argument F)
          else set_len slots (unat key_len))))"

text \<open>\<^verbatim>\<open>MaybeUninit::assume_init\<close>: undefined on uninitialised bytes and on invalid values.\<close>

definition assume_init :: "'a crepr \<Rightarrow> cell list \<Rightarrow> ('p, 'a) comp" where
  "assume_init T cells = (case those cells of
      None \<Rightarrow> undef
    | Some bs \<Rightarrow> (case dec T bs of None \<Rightarrow> undef | Some v \<Rightarrow> ret v))"

definition read_call :: "'a crepr \<Rightarrow> key \<Rightarrow> mib_call" where
  "read_call T k = \<lparr>mib = k, oldp = Some (replicate (rsize T) None),
     oldlen = Some (of_nat (rsize T)), newp = None, newlen = 0\<rparr>"

definition raw_get :: "'s ffi \<Rightarrow> 'a crepr \<Rightarrow> key \<Rightarrow> ('s process, 'a ctl_result) comp" where
  "raw_get F T k =
     run_then (rust_assert (0 < rsize T)) (\<lambda>_.
     run_then (mallctlbymib F (read_call T k)) (\<lambda>rep.
     run_try (into_result (status rep)) (\<lambda>_.
     run_then (rust_assert (outlen rep = of_nat (rsize T))) (\<lambda>_.
     run_then (assume_init T (out rep)) (\<lambda>v. ret (Inr v))))))"

text \<open>
  \<^verbatim>\<open>get_in_place\<close> returns the result together with the value left in the caller's storage, which
  the caller must find valid on every path.
\<close>

definition in_place_call :: "'a crepr \<Rightarrow> key \<Rightarrow> 'a \<Rightarrow> mib_call" where
  "in_place_call T k v = \<lparr>mib = k, oldp = Some (map Some (enc T v)),
     oldlen = Some (of_nat (rsize T)), newp = None, newlen = 0\<rparr>"

definition get_in_place ::
    "'s ffi \<Rightarrow> 'a crepr \<Rightarrow> key \<Rightarrow> 'a \<Rightarrow> ('s process, unit ctl_result \<times> 'a) comp" where
  "get_in_place F T k v =
     run_then (rust_assert (0 < rsize T)) (\<lambda>_.
     run_then (mallctlbymib F (in_place_call T k v)) (\<lambda>rep.
     run_then (assume_init T (out rep)) (\<lambda>v'.
     run_then (into_result (status rep)) (\<lambda>r.
     case r of
       Inl e \<Rightarrow> ret (Inl e, v')
     | Inr _ \<Rightarrow> run_then (rust_assert (outlen rep = of_nat (rsize T))) (\<lambda>_. ret (Inr (), v'))))))"

definition write_call :: "'a crepr \<Rightarrow> key \<Rightarrow> 'a \<Rightarrow> mib_call" where
  "write_call T k v = \<lparr>mib = k, oldp = None, oldlen = None,
     newp = Some (enc T v), newlen = of_nat (rsize T)\<rparr>"

definition raw_set :: "'s ffi \<Rightarrow> 'a crepr \<Rightarrow> key \<Rightarrow> 'a \<Rightarrow> ('s process, unit ctl_result) comp" where
  "raw_set F T k v =
     run_then (rust_assert (0 < rsize T)) (\<lambda>_.
     run_then (mallctlbymib F (write_call T k v)) (\<lambda>rep. into_result (status rep)))"

definition update_call :: "'i crepr \<Rightarrow> 'o crepr \<Rightarrow> key \<Rightarrow> 'i \<Rightarrow> mib_call" where
  "update_call I T k v = \<lparr>mib = k, oldp = Some (replicate (rsize T) None),
     oldlen = Some (of_nat (rsize T)), newp = Some (enc I v), newlen = of_nat (rsize I)\<rparr>"

definition raw_update ::
    "'s ffi \<Rightarrow> 'i crepr \<Rightarrow> 'o crepr \<Rightarrow> key \<Rightarrow> 'i \<Rightarrow> ('s process, 'o ctl_result) comp" where
  "raw_update F I T k v =
     run_then (rust_assert (0 < rsize I)) (\<lambda>_.
     run_then (rust_assert (0 < rsize T)) (\<lambda>_.
     run_then (mallctlbymib F (update_call I T k v)) (\<lambda>rep.
     run_try (into_result (status rep)) (\<lambda>_.
     run_then (rust_assert (outlen rep = of_nat (rsize T))) (\<lambda>_.
     run_then (assume_init T (out rep)) (\<lambda>w. ret (Inr w)))))))"

definition raw_xchg :: "'s ffi \<Rightarrow> 'a crepr \<Rightarrow> key \<Rightarrow> 'a \<Rightarrow> ('s process, 'a ctl_result) comp" where
  "raw_xchg F T k v = raw_update F T T k v"

definition notify_call :: "key \<Rightarrow> mib_call" where
  "notify_call k = \<lparr>mib = k, oldp = None, oldlen = None, newp = None, newlen = 0\<rparr>"

definition raw_notify :: "'s ffi \<Rightarrow> key \<Rightarrow> ('s process, unit ctl_result) comp" where
  "raw_notify F k =
     run_then (mallctlbymib F (notify_call k)) (\<lambda>rep. into_result (status rep))"

section \<open>Translation of names\<close>

lemma into_result_Ok_iff [simp]: "into_result c s = (Done (Inr u), t) \<longleftrightarrow> c = 0 \<and> t = s"
  by (auto simp: into_result_def)

lemma into_result_Err_iff [simp]:
  "into_result c s = (Done (Inl e), t) \<longleftrightarrow> c \<noteq> 0 \<and> e = Error c \<and> t = s"
  by (auto simp: into_result_def fail_from_code_iff)

lemma into_result_Done: "\<exists>r. into_result c s = (Done r, s)"
  by (auto simp: into_result_def from_code_def)

lemma set_len_Done_iff:
  "set_len slots n s = (Done r, t) \<longleftrightarrow>
     n \<le> length slots \<and> (\<exists>k. those (take n slots) = Some k \<and> r = Inr k) \<and> t = s"
  by (auto simp: set_len_def split: option.splits)

lemma those_length: "those xs = Some ys \<Longrightarrow> length ys = length xs"
  by (induction xs arbitrary: ys) (auto split: option.splits)

lemma those_map_Some [simp]: "those (map Some xs) = Some xs"
  by (induction xs) auto

lemma mibs_rejected:
  assumes "name_rejected name" and "errno_ok F"
  shows "mibs F name s = (Done (Inl (Error (errno F EINVAL))), s)"
  using assms by (simp add: mibs_def)

text \<open>The key of a successful translation has one component per segment, at most eight.\<close>

lemma mibs_Ok:
  assumes "mibs F name s = (Done (Inr k), t)"
  shows "\<not> name_rejected name" and "length k = segments name" and "length k \<le> KEY_SEGS"
    and "caches t = caches s" and "trace t = trace s @ [Call_nametomib (name_buf name)]"
proof -
  from assms show nr: "\<not> name_rejected name"
    by (auto simp: mibs_def invalid_argument_def split: if_splits)
  with assms obtain st slots len where
    call: "mallctlnametomib F (name_buf name) (of_nat KEY_SEGS) s = (Done (st, slots, len), t)"
    and len: "unat len = segments name" "unat len \<le> KEY_SEGS" "unat len \<le> length slots"
      "those (take (unat len) slots) = Some k"
    by (auto simp: mibs_def run_then_Done_iff run_try_Ok_iff set_len_Done_iff invalid_argument_def
        split: if_splits)
  show "length k = segments name" "length k \<le> KEY_SEGS"
    using those_length [OF len(4)] len by auto
  show "caches t = caches s" "trace t = trace s @ [Call_nametomib (name_buf name)]"
    using call by (auto simp: mallctlnametomib_def foreign_Done_iff)
qed

text \<open>
  What is documented of \<^verbatim>\<open>mallctlnametomib\<close>: it returns, and on success the reported length is the
  lesser of the number of name components and the capacity, and that many slots are written.
\<close>

definition nametomib_ok :: "'s ffi \<Rightarrow> bool" where
  "nametomib_ok F \<longleftrightarrow> (\<forall>name m. \<not> name_rejected name \<longrightarrow> lib_inv F m \<longrightarrow>
     (\<exists>st slots len m'. c_nametomib F (name_buf name) (of_nat KEY_SEGS) m = (Done (st, slots, len), m')
        \<and> lib_inv F m' \<and> (st = 0 \<longrightarrow> unat len = min (segments name) KEY_SEGS \<and> unat len \<le> length slots
             \<and> (\<forall>x \<in> set (take (unat len) slots). x \<noteq> None))))"

lemma those_Some: "\<forall>x \<in> set xs. x \<noteq> None \<Longrightarrow> \<exists>ys. those xs = Some ys"
  by (induction xs) auto

lemma mibs_safe [safe_rules]:
  assumes "nametomib_ok F" and "errno_ok F"
  shows "safe (\<lambda>s. lib_inv F (mach s)) (mibs F name) (\<lambda>r t. lib_inv F (mach t) \<and> (case r of
     Inl e \<Rightarrow> error_wf e | Inr k \<Rightarrow> length k = segments name))"
proof (rule safeI)
  fix s :: "'a process"
  assume inv: "lib_inv F (mach s)"
  show "\<exists>r t. mibs F name s = (Done r, t) \<and> lib_inv F (mach t) \<and>
      (case r of Inl e \<Rightarrow> error_wf e | Inr k \<Rightarrow> length k = segments name)"
  proof (cases "name_rejected name")
    case True
    with assms inv show ?thesis by (simp add: mibs_rejected error_wf_def)
  next
    case False
    with assms inv obtain st slots len m' where inv': "lib_inv F m'" and
      c: "c_nametomib F (name_buf name) (of_nat KEY_SEGS) (mach s) = (Done (st, slots, len), m')"
      and ok: "st = 0 \<Longrightarrow> unat len = min (segments name) KEY_SEGS \<and> unat len \<le> length slots
             \<and> (\<forall>x \<in> set (take (unat len) slots). x \<noteq> None)"
      unfolding nametomib_ok_def by metis
    have seg: "segments name \<le> KEY_SEGS"
      using False by (simp add: name_rejected_def)
    show ?thesis
    proof (cases "st = 0")
      case True
      then obtain k where "those (take (unat len) slots) = Some k"
        using ok those_Some by blast
      with True ok seg False c inv' show ?thesis
        by (auto simp: mibs_def mallctlnametomib_def foreign_def run_then_def run_try_eq into_result_def
            set_len_def dest: those_length)
    next
      case False
      with \<open>\<not> name_rejected name\<close> c inv' show ?thesis
        by (simp add: mibs_def mallctlnametomib_def foreign_def run_then_def run_try_eq into_result_def
            fail_def from_code_def error_wf_def)
    qed
  qed
qed

section \<open>Typed transfers\<close>

text \<open>
  The safety contract of a typed read: for this key the library returns, and on success it reports
  the size of the type and has written a valid value.
\<close>

definition reply_valid :: "'a crepr \<Rightarrow> mib_reply \<Rightarrow> bool" where
  "reply_valid T rep \<longleftrightarrow> (status rep = 0 \<longrightarrow>
     outlen rep = of_nat (rsize T) \<and> (\<exists>bs v. those (out rep) = Some bs \<and> dec T bs = Some v))"

definition call_ok :: "'s ffi \<Rightarrow> mib_call \<Rightarrow> (mib_reply \<Rightarrow> bool) \<Rightarrow> bool" where
  "call_ok F c Q \<longleftrightarrow> (\<forall>m. lib_inv F m \<longrightarrow>
     (\<exists>rep m'. c_bymib F c m = (Done rep, m') \<and> lib_inv F m' \<and> Q rep))"

text \<open>
  Predicates that imply the library's invariant and survive any call that keeps it.
\<close>

definition mach_closed :: "'s ffi \<Rightarrow> ('s process \<Rightarrow> bool) \<Rightarrow> bool" where
  "mach_closed F P \<longleftrightarrow> (\<forall>s. P s \<longrightarrow> lib_inv F (mach s)) \<and>
     (\<forall>s m c. P s \<longrightarrow> lib_inv F m \<longrightarrow> P (s\<lparr>mach := m, trace := trace s @ [c]\<rparr>))"

lemma mallctlbymib_safe [safe_rules]:
  assumes "call_ok F c Q" and "mach_closed F P"
  shows "safe P (mallctlbymib F c) (\<lambda>rep s. P s \<and> Q rep)"
proof (rule safeI)
  fix s assume p: "P s"
  with assms(2) have "lib_inv F (mach s)" by (simp add: mach_closed_def)
  with assms(1) obtain rep m' where "c_bymib F c (mach s) = (Done rep, m')" "lib_inv F m'" "Q rep"
    unfolding call_ok_def by blast
  with p assms(2) show "\<exists>rep t. mallctlbymib F c s = (Done rep, t) \<and> P t \<and> Q rep"
    by (auto simp: mallctlbymib_def foreign_def mach_closed_def)
qed

lemma into_result_safe:
  "safe P (into_result c) (\<lambda>r s. P s \<and> (case r of Inl e \<Rightarrow> c \<noteq> 0 \<and> e = Error c | Inr _ \<Rightarrow> c = 0))"
  unfolding safe_def by (auto simp: into_result_def from_code_def)

lemma assume_init_valid:
  "those cells = Some bs \<Longrightarrow> dec T bs = Some v \<Longrightarrow> assume_init T cells = ret v"
  by (simp add: assume_init_def)

text \<open>The tail shared by \<^verbatim>\<open>get\<close> and \<^verbatim>\<open>update\<close>: status, reported size, then the value.\<close>

lemma decode_reply_safe:
  assumes "reply_valid T rep"
  shows "safe P (run_try (into_result (status rep)) (\<lambda>_.
     run_then (rust_assert (outlen rep = of_nat (rsize T))) (\<lambda>_.
     run_then (assume_init T (out rep)) (\<lambda>v. ret (Inr v)))))
     (\<lambda>r s. P s \<and> (case r of Inl e \<Rightarrow> error_wf e | Inr _ \<Rightarrow> True))"
proof (cases "status rep = 0")
  case True
  with assms obtain bs v where "outlen rep = of_nat (rsize T)" "those (out rep) = Some bs" "dec T bs = Some v"
    unfolding reply_valid_def by blast
  with True show ?thesis
    by (simp add: into_result_def assume_init_def safe_def)
next
  case False
  then show ?thesis
    by (simp add: into_result_def from_code_def error_wf_def safe_def)
qed

lemma raw_get_safe:
  assumes "0 < rsize T" and "call_ok F (read_call T k) (reply_valid T)" and "mach_closed F P"
  shows "safe P (raw_get F T k) (\<lambda>r s. P s \<and> (case r of Inl e \<Rightarrow> error_wf e | Inr _ \<Rightarrow> True))"
proof -
  have call: "safe P (mallctlbymib F (read_call T k)) (\<lambda>rep s. P s \<and> reply_valid T rep)"
    using assms by (intro mallctlbymib_safe)
  show ?thesis
    using assms(1) by (auto simp: raw_get_def safe_conj_pre intro!: safe_then [OF call] decode_reply_safe)
qed

lemma raw_update_safe:
  assumes "0 < rsize I" and "0 < rsize T" and "call_ok F (update_call I T k v) (reply_valid T)"
    and "mach_closed F P"
  shows "safe P (raw_update F I T k v) (\<lambda>r s. P s \<and> (case r of Inl e \<Rightarrow> error_wf e | Inr _ \<Rightarrow> True))"
proof -
  have call: "safe P (mallctlbymib F (update_call I T k v)) (\<lambda>rep s. P s \<and> reply_valid T rep)"
    using assms by (intro mallctlbymib_safe)
  show ?thesis
    using assms(1,2) by (auto simp: raw_update_def safe_conj_pre intro!: safe_then [OF call] decode_reply_safe)
qed

section \<open>Properties\<close>

lemma mibs_trace:
  assumes "\<not> name_rejected name" and "mibs F name p = (Done r, q)"
  shows "trace q = trace p @ [Call_nametomib (name_buf name)]"
proof -
  have into: "into_result st u = (r', w) \<Longrightarrow> w = u" for st u r' and w :: "'a process"
    using into_result_Done by (metis prod.inject)
  have fail: "fail (invalid_argument F) u = (r', w) \<Longrightarrow> w = u" for u r' and w :: "'a process"
    by (auto simp: invalid_argument_def from_code_def fail_def split: if_splits)
  have "trace w = trace p @ [Call_nametomib (name_buf name)]"
    if "mallctlnametomib F (name_buf name) c p = (x, w)" for c x w
    using that by (auto simp: mallctlnametomib_def foreign_def split: prod.splits)
  with assms show ?thesis
    by (auto simp: mibs_def run_then_def run_try_eq set_len_def dest!: into fail
        split: if_splits prod.splits outcome.splits sum.splits option.splits)
qed

lemma name_buf_content: "\<not> name_rejected name \<Longrightarrow> takeWhile (\<lambda>b. b \<noteq> 0) (name_buf name) = name"
  by (auto simp: name_rejected_def name_buf_def takeWhile_append takeWhile_replicate takeWhile_eq_all_conv)

text \<open>
  C10. Translating a name always returns. A name that is empty, has 128 bytes or more, contains a NUL or
  has more than eight segments is rejected with \<^verbatim>\<open>EINVAL\<close> before any call; every other name reaches the
  library once, in a buffer of 128 bytes in which it is NUL-terminated and whole; and a key that comes
  back has exactly one component per segment, at most eight, all of them initialised by the library.
\<close>

theorem mibs_correct:
  assumes "nametomib_ok F" and "errno_ok F" and "lib_inv F (mach p)"
  shows "\<exists>r q. mibs F name p = (Done r, q) \<and>
    (if name = [] \<or> 128 \<le> length name \<or> 0 \<in> set name \<or> 8 < Suc (count_list name 46)
     then r = Inl (Error (errno F EINVAL)) \<and> q = p
     else trace q = trace p @ [Call_nametomib (name_buf name)] \<and> length (name_buf name) = 128 \<and>
       takeWhile (\<lambda>b. b \<noteq> 0) (name_buf name) = name \<and>
       (case r of Inl e \<Rightarrow> code e \<noteq> 0 | Inr k \<Rightarrow> length k = Suc (count_list name 46) \<and> length k \<le> 8))"
proof -
  have rej: "name_rejected name \<longleftrightarrow> name = [] \<or> 128 \<le> length name \<or> 0 \<in> set name \<or> 8 < Suc (count_list name 46)"
    by (simp add: name_rejected_def NAME_MAX_def KEY_SEGS_def segments_count)
  obtain r q where run: "mibs F name p = (Done r, q)"
    and r: "case r of Inl e \<Rightarrow> error_wf e | Inr k \<Rightarrow> length k = segments name"
    using safeD [OF mibs_safe [OF assms(1,2)] assms(3)] by blast
  show ?thesis
  proof (cases "name_rejected name")
    case True
    with rej mibs_rejected [OF True assms(2)] show ?thesis by auto
  next
    case False
    moreover have "length (name_buf name) = 128"
      using False by (simp add: name_rejected_def name_buf_def NAME_MAX_def)
    ultimately show ?thesis
      using run r mibs_trace [OF False run] name_buf_content [OF False] rej
      by (auto simp: error_wf_def segments_count split: sum.splits)
  qed
qed

end
