(* ===== verification/Ctl_Cache.thy ===== *)
theory Ctl_Cache
  imports Ctl_Raw
begin

text \<open>
  \<^verbatim>\<open>jevmalloc/src/ctl/key/cache.rs\<close>: the process-wide cache of one translated control name, run
  without interference. (Concurrent callers are the subject of the theory \<open>Cache_Concurrent\<close>.)
  The interface clients rely on is the locale \<open>key_source\<close>: a fetch that has succeeded once keeps
  returning the same key and does not cross the foreign boundary again.
\<close>

section \<open>Operations\<close>

definition cache_new :: cache where
  "cache_new = \<lparr>c_len = 0, c_segments = replicate KEY_SEGS 0\<rparr>"

text \<open>\<^verbatim>\<open>Cache::load\<close>: \<^verbatim>\<open>try_push\<close> fails when the key is full.\<close>

fun load_loop :: "'s ffi \<Rightarrow> usize list \<Rightarrow> key \<Rightarrow> ('p, key ctl_result) comp" where
  "load_loop F [] k = ret (Inr k)"
| "load_loop F (x # xs) k =
     (if length k < KEY_SEGS then load_loop F xs (k @ [x]) else fail (invalid_argument F))"

definition cache_load :: "'s ffi \<Rightarrow> cache \<Rightarrow> usize \<Rightarrow> ('p, key ctl_result) comp" where
  "cache_load F c len = load_loop F (take (unat len) (c_segments c)) []"

text \<open>The loop over \<^verbatim>\<open>segments.iter().zip(key)\<close>.\<close>

fun store_segments :: "usize list \<Rightarrow> key \<Rightarrow> usize list" where
  "store_segments (_ # xs) (k # ks) = k # store_segments xs ks"
| "store_segments xs [] = xs"
| "store_segments [] ks = []"

definition publish :: "string \<Rightarrow> key \<Rightarrow> ('s process, unit) comp" where
  "publish acc k = (\<lambda>p. (Done (), p\<lparr>caches := (caches p)(acc :=
      \<lparr>c_len = of_nat (length k), c_segments = store_segments (c_segments (caches p acc)) k\<rparr>)\<rparr>))"

definition cache_get :: "'s ffi \<Rightarrow> string \<Rightarrow> byte list \<Rightarrow> ('s process, key ctl_result) comp" where
  "cache_get F acc name = (\<lambda>p.
     let c = caches p acc in
     if 0 < c_len c then cache_load F c (c_len c) p
     else run_try (mibs F name) (\<lambda>k. run_then (publish acc k) (\<lambda>_. ret (Inr k))) p)"

section \<open>Contents of a cache\<close>

definition cache_wf :: "byte list \<Rightarrow> cache \<Rightarrow> bool" where
  "cache_wf name c \<longleftrightarrow> length (c_segments c) = KEY_SEGS \<and>
     (c_len c = 0 \<or> unat (c_len c) = segments name \<and> segments name \<le> KEY_SEGS)"

definition cached :: "string \<Rightarrow> 's process \<Rightarrow> key option" where
  "cached acc p = (let c = caches p acc in
     if c_len c = 0 then None else Some (take (unat (c_len c)) (c_segments c)))"

definition cache_wf_at :: "string \<Rightarrow> byte list \<Rightarrow> 's process \<Rightarrow> bool" where
  "cache_wf_at acc name p \<longleftrightarrow> cache_wf name (caches p acc)"

lemma cache_wf_new [simp]: "cache_wf name cache_new"
  by (simp add: cache_wf_def cache_new_def)

lemma load_loop_short: "length k + length xs \<le> KEY_SEGS \<Longrightarrow> load_loop F xs k = ret (Inr (k @ xs))"
  by (induction xs arbitrary: k) auto

text \<open>The array has eight slots, so the capacity error of \<^verbatim>\<open>load\<close> is never taken.\<close>

lemma cache_load_total:
  assumes "length (c_segments c) = KEY_SEGS"
  shows "cache_load F c len = ret (Inr (take (unat len) (c_segments c)))"
  using assms by (simp add: cache_load_def load_loop_short)

lemma length_store_segments [simp]: "length (store_segments xs ks) = length xs"
  by (induction xs ks rule: store_segments.induct) auto

lemma take_store_segments:
  "length ks = n \<Longrightarrow> n \<le> length xs \<Longrightarrow> take n (store_segments xs ks) = ks"
  by (induction xs ks arbitrary: n rule: store_segments.induct) auto

lemma unat_of_nat_KEY_SEGS: "n \<le> KEY_SEGS \<Longrightarrow> unat (of_nat n :: usize) = n"
  by (simp add: KEY_SEGS_def unat_of_nat)

lemma cache_get_hit:
  "cache_wf_at acc name p \<Longrightarrow> cached acc p = Some k \<Longrightarrow> cache_get F acc name p = (Done (Inr k), p)"
  by (auto simp: cache_get_def cached_def cache_wf_at_def cache_wf_def cache_load_total Let_def
      word_gt_0 split: if_splits)

lemma cache_get_miss:
  "cached acc p = None \<Longrightarrow> cache_get F acc name p = (case mibs F name p of
      (Done (Inr k), u) \<Rightarrow> (Done (Inr k), snd (publish acc k u)) | r \<Rightarrow> r)"
  by (auto simp: cache_get_def cached_def Let_def run_try_eq run_then_def publish_def
      split: if_splits prod.splits outcome.splits sum.splits)

lemma publish_cached:
  assumes "length k = segments name" and "length k \<le> KEY_SEGS" and "cache_wf_at acc name p"
  shows "cached acc (snd (publish acc k p)) = Some k"
    and "cache_wf_at acc name (snd (publish acc k p))"
proof -
  have "unat (of_nat (length k) :: usize) = length k"
    using assms(2) by (rule unat_of_nat_KEY_SEGS)
  moreover have "0 < length k"
    using assms(1) by simp
  ultimately have "(of_nat (length k) :: usize) \<noteq> 0"
    by (metis unat_0 less_irrefl)
  with assms show "cached acc (snd (publish acc k p)) = Some k"
    "cache_wf_at acc name (snd (publish acc k p))"
    by (auto simp: publish_def cached_def cache_wf_at_def cache_wf_def take_store_segments
        unat_of_nat_KEY_SEGS)
qed

lemma mibs_caches:
  assumes "mibs F name p = (r, q)"
  shows "caches q = caches p"
proof -
  have into: "into_result st u = (r', w) \<Longrightarrow> w = u" for st u r' w
    using into_result_Done by (metis prod.inject)
  have fail: "fail (invalid_argument F) u = (r', w) \<Longrightarrow> w = u" for u r' w
    by (auto simp: invalid_argument_def from_code_def fail_def split: if_splits)
  have "caches w = caches p" if "mallctlnametomib F n c p = (x, w)" for n c x w
    using that by (auto simp: mallctlnametomib_def foreign_def split: prod.splits)
  with assms show ?thesis
    by (auto simp: mibs_def run_then_def run_try_eq set_len_def dest!: into fail
        split: if_splits prod.splits outcome.splits sum.splits option.splits)
qed

section \<open>The interface\<close>

locale key_source =
  fixes fetch :: "('p, 'k ctl_result) comp"
    and holds :: "'p \<Rightarrow> 'k option"
    and wf :: "'p \<Rightarrow> bool"
  assumes hit: "wf p \<Longrightarrow> holds p = Some k \<Longrightarrow> fetch p = (Done (Inr k), p)"
    and filled: "wf p \<Longrightarrow> fetch p = (Done (Inr k), q) \<Longrightarrow> holds q = Some k"
    and kept: "wf p \<Longrightarrow> fetch p = (r, q) \<Longrightarrow> wf q"
begin

lemma fetch_again:
  assumes "wf p" and "fetch p = (Done (Inr k), q)"
  shows "fetch q = (Done (Inr k), q)"
  using assms hit filled kept by blast

lemma fetch_agrees:
  assumes "wf p" and "fetch p = (Done (Inr k), q)" and "fetch q = (Done (Inr k'), q')"
  shows "k' = k" and "q' = q"
  using fetch_again [OF assms(1,2)] assms(3) by auto

end

text \<open>What a fetch through an empty cache does, by the outcome of the translation.\<close>

lemma cache_get_fill:
  assumes "cache_wf_at acc name p" and "cached acc p = None" and "mibs F name p = (Done (Inr k), u)"
  shows "cache_get F acc name p = (Done (Inr k), snd (publish acc k u))"
    and "cached acc (snd (publish acc k u)) = Some k"
    and "cache_wf_at acc name (snd (publish acc k u))"
proof -
  have "cache_wf_at acc name u"
    using assms mibs_caches [OF assms(3)] by (simp add: cache_wf_at_def)
  then show "cached acc (snd (publish acc k u)) = Some k"
    "cache_wf_at acc name (snd (publish acc k u))"
    using mibs_Ok [OF assms(3)] by (simp_all add: publish_cached)
qed (simp add: cache_get_miss assms)

lemma cache_get_no_fill:
  assumes "cached acc p = None" and "\<nexists>k u. mibs F name p = (Done (Inr k), u)"
  shows "cache_get F acc name p = mibs F name p"
  using assms by (auto simp: cache_get_miss split: prod.splits outcome.splits sum.splits)

interpretation cell: key_source "cache_get F acc name" "cached acc" "cache_wf_at acc name"
  for F :: "'s ffi" and acc name
proof unfold_locales
  fix p :: "'s process" and q k r
  show "cache_wf_at acc name p \<Longrightarrow> cached acc p = Some k \<Longrightarrow> cache_get F acc name p = (Done (Inr k), p)"
    by (rule cache_get_hit)
  assume wf: "cache_wf_at acc name p"
  show "cached acc q = Some k" if get: "cache_get F acc name p = (Done (Inr k), q)"
  proof (cases "cached acc p")
    case None
    with get obtain u where m: "mibs F name p = (Done (Inr k), u)"
      by (auto simp: cache_get_miss split: prod.splits outcome.splits sum.splits)
    from cache_get_fill [OF wf None m] get show ?thesis by simp
  qed (use wf get cache_get_hit in fastforce)
  show "cache_wf_at acc name q" if get: "cache_get F acc name p = (r, q)"
  proof (cases "cached acc p = None \<and> (\<exists>k u. mibs F name p = (Done (Inr k), u))")
    case True
    then obtain k' u where "cached acc p = None" "mibs F name p = (Done (Inr k'), u)" by blast
    from cache_get_fill [OF wf this] get show ?thesis by simp
  next
    case False
    show ?thesis
    proof (cases "cached acc p")
      case None
      with False get have "mibs F name p = (r, q)"
        using cache_get_no_fill by metis
      with wf show ?thesis by (simp add: cache_wf_at_def mibs_caches)
    qed (use wf get cache_get_hit in fastforce)
  qed
qed

lemma cache_get_length:
  assumes "cache_wf_at acc name p" and "cache_get F acc name p = (Done (Inr k), q)"
  shows "length k = segments name"
proof -
  have "cached acc q = Some k" "cache_wf_at acc name q"
    using assms cell.filled cell.kept by blast+
  then show ?thesis
    by (auto simp: cached_def cache_wf_at_def cache_wf_def Let_def split: if_splits)
qed

end
