(* ===== verification/Cache_Concurrent.thy ===== *)
theory Cache_Concurrent
  imports Ctl_Cache
begin

text \<open>
  Concurrent calls of \<^verbatim>\<open>Cache::get\<close> (\<^verbatim>\<open>jevmalloc/src/ctl/key/cache.rs\<close>) on one static cache, at the
  granularity of its atomic operations and with the orderings the code asks for. Memory is the
  view-based release/acquire semantics: every location keeps the history of the messages written
  to it, a load may return any message not older than what the thread has already seen there, an
  acquire load of a release message joins the writer's view, and a store may take any unused
  timestamp later than the thread's own view, so stores of different threads can be ordered either
  way. A thread that returned may call \<^verbatim>\<open>get\<close> again.

  The parameter \<open>K\<close> is the key the library translates the fixed name into; a translation may also
  fail. Shown: no thread ever returns anything but \<open>K\<close> or a translation error, whatever the
  interleaving and however stale its relaxed loads are, and every call finishes within eleven of
  its own steps, whatever the others do.
\<close>

section \<open>Memory with views\<close>

datatype loc = Len | Seg nat

type_synonym view = "loc \<Rightarrow> nat"

record msg =
  m_val :: usize
  m_time :: nat
  m_view :: view

definition view_join :: "view \<Rightarrow> view \<Rightarrow> view" where
  "view_join v w = (\<lambda>l. max (v l) (w l))"

text \<open>The view of a thread after a load, by ordering.\<close>

definition load_acquire :: "view \<Rightarrow> loc \<Rightarrow> msg \<Rightarrow> view" where
  "load_acquire v l m = view_join (v(l := m_time m)) (m_view m)"

definition load_relaxed :: "view \<Rightarrow> loc \<Rightarrow> msg \<Rightarrow> view" where
  "load_relaxed v l m = v(l := m_time m)"

text \<open>The message a store adds, by ordering: only a release store carries the thread's view.\<close>

definition store_release :: "view \<Rightarrow> loc \<Rightarrow> usize \<Rightarrow> nat \<Rightarrow> msg" where
  "store_release v l x ts = \<lparr>m_val = x, m_time = ts, m_view = v(l := ts)\<rparr>"

definition store_relaxed :: "view \<Rightarrow> loc \<Rightarrow> usize \<Rightarrow> nat \<Rightarrow> msg" where
  "store_relaxed v l x ts = \<lparr>m_val = x, m_time = ts, m_view = (\<lambda>_. 0)(l := ts)\<rparr>"

section \<open>The machine\<close>

text \<open>Where a thread is in \<^verbatim>\<open>get\<close>; the two loops carry their index.\<close>

datatype pc =
    Entry
  | Loading usize nat key
  | Translate
  | Storing key nat
  | Returned "key ctl_result"

record thr =
  t_pc :: pc
  t_view :: view

record conf =
  hist :: "loc \<Rightarrow> msg list"
  thr_of :: "nat \<Rightarrow> thr"

definition readable :: "conf \<Rightarrow> nat \<Rightarrow> loc \<Rightarrow> msg \<Rightarrow> bool" where
  "readable c t l m \<longleftrightarrow> m \<in> set (hist c l) \<and> t_view (thr_of c t) l \<le> m_time m"

definition unused :: "conf \<Rightarrow> nat \<Rightarrow> loc \<Rightarrow> nat \<Rightarrow> bool" where
  "unused c t l ts \<longleftrightarrow> t_view (thr_of c t) l < ts \<and> ts \<notin> m_time ` set (hist c l)"

definition goto :: "conf \<Rightarrow> nat \<Rightarrow> pc \<Rightarrow> view \<Rightarrow> conf" where
  "goto c t p v = c\<lparr>thr_of := (thr_of c)(t := \<lparr>t_pc = p, t_view = v\<rparr>)\<rparr>"

definition add_msg :: "conf \<Rightarrow> loc \<Rightarrow> msg \<Rightarrow> conf" where
  "add_msg c l m = c\<lparr>hist := (hist c)(l := m # hist c l)\<rparr>"

inductive get_step :: "error \<Rightarrow> key \<Rightarrow> nat \<Rightarrow> conf \<Rightarrow> conf \<Rightarrow> bool" for einval K t where
  load_len:
    "t_pc (thr_of c t) = Entry \<Longrightarrow> readable c t Len m \<Longrightarrow>
     get_step einval K t c (goto c t (if 0 < m_val m then Loading (m_val m) 0 [] else Translate)
       (load_acquire (t_view (thr_of c t)) Len m))"
| load_segment:
    "t_pc (thr_of c t) = Loading len i acc \<Longrightarrow> i < KEY_SEGS \<Longrightarrow> i < unat len \<Longrightarrow>
     readable c t (Seg i) m \<Longrightarrow>
     get_step einval K t c (goto c t
       (if length acc < KEY_SEGS then Loading len (Suc i) (acc @ [m_val m]) else Returned (Inl einval))
       (load_relaxed (t_view (thr_of c t)) (Seg i) m))"
| load_end:
    "t_pc (thr_of c t) = Loading len i acc \<Longrightarrow> \<not> (i < KEY_SEGS \<and> i < unat len) \<Longrightarrow>
     get_step einval K t c (goto c t (Returned (Inr acc)) (t_view (thr_of c t)))"
| translate_ok:
    "t_pc (thr_of c t) = Translate \<Longrightarrow>
     get_step einval K t c (goto c t (Storing K 0) (t_view (thr_of c t)))"
| translate_err:
    "t_pc (thr_of c t) = Translate \<Longrightarrow>
     get_step einval K t c (goto c t (Returned (Inl e)) (t_view (thr_of c t)))"
| store_segment:
    "t_pc (thr_of c t) = Storing k i \<Longrightarrow> i < KEY_SEGS \<Longrightarrow> i < length k \<Longrightarrow> unused c t (Seg i) ts \<Longrightarrow>
     get_step einval K t c
       (goto (add_msg c (Seg i) (store_relaxed (t_view (thr_of c t)) (Seg i) (k ! i) ts)) t
         (Storing k (Suc i)) ((t_view (thr_of c t))(Seg i := ts)))"
| store_len:
    "t_pc (thr_of c t) = Storing k i \<Longrightarrow> \<not> (i < KEY_SEGS \<and> i < length k) \<Longrightarrow> unused c t Len ts \<Longrightarrow>
     get_step einval K t c
       (goto (add_msg c Len (store_release (t_view (thr_of c t)) Len (of_nat (length k)) ts)) t
         (Returned (Inr k)) ((t_view (thr_of c t))(Len := ts)))"
| call_again:
    "t_pc (thr_of c t) = Returned r \<Longrightarrow> get_step einval K t c (goto c t Entry (t_view (thr_of c t)))"

definition initial :: conf where
  "initial = \<lparr>hist = (\<lambda>_. [\<lparr>m_val = 0, m_time = 0, m_view = (\<lambda>_. 0)\<rparr>]),
     thr_of = (\<lambda>_. \<lparr>t_pc = Entry, t_view = (\<lambda>_. 0)\<rparr>)\<rparr>"

inductive reach :: "error \<Rightarrow> key \<Rightarrow> conf \<Rightarrow> bool" for einval K where
  start: "reach einval K initial"
| step: "reach einval K c \<Longrightarrow> get_step einval K t c c' \<Longrightarrow> reach einval K c'"

section \<open>The invariant\<close>

text \<open>Everything written so far to a segment is its component of \<open>K\<close>.\<close>

definition seg_msg_ok :: "key \<Rightarrow> nat \<Rightarrow> msg \<Rightarrow> bool" where
  "seg_msg_ok K i m \<longleftrightarrow> m_time m = 0 \<or> i < length K \<and> m_val m = K ! i"

text \<open>A view in which no segment of \<open>K\<close> can still read as its initial zero.\<close>

definition saw_all :: "key \<Rightarrow> view \<Rightarrow> bool" where
  "saw_all K v \<longleftrightarrow> (\<forall>i < length K. 0 < v (Seg i))"

text \<open>A nonzero length is the length of \<open>K\<close> and carries a view of all segments.\<close>

definition len_msg_ok :: "key \<Rightarrow> msg \<Rightarrow> bool" where
  "len_msg_ok K m \<longleftrightarrow> m_val m = 0 \<or> m_val m = of_nat (length K) \<and> saw_all K (m_view m)"

fun pc_ok :: "key \<Rightarrow> view \<Rightarrow> pc \<Rightarrow> bool" where
  "pc_ok K v Entry = True"
| "pc_ok K v Translate = True"
| "pc_ok K v (Loading len i acc) =
     (unat len = length K \<and> i \<le> length K \<and> acc = take i K \<and> saw_all K v)"
| "pc_ok K v (Storing k i) = (k = K \<and> i \<le> length K \<and> (\<forall>j < i. 0 < v (Seg j)))"
| "pc_ok K v (Returned (Inr k)) = (k = K)"
| "pc_ok K v (Returned (Inl e)) = True"

definition thr_ok :: "key \<Rightarrow> thr \<Rightarrow> bool" where
  "thr_ok K th \<longleftrightarrow> pc_ok K (t_view th) (t_pc th)"

text \<open>Views are bounded by what has been written, so a load always has something to read.\<close>

definition view_bounded :: "conf \<Rightarrow> view \<Rightarrow> bool" where
  "view_bounded c v \<longleftrightarrow> (\<forall>l. \<exists>m \<in> set (hist c l). v l \<le> m_time m)"

definition inv :: "key \<Rightarrow> conf \<Rightarrow> bool" where
  "inv K c \<longleftrightarrow>
     (\<forall>i. \<forall>m \<in> set (hist c (Seg i)). seg_msg_ok K i m) \<and>
     (\<forall>m \<in> set (hist c Len). len_msg_ok K m) \<and>
     (\<forall>t. thr_ok K (thr_of c t)) \<and>
     (\<forall>t. view_bounded c (t_view (thr_of c t))) \<and>
     (\<forall>l. \<forall>m \<in> set (hist c l). view_bounded c (m_view m))"

lemma inv_initial: "inv K initial"
  by (simp add: inv_def initial_def seg_msg_ok_def len_msg_ok_def thr_ok_def view_bounded_def)

lemmas inv_parts = inv_def thr_ok_def
lemmas conf_defs = goto_def add_msg_def

lemma view_bounded_goto [simp]: "view_bounded (goto c t p v) w = view_bounded c w"
  by (simp add: view_bounded_def goto_def)

lemma view_bounded_add: "view_bounded c v \<Longrightarrow> view_bounded (add_msg c l m) v"
  by (auto simp: view_bounded_def add_msg_def)

lemma view_bounded_upd:
  "view_bounded c v \<Longrightarrow> m \<in> set (hist c l) \<Longrightarrow> view_bounded c (v(l := m_time m))"
  by (auto simp: view_bounded_def)

lemma view_bounded_join:
  "view_bounded c v \<Longrightarrow> view_bounded c w \<Longrightarrow> view_bounded c (view_join v w)"
  by (simp add: view_bounded_def view_join_def max_def)

lemma view_bounded_zero: "view_bounded c v \<Longrightarrow> view_bounded c (\<lambda>_. 0)"
  unfolding view_bounded_def by (metis le0)

lemma view_bounded_new:
  "view_bounded c v \<Longrightarrow> m_time m = ts \<Longrightarrow> view_bounded (add_msg c l m) (v(l := ts))"
  by (auto simp: add_msg_def view_bounded_def)

lemma inv_goto:
  assumes "inv K c" and "pc_ok K v p" and "view_bounded c v"
  shows "inv K (goto c t p v)"
  using assms by (auto simp: inv_parts) (auto simp: goto_def)

lemma inv_add_msg:
  assumes "inv K c" and "view_bounded (add_msg c l m) (m_view m)"
    and "\<And>i. l = Seg i \<Longrightarrow> seg_msg_ok K i m" and "l = Len \<Longrightarrow> len_msg_ok K m"
  shows "inv K (add_msg c l m)"
proof -
  have old: "view_bounded (add_msg c l m) v" if "view_bounded c v" for v
    using that by (rule view_bounded_add)
  from assms old show ?thesis
    by (auto simp: inv_parts) (auto simp: add_msg_def split: if_splits)
qed

lemma saw_all_join: "saw_all K w \<Longrightarrow> saw_all K (view_join v w)"
  by (auto simp: saw_all_def view_join_def)

lemma saw_all_later: "saw_all K v \<Longrightarrow> v l \<le> n \<Longrightarrow> saw_all K (v(l := n))"
  by (auto simp: saw_all_def)

lemma inv_thread:
  assumes "inv K c"
  shows "pc_ok K (t_view (thr_of c t)) (t_pc (thr_of c t))" and "view_bounded c (t_view (thr_of c t))"
  using assms by (auto simp: inv_parts)

lemma inv_read_seg:
  assumes "inv K c" and "readable c t (Seg i) m" and "0 < t_view (thr_of c t) (Seg i)"
  shows "m_val m = K ! i"
  using assms unfolding inv_def readable_def seg_msg_ok_def by (metis le_zero_eq less_irrefl)

lemma inv_load_len:
  assumes "inv K c" and "readable c t Len m" and "length K \<le> KEY_SEGS"
  shows "inv K (goto c t (if 0 < m_val m then Loading (m_val m) 0 [] else Translate)
       (load_acquire (t_view (thr_of c t)) Len m))"
proof -
  let ?v = "t_view (thr_of c t)"
  have m: "m \<in> set (hist c Len)" "len_msg_ok K m" "view_bounded c (m_view m)"
    using assms(1,2) by (auto simp: inv_def readable_def)
  have vb: "view_bounded c (load_acquire ?v Len m)"
    unfolding load_acquire_def
    using m inv_thread(2) [OF assms(1)] by (intro view_bounded_join view_bounded_upd)
  have "unat (m_val m) = length K \<and> saw_all K (load_acquire ?v Len m)" if "0 < m_val m"
    using that m(2) assms(3) saw_all_join
    by (auto simp: len_msg_ok_def load_acquire_def unat_of_nat_KEY_SEGS word_gt_0)
  with assms(1) vb show ?thesis
    by (intro inv_goto) auto
qed

lemma inv_load_segment:
  assumes "inv K c" and "t_pc (thr_of c t) = Loading len i acc" and "i < KEY_SEGS" and "i < unat len"
    and "readable c t (Seg i) m"
  shows "inv K (goto c t
       (if length acc < KEY_SEGS then Loading len (Suc i) (acc @ [m_val m]) else Returned (Inl einval))
       (load_relaxed (t_view (thr_of c t)) (Seg i) m))"
proof -
  let ?v = "t_view (thr_of c t)"
  have pc: "unat len = length K" "acc = take i K" "saw_all K ?v"
    using inv_thread(1) [OF assms(1), of t] assms(2) by auto
  have val: "m_val m = K ! i"
    using pc assms(4) by (intro inv_read_seg [OF assms(1,5)]) (simp add: saw_all_def)
  have "take i K @ [K ! i] = take (Suc i) K"
    using pc(1) assms(4) by (simp add: take_Suc_conv_app_nth)
  with pc val assms(4,5) have "pc_ok K (load_relaxed ?v (Seg i) m) (Loading len (Suc i) (acc @ [m_val m]))"
    by (auto simp: load_relaxed_def readable_def intro!: saw_all_later)
  moreover have "view_bounded c (load_relaxed ?v (Seg i) m)"
    using assms(5) inv_thread(2) [OF assms(1)]
    by (auto simp: load_relaxed_def readable_def intro: view_bounded_upd)
  ultimately show ?thesis
    using assms(1) by (intro inv_goto) auto
qed

lemma inv_store_segment:
  assumes "inv K c" and "t_pc (thr_of c t) = Storing k i" and "i < length k" and "unused c t (Seg i) ts"
  shows "inv K (goto (add_msg c (Seg i) (store_relaxed (t_view (thr_of c t)) (Seg i) (k ! i) ts)) t
         (Storing k (Suc i)) ((t_view (thr_of c t))(Seg i := ts)))" (is "inv K (goto ?c t ?p ?v)")
proof -
  have pc: "k = K" "\<forall>j < i. 0 < t_view (thr_of c t) (Seg j)"
    using inv_thread(1) [OF assms(1), of t] assms(2) by auto
  have vb: "view_bounded c (t_view (thr_of c t))"
    using assms(1) by (rule inv_thread(2))
  have "inv K ?c"
    using assms(1,3) pc(1) view_bounded_new [OF view_bounded_zero [OF vb]]
    by (intro inv_add_msg) (auto simp: store_relaxed_def seg_msg_ok_def)
  moreover have "pc_ok K ?v ?p"
    using pc assms(3,4) by (auto simp: unused_def less_Suc_eq)
  moreover have "view_bounded ?c ?v"
    using vb by (rule view_bounded_new) (simp add: store_relaxed_def)
  ultimately show ?thesis
    by (rule inv_goto)
qed

lemma inv_store_len:
  assumes "inv K c" and "t_pc (thr_of c t) = Storing k i" and "\<not> (i < KEY_SEGS \<and> i < length k)"
    and "unused c t Len ts" and "length K \<le> KEY_SEGS"
  shows "inv K (goto (add_msg c Len (store_release (t_view (thr_of c t)) Len (of_nat (length k)) ts)) t
         (Returned (Inr k)) ((t_view (thr_of c t))(Len := ts)))" (is "inv K (goto ?c t ?p ?v)")
proof -
  have pc: "k = K" "i = length K" "\<forall>j < i. 0 < t_view (thr_of c t) (Seg j)"
    using inv_thread(1) [OF assms(1), of t] assms(2,3,5) by auto
  then have saw: "saw_all K ?v"
    by (simp add: saw_all_def)
  have vb: "view_bounded ?c ?v"
    using inv_thread(2) [OF assms(1)] by (rule view_bounded_new) (simp add: store_release_def)
  have "inv K ?c"
    using assms(1) pc(1) saw vb by (intro inv_add_msg) (auto simp: store_release_def len_msg_ok_def)
  with pc vb show ?thesis
    by (intro inv_goto) auto
qed

lemma inv_step:
  assumes "get_step einval K t c c'" and "inv K c" and "length K \<le> KEY_SEGS"
  shows "inv K c'"
  using assms
proof (cases rule: get_step.cases)
  case (load_end len i acc)
  have "pc_ok K (t_view (thr_of c t)) (Returned (Inr acc))"
    using inv_thread(1) [OF assms(2), of t] load_end assms(3) by auto
  with load_end show ?thesis
    using assms(2) inv_thread by (auto intro: inv_goto)
qed (use assms inv_thread [OF assms(2)] inv_load_len inv_load_segment inv_store_segment inv_store_len
     in \<open>auto intro!: inv_goto\<close>)

lemma reach_inv: "reach einval K c \<Longrightarrow> length K \<le> KEY_SEGS \<Longrightarrow> inv K c"
  by (induction rule: reach.induct) (auto intro: inv_initial inv_step)

section \<open>Progress\<close>

text \<open>How many more steps of its own a call can take.\<close>

fun pc_rank :: "pc \<Rightarrow> nat" where
  "pc_rank Entry = KEY_SEGS + 3"
| "pc_rank Translate = KEY_SEGS + 2"
| "pc_rank (Storing k i) = Suc KEY_SEGS - i"
| "pc_rank (Loading len i acc) = Suc KEY_SEGS - i"
| "pc_rank (Returned r) = 0"

definition rank :: "conf \<Rightarrow> nat \<Rightarrow> nat" where
  "rank c t = pc_rank (t_pc (thr_of c t))"

lemma thr_of_goto [simp]: "thr_of (goto c t p v) u = (if u = t then \<lparr>t_pc = p, t_view = v\<rparr> else thr_of c u)"
  by (simp add: goto_def)

lemma thr_of_add_msg [simp]: "thr_of (add_msg c l m) = thr_of c"
  by (simp add: add_msg_def)

lemma step_other: "get_step einval K u c c' \<Longrightarrow> t \<noteq> u \<Longrightarrow> thr_of c' t = thr_of c t"
  by (erule get_step.cases) auto

lemma KEY_SEGS_pos [simp]: "0 < KEY_SEGS"
  by (simp add: KEY_SEGS_def)

lemma step_rank:
  assumes "get_step einval K t c c'" and "inv K c" and "length K \<le> KEY_SEGS" and "0 < rank c t"
  shows "rank c' t < rank c t"
  using assms(1)
proof (cases rule: get_step.cases)
  case (load_end len i acc)
  then show ?thesis
    using inv_thread(1) [OF assms(2), of t] assms(3) by (auto simp: rank_def)
next
  case (store_len k i ts)
  then show ?thesis
    using inv_thread(1) [OF assms(2), of t] assms(3) by (auto simp: rank_def)
qed (use assms(4) in \<open>auto simp: rank_def\<close>)

lemma readable_exists: "inv K c \<Longrightarrow> \<exists>m. readable c t l m"
  using inv_thread(2) [of K c t] by (auto simp: view_bounded_def readable_def)

lemma unused_exists: "\<exists>ts. unused c t l ts"
proof -
  define S where "S = insert (t_view (thr_of c t) l) (m_time ` set (hist c l))"
  have "finite S" by (simp add: S_def)
  then have "\<forall>x \<in> S. x < Suc (Max S)" by (simp add: less_Suc_eq_le)
  then have "unused c t l (Suc (Max S))"
    by (auto simp: unused_def S_def)
  then show ?thesis ..
qed

lemma step_enabled:
  assumes "inv K c" and "0 < rank c t"
  shows "\<exists>c'. get_step einval K t c c'"
proof (cases "t_pc (thr_of c t)")
  case Entry
  with readable_exists [OF assms(1)] show ?thesis by (blast intro: get_step.load_len)
next
  case (Loading len i acc)
  with readable_exists [OF assms(1)] show ?thesis
    by (cases "i < KEY_SEGS \<and> i < unat len") (blast intro: get_step.load_segment get_step.load_end)+
next
  case Translate
  then show ?thesis by (blast intro: get_step.translate_ok)
next
  case (Storing k i)
  with unused_exists show ?thesis
    by (cases "i < KEY_SEGS \<and> i < length k") (blast intro: get_step.store_segment get_step.store_len)+
next
  case (Returned r)
  with assms(2) show ?thesis by (simp add: rank_def)
qed

lemma rank_bound: "rank c t \<le> 11"
  by (cases "t_pc (thr_of c t)") (auto simp: rank_def KEY_SEGS_def)

section \<open>Properties\<close>

text \<open>
  C2. No caller of a key cache observes a partial key: in every state that any interleaving of any
  number of threads calling \<^verbatim>\<open>Cache::get\<close> can reach under release/acquire memory, a call that
  returned a key returned exactly the key the name translates to, and a thread copying the
  published components has so far read exactly the corresponding prefix of it.
\<close>

theorem get_never_partial:
  assumes "reach einval K c" and "length K \<le> KEY_SEGS"
  shows "(\<forall>k. t_pc (thr_of c t) = Returned (Inr k) \<longrightarrow> k = K) \<and>
    (\<forall>len i acc. t_pc (thr_of c t) = Loading len i acc \<longrightarrow>
       unat len = length K \<and> i \<le> length K \<and> acc = take i K)"
  using inv_thread(1) [OF reach_inv [OF assms], of t] by auto

text \<open>
  C11. A call of \<^verbatim>\<open>Cache::get\<close> never blocks: in every reachable state a thread inside a call can take
  a step, each of its own steps brings it closer to returning, steps of other threads leave it
  where it is, and at most eleven own steps remain.
\<close>

theorem get_wait_free:
  assumes "reach einval K c" and "length K \<le> KEY_SEGS" and "\<forall>r. t_pc (thr_of c t) \<noteq> Returned r"
  shows "(\<exists>c'. get_step einval K t c c') \<and>
    (\<forall>c'. get_step einval K t c c' \<longrightarrow> rank c' t < rank c t) \<and>
    (\<forall>u c'. u \<noteq> t \<longrightarrow> get_step einval K u c c' \<longrightarrow> rank c' t = rank c t) \<and> rank c t \<le> 11"
proof -
  have inv: "inv K c"
    using assms(1,2) by (rule reach_inv)
  have pos: "0 < rank c t"
    using inv_thread(1) [OF inv, of t] assms(2,3)
    by (cases "t_pc (thr_of c t)") (auto simp: rank_def)
  show ?thesis
    using step_enabled [OF inv pos] step_rank [OF _ inv assms(2) pos] step_other rank_bound
    by (auto simp: rank_def)
qed

text \<open>A run in which thread 0 translates, publishes and returns.\<close>

lemma publishing_run:
  fixes K :: key
  assumes "K = [5]"
  shows "\<exists>c. reach einval K c \<and> (\<exists>k. t_pc (thr_of c 0) = Returned (Inr k))"
proof -
  obtain m where m: "readable initial 0 Len m" "m_val m = 0"
    by (auto simp: readable_def initial_def)
  obtain v where r1: "reach einval K (goto initial 0 Translate v)"
    using reach.step [OF reach.start get_step.load_len [OF _ m(1)]] m(2) by (auto simp: initial_def)
  then obtain c where r2: "reach einval K c" "t_pc (thr_of c 0) = Storing K 0"
    using reach.step [OF r1 get_step.translate_ok [of _ 0]] by force
  obtain ts where "unused c 0 (Seg 0) ts"
    using unused_exists by blast
  then obtain d where r3: "reach einval K d" "t_pc (thr_of d 0) = Storing K (Suc 0)"
    using reach.step [OF r2(1) get_step.store_segment [OF r2(2)]] assms by fastforce
  obtain ts' where "unused d 0 Len ts'"
    using unused_exists by blast
  then show ?thesis
    using reach.step [OF r3(1) get_step.store_len [OF r3(2)]] assms by fastforce
qed

theorem get_never_partial_witness:
  "\<exists>c k. reach (Error 22) [5] c \<and> t_pc (thr_of c 0) = Returned (Inr k) \<and> k = [5]"
proof -
  obtain c k where "reach (Error 22) [5] c" "t_pc (thr_of c 0) = Returned (Inr k)"
    using publishing_run [OF refl] by blast
  with get_never_partial [of "Error 22" "[5]" c 0] show ?thesis
    by (auto simp: KEY_SEGS_def)
qed

theorem get_wait_free_witness:
  "reach (Error 22) [5] initial \<and> (\<exists>c'. get_step (Error 22) [5] 0 initial c') \<and> rank initial 0 \<le> 11"
  using get_wait_free [OF reach.start, of "[5]" 0 "Error 22"] reach.start [of "Error 22" "[5]"]
  by (simp add: initial_def KEY_SEGS_def)

end
