(* ===== verification/Flags.thy ===== *)
theory Flags
  imports Rust_Base
begin

text \<open>
  \<^verbatim>\<open>jevmalloc-sys/src/flags.rs\<close>: the flag word of the extended allocation functions. The lemmas show
  that, for an alignment exponent below 64, a thread-cache index below 4094 and an arena index
  below 4095, the combined word determines each of the values it was built from: no value spills
  into the bits of another. The index limits of the arena and thread-cache handles are exactly
  the ones for which this holds.
\<close>

section \<open>Definitions\<close>

text \<open>\<^verbatim>\<open>usize::trailing_zeros\<close>; 64 for zero.\<close>

definition trailing_zeros :: "usize \<Rightarrow> nat" where
  "trailing_zeros x = length (takeWhile (\<lambda>i. \<not> bit x i) [0..<64])"

definition MALLOCX_LG_ALIGN :: "usize \<Rightarrow> c_int" where
  "MALLOCX_LG_ALIGN la = ucast la"

definition MALLOCX_ALIGN :: "usize \<Rightarrow> c_int" where
  "MALLOCX_ALIGN al = of_nat (trailing_zeros al)"

definition MALLOCX_ARENA :: "usize \<Rightarrow> c_int" where
  "MALLOCX_ARENA a = push_bit 20 (ucast a + 1)"

definition MALLOCX_TCACHE :: "usize \<Rightarrow> c_int" where
  "MALLOCX_TCACHE tc = ucast (push_bit 8 (tc + 2))"

definition MALLOCX_TCACHE_NONE :: c_int where
  "MALLOCX_TCACHE_NONE = MALLOCX_TCACHE (- 1)"

definition MALLOCX_ZERO :: c_int where
  "MALLOCX_ZERO = 0x40"

section \<open>Alignment\<close>

lemma unat_ucast_small: "unat (x :: usize) < 2 ^ 32 \<Longrightarrow> unat (ucast x :: c_int) = unat x"
  by (simp add: unsigned_ucast_eq take_bit_nat_eq_self)

lemma takeWhile_upt_first:
  assumes "P k" and "\<And>i. i < k \<Longrightarrow> \<not> P i" and "k < n"
  shows "takeWhile (\<lambda>i. \<not> P i) [0..<n] = [0..<k]"
proof -
  have "[0..<n] = [0..<k] @ k # [Suc k..<n]"
    using assms(3) upt_add_eq_append [of 0 k "n - k"] by (simp add: upt_conv_Cons)
  then show ?thesis
    using assms by (simp add: takeWhile_append)
qed

lemma trailing_zeros_power: "k < 64 \<Longrightarrow> trailing_zeros (2 ^ k) = k"
  unfolding trailing_zeros_def
  by (subst takeWhile_upt_first [where k = k]) (auto simp: bit_exp_iff)

lemma trailing_zeros_le: "trailing_zeros x \<le> 64"
  unfolding trailing_zeros_def using length_takeWhile_le [of _ "[0..<64]"] by simp

lemma MALLOCX_ALIGN_power: "k < 64 \<Longrightarrow> MALLOCX_ALIGN (2 ^ k) = of_nat k"
  by (simp add: MALLOCX_ALIGN_def trailing_zeros_power)

lemma MALLOCX_ALIGN_eq_LG: "k < 64 \<Longrightarrow> MALLOCX_ALIGN (2 ^ k) = MALLOCX_LG_ALIGN (of_nat k)"
  by (simp add: MALLOCX_ALIGN_power MALLOCX_LG_ALIGN_def word_unat_eq_iff unat_ucast_small unat_of_nat)

section \<open>Fields of the word\<close>

text \<open>The bits from position \<open>l\<close> on, \<open>n\<close> of them.\<close>

definition field :: "nat \<Rightarrow> nat \<Rightarrow> c_int \<Rightarrow> c_int" where
  "field l n w = take_bit n (drop_bit l w)"

lemma field_OR [simp]: "field l n (v OR w) = field l n v OR field l n w"
  by (simp add: field_def)

lemma field_0 [simp]: "field l n 0 = 0"
  by (simp add: field_def)

lemma bit_field_iff: "bit (field l n w) i \<longleftrightarrow> i < n \<and> bit w (l + i)"
  by (simp add: field_def bit_take_bit_iff bit_drop_bit_eq)

lemma small_bits: "unat (x :: 'a::len word) < 2 ^ n \<Longrightarrow> bit x i \<Longrightarrow> i < n"
proof (rule ccontr)
  assume u: "unat x < 2 ^ n" and "bit x i" and "\<not> i < n"
  then have "take_bit n (unat x) = unat x"
    by (simp add: take_bit_nat_eq_self)
  then have "\<not> bit (unat x) i"
    using \<open>\<not> i < n\<close> by (metis bit_take_bit_iff)
  with \<open>bit x i\<close> show False
    by (simp add: bit_unsigned_iff bit_imp_le_length)
qed

text \<open>A small value shifted to position \<open>k\<close> occupies only the field there.\<close>

lemma field_push_same:
  "unat x < 2 ^ n \<Longrightarrow> k + n \<le> 32 \<Longrightarrow> field k n (push_bit k x) = x"
  by (rule bit_word_eqI) (auto simp: bit_field_iff bit_push_bit_iff dest: small_bits)

lemma field_push_above: "l + n \<le> k \<Longrightarrow> field l n (push_bit k x) = 0"
  by (rule bit_word_eqI) (simp add: bit_field_iff bit_push_bit_iff)

lemma field_push_below: "unat x < 2 ^ j \<Longrightarrow> k + j \<le> l \<Longrightarrow> field l n (push_bit k x) = 0"
  by (rule bit_word_eqI) (auto simp: bit_field_iff bit_push_bit_iff dest!: small_bits)

lemmas field_small = field_push_above field_push_below [where k = 0, simplified]
  field_push_same [where k = 0, simplified]

lemma MALLOCX_ARENA_shift:
  assumes "unat a < 4095"
  shows "\<exists>x. MALLOCX_ARENA a = push_bit 20 x \<and> unat x = unat a + 1"
proof -
  have "unat (ucast a + 1 :: c_int) = unat a + 1"
    using assms unat_ucast_small [of a] by (simp add: unat_word_ariths)
  then show ?thesis
    by (auto simp: MALLOCX_ARENA_def)
qed

lemma ucast_push_bit: "(ucast (push_bit n (x :: usize)) :: c_int) = push_bit n (ucast x)"
  by (rule bit_word_eqI) (auto simp: bit_push_bit_iff bit_ucast_iff bit_imp_le_length)

lemma MALLOCX_TCACHE_shift:
  assumes "unat tc < 4094"
  shows "\<exists>x. MALLOCX_TCACHE tc = push_bit 8 x \<and> unat x = unat tc + 2"
proof -
  have "unat (tc + 2) = unat tc + 2"
    using assms by (simp add: unat_word_ariths)
  then have "unat (ucast (tc + 2) :: c_int) = unat tc + 2"
    using assms unat_ucast_small [of "tc + 2"] by simp
  then show ?thesis
    by (auto simp: MALLOCX_TCACHE_def ucast_push_bit)
qed

lemma MALLOCX_TCACHE_NONE_shift: "MALLOCX_TCACHE_NONE = push_bit 8 1"
  by (simp add: MALLOCX_TCACHE_NONE_def MALLOCX_TCACHE_def)

lemma MALLOCX_ZERO_shift: "MALLOCX_ZERO = push_bit 6 1"
  by (simp add: MALLOCX_ZERO_def)

lemma MALLOCX_LG_ALIGN_small:
  "unat la < 64 \<Longrightarrow> unat (MALLOCX_LG_ALIGN la) = unat la"
  by (simp add: MALLOCX_LG_ALIGN_def unat_ucast_small)

text \<open>The word of all four choices: exponent, zeroing, cache selection, arena.\<close>

datatype tcache_sel = Automatic | No_tcache | Tcache usize

fun tcache_flag :: "tcache_sel \<Rightarrow> c_int" where
  "tcache_flag Automatic = 0"
| "tcache_flag No_tcache = MALLOCX_TCACHE_NONE"
| "tcache_flag (Tcache tc) = MALLOCX_TCACHE tc"

fun tcache_sel_ok :: "tcache_sel \<Rightarrow> bool" where
  "tcache_sel_ok (Tcache tc) \<longleftrightarrow> unat tc < 4094"
| "tcache_sel_ok _ \<longleftrightarrow> True"

definition flag_word :: "usize \<Rightarrow> bool \<Rightarrow> tcache_sel \<Rightarrow> usize option \<Rightarrow> c_int" where
  "flag_word la z t a = MALLOCX_LG_ALIGN la OR (if z then MALLOCX_ZERO else 0) OR tcache_flag t OR
     (case a of None \<Rightarrow> 0 | Some i \<Rightarrow> MALLOCX_ARENA i)"

lemma tcache_flag_shift:
  "tcache_sel_ok t \<Longrightarrow> \<exists>x. tcache_flag t = push_bit 8 x \<and> unat x < 2 ^ 12 \<and>
     unat x = (case t of Automatic \<Rightarrow> 0 | No_tcache \<Rightarrow> 1 | Tcache tc \<Rightarrow> unat tc + 2)"
proof (cases t)
  case Automatic
  then show ?thesis by (auto intro: exI [of _ 0])
next
  case No_tcache
  then show ?thesis by (auto simp: MALLOCX_TCACHE_NONE_shift intro!: exI [of _ 1])
next
  case (Tcache tc)
  moreover assume "tcache_sel_ok t"
  ultimately show ?thesis using MALLOCX_TCACHE_shift [of tc] by auto
qed

lemma arena_flag_shift:
  "pred_option (\<lambda>i. unat i < 4095) a \<Longrightarrow>
   \<exists>x. (case a of None \<Rightarrow> 0 | Some i \<Rightarrow> MALLOCX_ARENA i) = push_bit 20 x \<and> unat x < 2 ^ 12 \<and>
     unat x = (case a of None \<Rightarrow> 0 | Some i \<Rightarrow> unat i + 1)"
proof (cases a)
  case None
  then show ?thesis by (auto intro: exI [of _ 0])
next
  case (Some i)
  moreover assume "pred_option (\<lambda>i. unat i < 4095) a"
  ultimately show ?thesis using MALLOCX_ARENA_shift [of i] by auto
qed

text \<open>Each field of the combined word is the value it was built from.\<close>

lemma flag_word_fields:
  assumes "unat la < 64" and "tcache_sel_ok t" and "pred_option (\<lambda>i. unat i < 4095) a"
  shows "unat (field 0 6 (flag_word la z t a)) = unat la"
    and "field 6 1 (flag_word la z t a) = (if z then 1 else 0)"
    and "unat (field 8 12 (flag_word la z t a)) =
           (case t of Automatic \<Rightarrow> 0 | No_tcache \<Rightarrow> 1 | Tcache tc \<Rightarrow> unat tc + 2)"
    and "unat (field 20 12 (flag_word la z t a)) = (case a of None \<Rightarrow> 0 | Some i \<Rightarrow> unat i + 1)"
proof -
  obtain x where x: "tcache_flag t = push_bit 8 x" "unat x < 2 ^ 12"
    "unat x = (case t of Automatic \<Rightarrow> 0 | No_tcache \<Rightarrow> 1 | Tcache tc \<Rightarrow> unat tc + 2)"
    using tcache_flag_shift [OF assms(2)] by blast
  obtain y where y: "(case a of None \<Rightarrow> 0 | Some i \<Rightarrow> MALLOCX_ARENA i) = push_bit 20 y"
    "unat y < 2 ^ 12" "unat y = (case a of None \<Rightarrow> 0 | Some i \<Rightarrow> unat i + 1)"
    using arena_flag_shift [of a] assms(3) by blast
  have z: "(if z then MALLOCX_ZERO else 0) = push_bit 6 (of_bool z)"
    by (simp add: MALLOCX_ZERO_shift)
  have bz: "unat (of_bool z :: c_int) < 2 ^ 1" by simp
  have la: "unat (MALLOCX_LG_ALIGN la) < 2 ^ 6" "unat (MALLOCX_LG_ALIGN la) = unat la"
    using assms(1) by (simp_all add: MALLOCX_LG_ALIGN_small)
  note w = flag_word_def x(1) y(1) z
  show "unat (field 0 6 (flag_word la z t a)) = unat la"
    unfolding w using la by (simp add: field_small)
  show "field 6 1 (flag_word la z t a) = (if z then 1 else 0)"
    unfolding w using la bz
    by (simp add: field_small field_push_same field_push_below [where j = 6 and k = 0, simplified])
  show "unat (field 8 12 (flag_word la z t a)) =
      (case t of Automatic \<Rightarrow> 0 | No_tcache \<Rightarrow> 1 | Tcache tc \<Rightarrow> unat tc + 2)"
    unfolding w using la bz x(2)
    by (simp add: field_small field_push_same field_push_below [where j = 6 and k = 0, simplified]
        field_push_below [where j = 1 and k = 6] x(3) [symmetric])
  show "unat (field 20 12 (flag_word la z t a)) = (case a of None \<Rightarrow> 0 | Some i \<Rightarrow> unat i + 1)"
    unfolding w using la bz x(2) y(2)
    by (simp add: field_push_same field_push_below [where j = 6 and k = 0, simplified]
        field_push_below [where j = 1 and k = 6] field_push_below [where j = 12 and k = 8]
        y(3) [symmetric])
qed

section \<open>Properties\<close>

text \<open>
  C4. The flag word determines every choice it combines: for alignment exponents below 64,
  thread-cache indices below 4094 and arena indices below 4095, two combinations of alignment,
  zeroing, cache selection and arena that give the same word are the same combination.
\<close>

theorem flag_word_inj:
  assumes "unat la < 64" and "tcache_sel_ok t" and "pred_option (\<lambda>i. unat i < 4095) a"
    and "unat la' < 64" and "tcache_sel_ok t'" and "pred_option (\<lambda>i. unat i < 4095) a'"
    and "flag_word la z t a = flag_word la' z' t' a'"
  shows "la = la' \<and> z = z' \<and> t = t' \<and> a = a'"
proof -
  note f = flag_word_fields [OF assms(1-3), where z = z, unfolded assms(7)] and f' = flag_word_fields [OF assms(4-6), where z = z']
  have "la = la'"
    using f(1) f'(1) by (simp add: word_unat_eq_iff)
  moreover have "z = z'"
    using f(2) f'(2) by (auto split: if_splits)
  moreover have "t = t'"
    using f(3) f'(3) by (cases t; cases t') (auto simp: word_unat_eq_iff)
  moreover have "a = a'"
    using f(4) f'(4) by (cases a; cases a') (auto simp: word_unat_eq_iff)
  ultimately show ?thesis by simp
qed

theorem flag_word_inj_witness:
  "flag_word 12 True (Tcache 4093) (Some 4094) = 0xFFFFFF4C \<and> (12::usize) = 12"
proof -
  have w: "flag_word 12 True (Tcache 4093) (Some 4094) = 0xFFFFFF4C"
    by (simp add: flag_word_def MALLOCX_LG_ALIGN_def MALLOCX_ZERO_def MALLOCX_TCACHE_def MALLOCX_ARENA_def)
  with flag_word_inj [of 12 "Tcache 4093" "Some 4094" 12 "Tcache 4093" "Some 4094" True True]
  show ?thesis by simp
qed

end
