(* ===== verification/Layout.thy ===== *)
theory Layout
  imports Ffi Flags
begin

text \<open>
  \<^verbatim>\<open>jevmalloc/src/global/layout.rs\<close>: normalisation of allocation layouts and the choice of the flag
  word. The quantum is the sixteen bytes of the 64-bit targets. The lemmas show that normalisation
  of a valid nonzero layout is defined, keeps it valid and keeps its alignment, and that the flag
  word together with the size still determines the alignment the block gets.
\<close>

section \<open>Layouts\<close>

text \<open>\<^verbatim>\<open>core::alloc::Layout\<close>.\<close>

record layout =
  lsize :: usize
  lalign :: usize

definition is_power_of_two :: "usize \<Rightarrow> bool" where
  "is_power_of_two x \<longleftrightarrow> (\<exists>k < 64. x = 2 ^ k)"

text \<open>The alignment is a power of two and the size, rounded up to it, is at most \<^verbatim>\<open>isize::MAX\<close>.\<close>

definition valid_layout :: "layout \<Rightarrow> bool" where
  "valid_layout l \<longleftrightarrow> is_power_of_two (lalign l) \<and> unat (lsize l) + unat (lalign l) \<le> 2 ^ 63"

text \<open>\<^verbatim>\<open>Layout::from_size_align_unchecked\<close> is undefined on an invalid pair.\<close>

definition from_size_align_unchecked :: "usize \<Rightarrow> usize \<Rightarrow> ('p, layout) comp" where
  "from_size_align_unchecked sz al =
    (let l = \<lparr>lsize = sz, lalign = al\<rparr> in if valid_layout l then ret l else undef)"

section \<open>Operations\<close>

definition QUANTUM :: usize where
  "QUANTUM = 16"

definition adjust_layout :: "layout \<Rightarrow> ('p, layout) comp" where
  "adjust_layout l =
     run_then (assert_unchecked (0 < lsize l)) (\<lambda>_.
     from_size_align_unchecked (max (lsize l) QUANTUM) (lalign l))"

definition layout_flags :: "layout \<Rightarrow> c_int" where
  "layout_flags l =
    (if lalign l \<le> QUANTUM \<and> lalign l \<le> lsize l then 0 else MALLOCX_ALIGN (lalign l))"

definition usable_size :: "'s ffi \<Rightarrow> usize \<Rightarrow> ('s process, usize) comp" where
  "usable_size F ptr = (if ptr = 0 then ret 0 else sallocx F ptr 0)"

section \<open>Normalisation\<close>

text \<open>The layout \<^verbatim>\<open>adjust_layout\<close> arrives at.\<close>

definition normal :: "layout \<Rightarrow> layout" where
  "normal l = l\<lparr>lsize := max (lsize l) QUANTUM\<rparr>"

lemma normal_simps [simp]:
  "lalign (normal l) = lalign l" "lsize (normal l) = max (lsize l) QUANTUM"
  by (simp_all add: normal_def)

lemma unat_power_two: "k < 64 \<Longrightarrow> unat (2 ^ k :: usize) = 2 ^ k"
proof -
  assume "k < 64"
  then have "(2::nat) ^ k < 2 ^ 64" by (intro power_strict_increasing) auto
  then have "unat (of_nat (2 ^ k) :: usize) = 2 ^ k"
    unfolding unat_of_nat by (subst mod_less) simp_all
  then show ?thesis by simp
qed

lemma is_power_of_two_iff: "is_power_of_two x \<longleftrightarrow> (\<exists>k < 64. unat x = 2 ^ k)"
proof -
  have "x = 2 ^ k \<longleftrightarrow> unat x = 2 ^ k" if "k < 64" for k
    using unat_power_two [OF that] by (metis word_unat_eq_iff)
  then show ?thesis
    unfolding is_power_of_two_def by auto
qed

lemma QUANTUM_unat [simp]: "unat QUANTUM = 16"
  by (simp add: QUANTUM_def)

lemma unat_max: "unat (max a b :: usize) = max (unat a) (unat b)"
  by (simp add: max_def word_le_nat_alt)

lemma valid_layout_normal:
  assumes "valid_layout l" and "0 < lsize l"
  shows "valid_layout (normal l)"
proof -
  from assms(1) obtain k where k: "unat (lalign l) = 2 ^ k" "unat (lsize l) + 2 ^ k \<le> 2 ^ 63"
    by (auto simp: valid_layout_def is_power_of_two_iff)
  have pos: "0 < unat (lsize l)"
    using assms(2) by (simp add: word_less_nat_alt)
  with k have "(2::nat) ^ k < 2 ^ 63" by linarith
  then have "k < 63" by (simp add: power_strict_increasing_iff del: power_numeral)
  then have "(2::nat) ^ k \<le> 2 ^ 62" by (intro power_increasing) auto
  with k assms(1) show ?thesis
    by (auto simp: valid_layout_def unat_max max_def)
qed

lemma adjust_layout_valid:
  assumes "valid_layout l" and "0 < lsize l"
  shows "adjust_layout l = ret (normal l)"
  using assms valid_layout_normal [OF assms]
  by (cases l) (simp add: adjust_layout_def from_size_align_unchecked_def normal_def)

lemma normal_normal [simp]: "normal (normal l) = normal l"
  by (simp add: normal_def)

section \<open>Flags\<close>

lemma MALLOCX_ALIGN_unat:
  assumes "is_power_of_two al"
  shows "unat (MALLOCX_ALIGN al) < 64" and "unat al = 2 ^ unat (MALLOCX_ALIGN al)"
proof -
  obtain k where k: "k < 64" "al = 2 ^ k" "unat al = 2 ^ k"
    using assms unat_power_two unfolding is_power_of_two_def by blast
  then have "unat (MALLOCX_ALIGN al) = k"
    by (simp add: MALLOCX_ALIGN_power unat_of_nat)
  with k show "unat (MALLOCX_ALIGN al) < 64" "unat al = 2 ^ unat (MALLOCX_ALIGN al)" by simp_all
qed

text \<open>
  The alignment a request gets: the explicit exponent of the flag word, and the quantum for a
  request of at least that size.
\<close>

definition granted_align :: "usize \<Rightarrow> c_int \<Rightarrow> nat" where
  "granted_align sz flags = max (2 ^ unat (field 0 6 flags)) (if QUANTUM \<le> sz then 16 else 1)"

lemma field_low_small: "unat (w :: c_int) < 64 \<Longrightarrow> field 0 6 w = w"
  using field_small(3) [of w 6] by simp

lemma field_low_zero_flag: "unat (w :: c_int) < 64 \<Longrightarrow> field 0 6 (w OR MALLOCX_ZERO) = w"
proof -
  have "field 0 6 MALLOCX_ZERO = 0"
    unfolding MALLOCX_ZERO_shift by (rule field_push_above) simp
  then show "unat w < 64 \<Longrightarrow> field 0 6 (w OR MALLOCX_ZERO) = w"
    by (simp add: field_low_small)
qed

lemma layout_flags_unat: "is_power_of_two (lalign l) \<Longrightarrow> unat (layout_flags l) < 64"
  by (simp add: layout_flags_def MALLOCX_ALIGN_unat)

text \<open>Omitting the alignment bits never weakens the alignment of a normalised request.\<close>

lemma power_two_le_dvd: "m = 2 ^ i \<Longrightarrow> n = 2 ^ j \<Longrightarrow> m \<le> n \<Longrightarrow> m dvd (n :: nat)"
  by (simp add: le_imp_power_dvd power_increasing_iff)

lemma layout_flags_grants:
  assumes "is_power_of_two (lalign l)" and "field 0 6 w = field 0 6 (layout_flags (normal l))"
  shows "unat (lalign l) dvd granted_align (lsize (normal l)) w"
proof -
  obtain k where k: "unat (lalign l) = 2 ^ k"
    using assms(1) by (auto simp: is_power_of_two_iff)
  have low: "field 0 6 w = layout_flags (normal l)"
    using assms layout_flags_unat [of "normal l"] by (simp add: field_low_small)
  have g: "\<exists>j. granted_align (lsize (normal l)) w = 2 ^ j"
  proof -
    have "max (2 ^ a) 16 = (2 :: nat) ^ max a 4" for a
      using power_increasing_iff [of "2 :: nat" a 4] by (auto simp: max_def)
    then show ?thesis by (auto simp: granted_align_def)
  qed
  have "unat (lalign l) \<le> granted_align (lsize (normal l)) w"
    using low MALLOCX_ALIGN_unat(2) [OF assms(1)]
    by (auto simp: granted_align_def layout_flags_def word_le_nat_alt unat_max split: if_splits)
  with k g show ?thesis
    by (auto intro: power_two_le_dvd)
qed

section \<open>Properties\<close>

text \<open>
  C5. Normalising a valid layout of nonzero size is defined and yields a valid layout of the same
  alignment, its size raised to the quantum. The flag word is zero only when the alignment is at most
  the quantum and at most the size; otherwise it is the exponent of the alignment.
\<close>

theorem layout_normalisation:
  assumes "valid_layout l" and "0 < lsize l"
  shows "\<exists>l'. adjust_layout l = ret l' \<and> valid_layout l' \<and> lalign l' = lalign l \<and>
    unat (lsize l') = max (unat (lsize l)) 16 \<and>
    (if layout_flags l' = 0 then unat (lalign l) \<le> 16 \<and> lalign l \<le> lsize l'
     else unat (lalign l) = 2 ^ unat (layout_flags l'))"
proof -
  have p: "is_power_of_two (lalign l)" using assms(1) by (simp add: valid_layout_def)
  have "unat (lalign l) \<le> 16 \<and> lalign l \<le> lsize (normal l)" if "layout_flags (normal l) = 0"
  proof -
    have "lalign l = 1" if "MALLOCX_ALIGN (lalign l) = 0"
      using MALLOCX_ALIGN_unat(2) [OF p] that by (simp add: word_unat_eq_iff)
    with that show ?thesis
      using assms(2) by (auto simp: layout_flags_def word_le_nat_alt word_less_nat_alt unat_max split: if_splits)
  qed
  moreover have "unat (lalign l) = 2 ^ unat (layout_flags (normal l))" if "layout_flags (normal l) \<noteq> 0"
    using that MALLOCX_ALIGN_unat(2) [OF p] by (auto simp: layout_flags_def split: if_splits)
  ultimately show ?thesis
    using adjust_layout_valid [OF assms] valid_layout_normal [OF assms]
    by (intro exI [of _ "normal l"]) (simp add: unat_max)
qed

theorem layout_normalisation_witness:
  "\<exists>l'. adjust_layout \<lparr>lsize = 5, lalign = 64\<rparr> = (ret l' :: (unit, layout) comp) \<and> valid_layout l' \<and> unat (lsize l') = 16 \<and>
     layout_flags l' = 6"
proof -
  have v: "valid_layout \<lparr>lsize = 5, lalign = 64\<rparr>" "0 < lsize \<lparr>lsize = 5, lalign = 64\<rparr>"
    by (auto simp: valid_layout_def is_power_of_two_iff intro: exI [of _ 6])
  have "layout_flags \<lparr>lsize = 16, lalign = 64\<rparr> = 6"
    by code_simp
  moreover obtain l' where l': "adjust_layout \<lparr>lsize = 5, lalign = 64\<rparr> = (ret l' :: (unit, layout) comp)" "valid_layout l'"
      "lalign l' = 64" "unat (lsize l') = 16"
    using layout_normalisation [OF v] by auto
  moreover from this(4) have "lsize l' = 16" by (simp add: word_unat_eq_iff)
  ultimately show ?thesis
    by (intro exI [of _ l']) (cases l', simp)
qed

end
