(* ===== verification/Global.thy ===== *)
theory Global
  imports Layout
begin

text \<open>
  \<^verbatim>\<open>jevmalloc/src/global.rs\<close> and \<^verbatim>\<open>global/hook.rs\<close>: the \<^verbatim>\<open>GlobalAlloc\<close> implementation. The observation
  hooks are application code: the slots are a record of optional computations, consulted only
  when the \<open>global_hooks\<close> feature is on.

  The extended allocation functions of the C library are parameters; what is documented of them
  is the hypothesis \<open>heap_ok\<close>, over a description of the library's heap (its invariant, the live
  blocks and the size computation). The refinement shows that every entry point implements the
  contract of a Rust global allocator: it is defined, fails with null and no effect, or yields a
  block of the requested size and alignment disjoint from all others; a reallocation keeps the
  contents; and the size and flags handed to the sized deallocation are those of the block. A program
  also asks for usable sizes (\<^verbatim>\<open>global/layout.rs\<close>) and reads and writes the bytes of its blocks, which nothing
  else changes.
\<close>

section \<open>Operations\<close>

record 's hooks =
  hook_ALLOC :: "(layout \<Rightarrow> ('s process, unit) comp) option"
  hook_ALLOC_ZEROED :: "(layout \<Rightarrow> ('s process, unit) comp) option"
  hook_REALLOC :: "(layout \<Rightarrow> usize \<Rightarrow> usize \<Rightarrow> ('s process, unit) comp) option"
  hook_DEALLOC :: "(layout \<Rightarrow> usize \<Rightarrow> ('s process, unit) comp) option"

definition run_hook :: "'s ffi \<Rightarrow> 'h option \<Rightarrow> ('h \<Rightarrow> ('s process, unit) comp) \<Rightarrow> ('s process, unit) comp" where
  "run_hook F slot call =
    (if global_hooks F then (case slot of None \<Rightarrow> ret () | Some h \<Rightarrow> call h) else ret ())"

text \<open>\<^verbatim>\<open>debug_assert!\<close> evaluates its condition only when debug assertions are compiled in.\<close>

definition debug_assert :: "'s ffi \<Rightarrow> ('s process, bool) comp \<Rightarrow> ('s process, unit) comp" where
  "debug_assert F cond = (if debug_assertions F then run_then cond rust_assert else ret ())"

definition debug_validate :: "'s ffi \<Rightarrow> usize \<Rightarrow> layout \<Rightarrow> c_int \<Rightarrow> ('s process, unit) comp" where
  "debug_validate F ptr l flags =
    (if ptr = 0 then ret ()
     else run_then (debug_assert F (run_then (nallocx F (lsize l) flags) (\<lambda>n. ret (lsize l \<le> n)))) (\<lambda>_.
          run_then (debug_assert F (ret (ptr mod lalign l = 0))) (\<lambda>_.
          debug_assert F (run_then (sallocx F ptr flags) (\<lambda>n. ret (lsize l \<le> n))))))"

definition alloc :: "'s ffi \<Rightarrow> 's hooks \<Rightarrow> layout \<Rightarrow> ('s process, usize) comp" where
  "alloc F K l0 =
     run_then (run_hook F (hook_ALLOC K) (\<lambda>h. h l0)) (\<lambda>_.
     run_then (adjust_layout l0) (\<lambda>l.
     let flags = layout_flags l in
     run_then (mallocx F (lsize l) flags) (\<lambda>ptr.
     run_then (debug_validate F ptr l flags) (\<lambda>_.
     ret ptr))))"

definition alloc_zeroed :: "'s ffi \<Rightarrow> 's hooks \<Rightarrow> layout \<Rightarrow> ('s process, usize) comp" where
  "alloc_zeroed F K l0 =
     run_then (run_hook F (hook_ALLOC_ZEROED K) (\<lambda>h. h l0)) (\<lambda>_.
     run_then (adjust_layout l0) (\<lambda>l.
     let flags = layout_flags l OR MALLOCX_ZERO in
     run_then (mallocx F (lsize l) flags) (\<lambda>ptr.
     run_then (debug_validate F ptr l flags) (\<lambda>_.
     ret ptr))))"

definition realloc :: "'s ffi \<Rightarrow> 's hooks \<Rightarrow> usize \<Rightarrow> layout \<Rightarrow> usize \<Rightarrow> ('s process, usize) comp" where
  "realloc F K ptr0 l0 new_size =
     run_then (run_hook F (hook_REALLOC K) (\<lambda>h. h l0 ptr0 new_size)) (\<lambda>_.
     run_then (from_size_align_unchecked new_size (lalign l0)) (\<lambda>l1.
     run_then (adjust_layout l1) (\<lambda>l.
     let flags = layout_flags l in
     run_then (rallocx F ptr0 (lsize l) flags) (\<lambda>ptr.
     run_then (debug_validate F ptr l flags) (\<lambda>_.
     ret ptr)))))"

definition dealloc :: "'s ffi \<Rightarrow> 's hooks \<Rightarrow> usize \<Rightarrow> layout \<Rightarrow> ('s process, unit) comp" where
  "dealloc F K ptr l0 =
     run_then (run_hook F (hook_DEALLOC K) (\<lambda>h. h l0 ptr)) (\<lambda>_.
     run_then (assert_unchecked (ptr \<noteq> 0)) (\<lambda>_.
     run_then (adjust_layout l0) (\<lambda>l.
     let flags = layout_flags l in
     run_then (debug_validate F ptr l flags) (\<lambda>_.
     sdallocx F ptr (lsize l) flags))))"

section \<open>What is documented of the library's heap\<close>

text \<open>
  A description of the library's heap: an invariant of its state, the addresses of its live
  blocks, and the size computation of a request, zero when it is rejected. The bytes of a live
  block are those of the machine at its address.
\<close>

record 's heap =
  hinv :: "'s machine \<Rightarrow> bool"
  hlive :: "'s machine \<Rightarrow> usize set"
  hcls :: "usize \<Rightarrow> c_int \<Rightarrow> usize"

definition block :: "'s machine \<Rightarrow> usize \<Rightarrow> byte list" where
  "block m a = (case bytes_at m a of None \<Rightarrow> [] | Some bs \<Rightarrow> bs)"

definition apart :: "'s machine \<Rightarrow> usize \<Rightarrow> usize \<Rightarrow> bool" where
  "apart m a b \<longleftrightarrow> unat a + length (block m a) \<le> unat b \<or> unat b + length (block m b) \<le> unat a"

definition real_size :: "'s heap \<Rightarrow> usize \<Rightarrow> c_int \<Rightarrow> usize" where
  "real_size H sz flags = hcls H sz (field 0 6 flags)"

definition keeps :: "usize set \<Rightarrow> 's machine \<Rightarrow> 's machine \<Rightarrow> bool" where
  "keeps S m m' \<longleftrightarrow> (\<forall>a \<in> S. block m' a = block m a)"

text \<open>A block the library hands out for a request.\<close>

definition served :: "'s heap \<Rightarrow> usize \<Rightarrow> c_int \<Rightarrow> usize \<Rightarrow> 's machine \<Rightarrow> bool" where
  "served H sz flags p m \<longleftrightarrow> real_size H sz flags \<noteq> 0 \<and>
     length (block m p) = unat (real_size H sz flags) \<and> granted_align sz flags dvd unat p"

definition heap_inv_ok :: "'s heap \<Rightarrow> bool" where
  "heap_inv_ok H \<longleftrightarrow> (\<forall>m. hinv H m \<longrightarrow> 0 \<notin> hlive H m \<and>
     (\<forall>a \<in> hlive H m. \<forall>b \<in> hlive H m. a \<noteq> b \<longrightarrow> apart m a b))"

text \<open>The size queries change nothing; an accepted request gets at least its size.\<close>

definition queries_ok :: "'s ffi \<Rightarrow> 's heap \<Rightarrow> bool" where
  "queries_ok F H \<longleftrightarrow> (\<forall>m sz flags. hinv H m \<longrightarrow>
     (0 < sz \<longrightarrow> c_nallocx F sz flags m = (Done (real_size H sz flags), m) \<and>
        (real_size H sz flags = 0 \<or> sz \<le> real_size H sz flags)) \<and>
     (\<forall>a \<in> hlive H m. c_sallocx F a flags m = (Done (of_nat (length (block m a))), m)))"

definition mallocx_ok :: "'s ffi \<Rightarrow> 's heap \<Rightarrow> bool" where
  "mallocx_ok F H \<longleftrightarrow> (\<forall>m sz flags. hinv H m \<longrightarrow> 0 < sz \<longrightarrow>
     (\<exists>p m'. c_mallocx F sz flags m = (Done p, m') \<and> hinv H m' \<and> keeps (hlive H m) m m' \<and>
        (if p = 0 then hlive H m' = hlive H m
         else p \<notin> hlive H m \<and> hlive H m' = insert p (hlive H m) \<and> served H sz flags p m' \<and>
           (bit flags 6 \<longrightarrow> take (unat sz) (block m' p) = replicate (unat sz) 0))))"

definition rallocx_ok :: "'s ffi \<Rightarrow> 's heap \<Rightarrow> bool" where
  "rallocx_ok F H \<longleftrightarrow> (\<forall>m a sz flags. hinv H m \<longrightarrow> a \<in> hlive H m \<longrightarrow> 0 < sz \<longrightarrow>
     (\<exists>p m'. c_rallocx F a sz flags m = (Done p, m') \<and> hinv H m' \<and>
        (if p = 0 then hlive H m' = hlive H m \<and> keeps (hlive H m) m m'
         else p \<notin> hlive H m - {a} \<and> hlive H m' = insert p (hlive H m - {a}) \<and>
           keeps (hlive H m - {a}) m m' \<and> served H sz flags p m' \<and>
           (let n = min (unat sz) (length (block m a)) in take n (block m' p) = take n (block m a)))))"

text \<open>The sized deallocation is only described when size and alignment lead to the block's size.\<close>

definition sdallocx_ok :: "'s ffi \<Rightarrow> 's heap \<Rightarrow> bool" where
  "sdallocx_ok F H \<longleftrightarrow> (\<forall>m a sz flags. hinv H m \<longrightarrow> a \<in> hlive H m \<longrightarrow> 0 < sz \<longrightarrow>
     unat (real_size H sz flags) = length (block m a) \<longrightarrow>
     (\<exists>m'. c_sdallocx F a sz flags m = (Done (), m') \<and> hinv H m' \<and>
        hlive H m' = hlive H m - {a} \<and> keeps (hlive H m - {a}) m m'))"

text \<open>The contents of a live block are the program's: the library does not rely on them.\<close>

definition put_block :: "usize \<Rightarrow> byte list \<Rightarrow> 's machine \<Rightarrow> 's machine" where
  "put_block a bs m = m\<lparr>bytes_at := (bytes_at m)(a \<mapsto> bs)\<rparr>"

definition stores_ok :: "'s heap \<Rightarrow> bool" where
  "stores_ok H \<longleftrightarrow> (\<forall>m a bs. hinv H m \<longrightarrow> a \<in> hlive H m \<longrightarrow> length bs = length (block m a) \<longrightarrow>
     hinv H (put_block a bs m) \<and> hlive H (put_block a bs m) = hlive H m)"

definition heap_ok :: "'s ffi \<Rightarrow> 's heap \<Rightarrow> bool" where
  "heap_ok F H \<longleftrightarrow> heap_inv_ok H \<and> queries_ok F H \<and> mallocx_ok F H \<and> rallocx_ok F H \<and> sdallocx_ok F H \<and> stores_ok H"

section \<open>The contract of a global allocator\<close>

text \<open>
  The abstract state: the blocks the program holds, with their layouts and contents. A failing
  request answers null and changes nothing. Besides the four entry points a program asks for the usable
  size of a block and reads and writes the bytes of its blocks.
\<close>

type_synonym held = "usize \<Rightarrow> (layout \<times> byte list) option"

datatype request =
    Alloc layout
  | Alloc_zeroed layout
  | Realloc usize layout usize
  | Dealloc usize layout
  | Usable usize
  | Load usize nat
  | Store usize nat byte

text \<open>What the caller must uphold.\<close>

fun request_ok :: "held \<Rightarrow> request \<Rightarrow> bool" where
  "request_ok A (Alloc l) \<longleftrightarrow> valid_layout l \<and> 0 < lsize l"
| "request_ok A (Alloc_zeroed l) \<longleftrightarrow> valid_layout l \<and> 0 < lsize l"
| "request_ok A (Realloc p l n) \<longleftrightarrow> map_option fst (A p) = Some l \<and> 0 < n \<and> valid_layout (l\<lparr>lsize := n\<rparr>)"
| "request_ok A (Dealloc p l) \<longleftrightarrow> map_option fst (A p) = Some l"
| "request_ok A (Usable p) \<longleftrightarrow> p = 0 \<or> A p \<noteq> None"
| "request_ok A (Load p i) \<longleftrightarrow> (case A p of None \<Rightarrow> False | Some (l, bs) \<Rightarrow> i < length bs)"
| "request_ok A (Store p i b) \<longleftrightarrow> (case A p of None \<Rightarrow> False | Some (l, bs) \<Rightarrow> i < length bs)"

text \<open>A block that may be handed out: not null, aligned, of the requested size, apart from the others.\<close>

definition new_block :: "held \<Rightarrow> layout \<Rightarrow> usize \<Rightarrow> byte list \<Rightarrow> bool" where
  "new_block A l p bs \<longleftrightarrow> p \<noteq> 0 \<and> unat (lalign l) dvd unat p \<and> length bs = unat (lsize l) \<and> A p = None \<and>
     (\<forall>q k cs. A q = Some (k, cs) \<longrightarrow> unat p + length bs \<le> unat q \<or> unat q + length cs \<le> unat p)"

inductive grants :: "request \<Rightarrow> held \<Rightarrow> usize \<Rightarrow> held \<Rightarrow> bool" where
  alloc_null: "grants (Alloc l) A 0 A"
| alloc_some: "new_block A l p bs \<Longrightarrow> grants (Alloc l) A p (A(p \<mapsto> (l, bs)))"
| zeroed_null: "grants (Alloc_zeroed l) A 0 A"
| zeroed_some: "new_block A l p (replicate (unat (lsize l)) 0) \<Longrightarrow>
    grants (Alloc_zeroed l) A p (A(p \<mapsto> (l, replicate (unat (lsize l)) 0)))"
| realloc_null: "grants (Realloc p l n) A 0 A"
| realloc_some: "A p = Some (l, bs) \<Longrightarrow> new_block (A(p := None)) (l\<lparr>lsize := n\<rparr>) q cs \<Longrightarrow>
    take (min (unat (lsize l)) (unat n)) cs = take (min (unat (lsize l)) (unat n)) bs \<Longrightarrow>
    grants (Realloc p l n) A q ((A(p := None))(q \<mapsto> (l\<lparr>lsize := n\<rparr>, cs)))"
| dealloc_done: "grants (Dealloc p l) A 0 (A(p := None))"
| usable_null: "grants (Usable 0) A 0 A"
| usable_some: "A p = Some (l, bs) \<Longrightarrow> lsize l \<le> n \<Longrightarrow> grants (Usable p) A n A"
| load_done: "A p = Some (l, bs) \<Longrightarrow> grants (Load p i) A (ucast (bs ! i)) A"
| store_done: "A p = Some (l, bs) \<Longrightarrow> grants (Store p i b) A 0 (A(p \<mapsto> (l, bs[i := b])))"

inductive_simps grants_Alloc: "grants (Alloc l) A p A'"
inductive_simps grants_Alloc_zeroed: "grants (Alloc_zeroed l) A p A'"
inductive_simps grants_Store: "grants (Store p i b) A r A'"

text \<open>An access outside the block at the address is undefined.\<close>

definition load_byte :: "usize \<Rightarrow> nat \<Rightarrow> ('s process, usize) comp" where
  "load_byte a i = (\<lambda>p. case bytes_at (mach p) a of
     Some bs \<Rightarrow> if i < length bs then (Done (ucast (bs ! i)), p) else (Undef, p)
   | None \<Rightarrow> (Undef, p))"

definition store_byte :: "usize \<Rightarrow> nat \<Rightarrow> byte \<Rightarrow> ('s process, usize) comp" where
  "store_byte a i b = (\<lambda>p. case bytes_at (mach p) a of
     Some bs \<Rightarrow> if i < length bs then (Done 0, p\<lparr>mach := put_block a (bs[i := b]) (mach p)\<rparr>) else (Undef, p)
   | None \<Rightarrow> (Undef, p))"

fun serve :: "'s ffi \<Rightarrow> 's hooks \<Rightarrow> request \<Rightarrow> ('s process, usize) comp" where
  "serve F K (Alloc l) = alloc F K l"
| "serve F K (Alloc_zeroed l) = alloc_zeroed F K l"
| "serve F K (Realloc p l n) = realloc F K p l n"
| "serve F K (Dealloc p l) = run_then (dealloc F K p l) (\<lambda>_. ret 0)"
| "serve F K (Usable p) = usable_size F p"
| "serve F K (Load p i) = load_byte p i"
| "serve F K (Store p i b) = store_byte p i b"

section \<open>Simulation\<close>

definition block_sim :: "'s heap \<Rightarrow> 's machine \<Rightarrow> usize \<Rightarrow> layout \<Rightarrow> byte list \<Rightarrow> bool" where
  "block_sim H m a l bs \<longleftrightarrow> valid_layout l \<and> 0 < lsize l \<and> a \<in> hlive H m \<and>
     served H (lsize (normal l)) (layout_flags (normal l)) a m \<and> bs = take (unat (lsize l)) (block m a)"

definition held_sim :: "'s heap \<Rightarrow> held \<Rightarrow> 's machine \<Rightarrow> bool" where
  "held_sim H A m \<longleftrightarrow> hinv H m \<and> (\<forall>a l bs. A a = Some (l, bs) \<longrightarrow> block_sim H m a l bs)"

abbreviation sim :: "'s heap \<Rightarrow> held \<Rightarrow> 's process \<Rightarrow> bool" where
  "sim H A p \<equiv> held_sim H A (mach p)"

text \<open>The hooks return and leave the blocks of the program alone.\<close>

definition hooks_ok :: "'s heap \<Rightarrow> 's hooks \<Rightarrow> bool" where
  "hooks_ok H K \<longleftrightarrow> (\<forall>A.
     (\<forall>h l. hook_ALLOC K = Some h \<longrightarrow> safe (sim H A) (h l) (\<lambda>_. sim H A)) \<and>
     (\<forall>h l. hook_ALLOC_ZEROED K = Some h \<longrightarrow> safe (sim H A) (h l) (\<lambda>_. sim H A)) \<and>
     (\<forall>h l p n. hook_REALLOC K = Some h \<longrightarrow> safe (sim H A) (h l p n) (\<lambda>_. sim H A)) \<and>
     (\<forall>h l p. hook_DEALLOC K = Some h \<longrightarrow> safe (sim H A) (h l p) (\<lambda>_. sim H A)))"

lemma run_hook_safe:
  "(\<And>h. slot = Some h \<Longrightarrow> safe P (call h) (\<lambda>_. P)) \<Longrightarrow> safe P (run_hook F slot call) (\<lambda>_. P)"
  by (auto simp: run_hook_def safe_ret split: option.splits)

lemma foreign_mach:
  "f (mach p) = (Done x, m) \<Longrightarrow> \<exists>q. foreign c f p = (Done x, q) \<and> mach q = m"
  by (simp add: foreign_def)

lemmas wrapper_defs = mallocx_def rallocx_def sallocx_def sdallocx_def nallocx_def

text \<open>The validation of a block that was served for the layout changes nothing and passes.\<close>

lemma debug_validate_passes:
  assumes ok: "queries_ok F H" and inv: "hinv H (mach p)" and live: "a \<in> hlive H (mach p)"
    and sv: "served H (lsize l) flags a (mach p)" and "0 < lsize l"
    and al: "unat (lalign l) dvd granted_align (lsize l) flags"
  shows "\<exists>q. debug_validate F a l flags p = (Done (), q) \<and> mach q = mach p"
proof -
  have n: "c_nallocx F (lsize l) flags (mach p) = (Done (real_size H (lsize l) flags), mach p)"
    "lsize l \<le> real_size H (lsize l) flags"
    and s: "c_sallocx F a flags (mach p) = (Done (real_size H (lsize l) flags), mach p)"
    using ok inv live sv assms(5) by (auto simp: queries_ok_def served_def)
  have "unat (lalign l) dvd unat a"
    using al sv by (auto simp: served_def intro: dvd_trans)
  then have "a mod lalign l = 0"
    by (simp add: word_unat_eq_iff unat_mod mod_eq_0_iff_dvd)
  with n s show ?thesis
    by (simp add: debug_validate_def debug_assert_def wrapper_defs run_then_def foreign_def)
qed

lemma request_facts:
  assumes "valid_layout l" and "0 < lsize l"
  shows "0 < lsize (normal l)" and "unat (lsize l) \<le> unat (lsize (normal l))"
    and "unat (layout_flags (normal l)) < 64"
    and "field 0 6 w = field 0 6 (layout_flags (normal l)) \<Longrightarrow>
      unat (lalign (normal l)) dvd granted_align (lsize (normal l)) w"
  using assms layout_flags_unat [of "normal l"] layout_flags_grants [of l w]
  by (auto simp: valid_layout_def unat_max word_less_nat_alt)

lemma served_cong: "field 0 6 v = field 0 6 w \<Longrightarrow> served H sz v a m = served H sz w a m"
  by (simp add: served_def real_size_def granted_align_def)

lemma zero_flag_field:
  "valid_layout l \<Longrightarrow> 0 < lsize l \<Longrightarrow>
   field 0 6 (layout_flags (normal l) OR MALLOCX_ZERO) = field 0 6 (layout_flags (normal l))"
  using request_facts(3) [of l] field_low_zero_flag field_low_small by metis

text \<open>What a served block contributes: a held block of the layout.\<close>

lemma served_block:
  assumes "queries_ok F H" and "hinv H m" and "valid_layout l" and "0 < lsize l"
    and "served H (lsize (normal l)) (layout_flags (normal l)) a m"
  shows "unat (lsize l) \<le> length (block m a)" and "unat (lalign l) dvd unat a"
proof -
  have "lsize (normal l) \<le> real_size H (lsize (normal l)) (layout_flags (normal l))"
    using assms(1,2,5) request_facts(1) [OF assms(3,4)]
    by (auto simp: queries_ok_def served_def simp del: normal_simps)
  with request_facts(2) [OF assms(3,4)] show "unat (lsize l) \<le> length (block m a)"
    using assms(5) by (simp add: served_def word_le_nat_alt del: normal_simps)
  show "unat (lalign l) dvd unat a"
    using assms(5) request_facts(4) [OF assms(3,4) refl] by (auto simp: served_def intro: dvd_trans)
qed

lemma held_sim_keeps:
  assumes "held_sim H A m" and "hinv H m'" and "keeps (hlive H m - S) m m'"
    and "hlive H m - S \<subseteq> hlive H m'" and "\<And>a. a \<in> S \<Longrightarrow> A a = None"
  shows "held_sim H A m'"
proof -
  have "block_sim H m' a l bs" if "A a = Some (l, bs)" for a l bs
  proof -
    have b: "block_sim H m a l bs" using assms(1) that by (simp add: held_sim_def)
    have "a \<notin> S" using assms(5) that by force
    with b assms(3,4) have "block m' a = block m a" "a \<in> hlive H m'"
      by (auto simp: keeps_def block_sim_def)
    with b show ?thesis by (simp add: block_sim_def served_def)
  qed
  with assms(2) show ?thesis by (simp add: held_sim_def)
qed

text \<open>
  Handing out a fresh block for a layout: what the library says of the block is what the contract
  asks for, and the simulation extends.
\<close>

lemma held_sim_new:
  assumes ok: "heap_inv_ok H" "queries_ok F H" and sim: "held_sim H A m'"
    and l: "valid_layout l" "0 < lsize l" and p: "p \<in> hlive H m'" "A p = None"
    and sv: "served H (lsize (normal l)) (layout_flags (normal l)) p m'"
  defines "bs \<equiv> take (unat (lsize l)) (block m' p)"
  shows "new_block A l p bs" and "held_sim H (A(p \<mapsto> (l, bs))) m'"
proof -
  have inv: "hinv H m'" using sim by (simp add: held_sim_def)
  note sb = served_block [OF ok(2) inv l sv]
  have len: "length bs = unat (lsize l)" "length bs \<le> length (block m' p)"
    using sb(1) by (simp_all add: bs_def)
  have "unat p + length bs \<le> unat q \<or> unat q + length cs \<le> unat p" if "A q = Some (k, cs)" for q k cs
  proof -
    have "q \<in> hlive H m'" "cs = take (unat (lsize k)) (block m' q)"
      using sim that by (auto simp: held_sim_def block_sim_def)
    then have q: "q \<in> hlive H m'" "length cs \<le> length (block m' q)" by auto
    moreover have "q \<noteq> p" using that p(2) by auto
    ultimately have "apart m' p q"
      using ok(1) inv p(1) by (auto simp: heap_inv_ok_def)
    with q(2) len(2) show ?thesis by (auto simp: apart_def)
  qed
  moreover have "p \<noteq> 0" using ok(1) inv p(1) by (auto simp: heap_inv_ok_def)
  ultimately show "new_block A l p bs"
    using sb(2) len(1) p(2) by (simp add: new_block_def)
  show "held_sim H (A(p \<mapsto> (l, bs))) m'"
    using sim l p sv by (auto simp: held_sim_def block_sim_def bs_def)
qed

lemma validate_tail:
  assumes "queries_ok F H" and "hinv H (mach p)" and "a = 0 \<or> a \<in> hlive H (mach p) \<and>
      served H (lsize (normal l)) (layout_flags (normal l)) a (mach p)"
    and l: "valid_layout l" "0 < lsize l"
    and w: "field 0 6 flags = field 0 6 (layout_flags (normal l))"
  shows "\<exists>q. run_then (debug_validate F a (normal l) flags) f p = f () q \<and> mach q = mach p"
proof (cases "a = 0")
  case True
  then show ?thesis by (auto simp: debug_validate_def)
next
  case False
  then have "a \<in> hlive H (mach p)" "served H (lsize (normal l)) flags a (mach p)"
    using assms(3) served_cong [OF w] by metis+
  from debug_validate_passes [OF assms(1,2) this request_facts(1) [OF l] request_facts(4) [OF l w]]
  show ?thesis by (auto simp: run_then_def)
qed

lemma run_then_foreign:
  assumes "f (mach p) = (Done x, m)"
  shows "\<exists>u. run_then (foreign c f) g p = g x u \<and> mach u = m"
  using foreign_mach [of f p x m c, OF assms] by (auto simp: run_then_def)

lemma take_min_eq: "take j xs = take j ys \<Longrightarrow> i \<le> j \<Longrightarrow> take i xs = take i ys"
  by (metis min.absorb1 take_take)

lemma held_live: "held_sim H A m \<Longrightarrow> A a = Some x \<Longrightarrow> a \<in> hlive H m"
  by (cases x) (auto simp: held_sim_def block_sim_def)

lemma malloc_tail:
  assumes ok: "heap_ok F H" and sim: "sim H A p" and l: "valid_layout l" "0 < lsize l"
    and w: "field 0 6 flags = field 0 6 (layout_flags (normal l))"
  shows "\<exists>r q. run_then (mallocx F (lsize (normal l)) flags) (\<lambda>ptr.
      run_then (debug_validate F ptr (normal l) flags) (\<lambda>_. ret ptr)) p = (Done r, q) \<and>
    (r = 0 \<and> sim H A q \<or> (\<exists>bs. new_block A l r bs \<and> sim H (A(r \<mapsto> (l, bs))) q \<and>
       (bit flags 6 \<longrightarrow> bs = replicate (unat (lsize l)) 0)))"
proof -
  let ?sz = "lsize (normal l)" and ?m = "mach p"
  have h: "heap_inv_ok H" "queries_ok F H" "mallocx_ok F H" using ok by (simp_all add: heap_ok_def)
  have inv: "hinv H ?m" using sim by (simp add: held_sim_def)
  then obtain a m' where call: "c_mallocx F ?sz flags ?m = (Done a, m')" and m': "hinv H m'" "keeps (hlive H ?m) ?m m'"
    and a: "if a = 0 then hlive H m' = hlive H ?m else a \<notin> hlive H ?m \<and>
       hlive H m' = insert a (hlive H ?m) \<and> served H ?sz flags a m' \<and>
       (bit flags 6 \<longrightarrow> take (unat ?sz) (block m' a) = replicate (unat ?sz) 0)"
    using h(3) request_facts(1) [OF l] unfolding mallocx_ok_def by metis
  obtain u where u: "run_then (mallocx F ?sz flags) (\<lambda>ptr.
      run_then (debug_validate F ptr (normal l) flags) (\<lambda>_. ret ptr)) p =
      run_then (debug_validate F a (normal l) flags) (\<lambda>_. ret a) u" "mach u = m'"
    using run_then_foreign [where f = "c_mallocx F ?sz flags" and p = p] call
    unfolding mallocx_def by blast
  have sv: "a = 0 \<or> a \<in> hlive H m' \<and> served H ?sz (layout_flags (normal l)) a m'"
    using a served_cong [OF w, of H ?sz a m'] by (auto split: if_splits)
  obtain q where q: "run_then (debug_validate F a (normal l) flags) (\<lambda>_. ret a) u = (Done a, q)" "mach q = m'"
    using validate_tail [OF h(2) _ _ l w, where p = u and a = a] m'(1) u(2) sv by metis
  have sim': "held_sim H A m'"
    by (rule held_sim_keeps [OF sim m'(1), where S = "{}"]) (use m'(2) a in \<open>auto split: if_splits\<close>)
  show ?thesis
  proof (cases "a = 0")
    case True
    with u q sim' show ?thesis by simp
  next
    case False
    have none: "A a = None" using False a held_live [OF sim, of a] by (cases "A a") auto
    have "bit flags 6 \<longrightarrow> take (unat (lsize l)) (block m' a) = replicate (unat (lsize l)) 0"
    proof
      assume that: "bit flags 6"
      have "take (unat (lsize l)) (take (unat ?sz) (block m' a)) = replicate (unat (lsize l)) 0"
        using a False that request_facts(2) [OF l] by (simp add: min_absorb1 del: normal_simps take_take)
      then show "take (unat (lsize l)) (block m' a) = replicate (unat (lsize l)) 0"
        using request_facts(2) [OF l] by (simp add: min_absorb1 del: normal_simps)
    qed
    moreover note held_sim_new [OF h(1,2) sim' l _ none]
    ultimately show ?thesis
      using sv False u q by (intro exI [of _ a] exI [of _ q] conjI disjI2 exI) simp_all
  qed
qed

lemma alloc_zeroed_bit: "bit (v OR MALLOCX_ZERO) 6"
  by (simp add: MALLOCX_ZERO_shift bit_or_iff bit_push_bit_iff)

lemma alloc_refines:
  assumes ok: "heap_ok F H" and hk: "hooks_ok H K" and l: "valid_layout l" "0 < lsize l"
  shows "safe (sim H A) (alloc F K l) (\<lambda>r q. \<exists>A'. grants (Alloc l) A r A' \<and> sim H A' q)"
  unfolding alloc_def adjust_layout_valid [OF l] run_then_ret Let_def
proof (rule safe_then [OF run_hook_safe], use hk in \<open>simp add: hooks_ok_def\<close>)
  fix x
  show "safe (sim H A) (run_then (mallocx F (lsize (normal l)) (layout_flags (normal l))) (\<lambda>ptr.
      run_then (debug_validate F ptr (normal l) (layout_flags (normal l))) (\<lambda>_. ret ptr)))
      (\<lambda>r q. \<exists>A'. grants (Alloc l) A r A' \<and> sim H A' q)"
  proof (rule safeI)
    fix s assume "sim H A s"
    from malloc_tail [OF ok this l refl]
    show "\<exists>r q. run_then (mallocx F (lsize (normal l)) (layout_flags (normal l))) (\<lambda>ptr.
      run_then (debug_validate F ptr (normal l) (layout_flags (normal l))) (\<lambda>_. ret ptr)) s = (Done r, q) \<and>
      (\<exists>A'. grants (Alloc l) A r A' \<and> sim H A' q)"
      by (auto intro: alloc_null alloc_some)
  qed
qed

lemma alloc_zeroed_refines:
  assumes ok: "heap_ok F H" and hk: "hooks_ok H K" and l: "valid_layout l" "0 < lsize l"
  shows "safe (sim H A) (alloc_zeroed F K l) (\<lambda>r q. \<exists>A'. grants (Alloc_zeroed l) A r A' \<and> sim H A' q)"
  unfolding alloc_zeroed_def adjust_layout_valid [OF l] run_then_ret Let_def
proof (rule safe_then [OF run_hook_safe], use hk in \<open>simp add: hooks_ok_def\<close>)
  fix x
  let ?w = "layout_flags (normal l) OR MALLOCX_ZERO"
  show "safe (sim H A) (run_then (mallocx F (lsize (normal l)) ?w) (\<lambda>ptr.
      run_then (debug_validate F ptr (normal l) ?w) (\<lambda>_. ret ptr)))
      (\<lambda>r q. \<exists>A'. grants (Alloc_zeroed l) A r A' \<and> sim H A' q)"
  proof (rule safeI)
    fix s assume "sim H A s"
    from malloc_tail [OF ok this l zero_flag_field [OF l]] alloc_zeroed_bit [of "layout_flags (normal l)"]
    show "\<exists>r q. run_then (mallocx F (lsize (normal l)) ?w) (\<lambda>ptr.
      run_then (debug_validate F ptr (normal l) ?w) (\<lambda>_. ret ptr)) s = (Done r, q) \<and>
      (\<exists>A'. grants (Alloc_zeroed l) A r A' \<and> sim H A' q)"
      by (auto intro: zeroed_null zeroed_some)
  qed
qed

lemma ralloc_tail:
  assumes ok: "heap_ok F H" and sim: "sim H A p" and held: "A a = Some (l, bs)"
    and n: "0 < n" "valid_layout (l\<lparr>lsize := n\<rparr>)"
  defines "k \<equiv> l\<lparr>lsize := n\<rparr>"
  shows "\<exists>r q. run_then (rallocx F a (lsize (normal k)) (layout_flags (normal k))) (\<lambda>ptr.
      run_then (debug_validate F ptr (normal k) (layout_flags (normal k))) (\<lambda>_. ret ptr)) p = (Done r, q) \<and>
    (\<exists>A'. grants (Realloc a l n) A r A' \<and> sim H A' q)"
proof -
  let ?sz = "lsize (normal k)" and ?w = "layout_flags (normal k)" and ?m = "mach p" and ?B = "A(a := None)"
  have h: "heap_inv_ok H" "queries_ok F H" "rallocx_ok F H" using ok by (simp_all add: heap_ok_def)
  have k: "valid_layout k" "0 < lsize k" "lsize k = n" using n by (simp_all add: k_def)
  have b: "block_sim H ?m a l bs" and inv: "hinv H ?m" using sim held by (auto simp: held_sim_def)
  then have "a \<in> hlive H ?m" by (simp add: block_sim_def)
  with inv obtain r m' where call: "c_rallocx F a ?sz ?w ?m = (Done r, m')" and m': "hinv H m'"
    and r: "if r = 0 then hlive H m' = hlive H ?m \<and> keeps (hlive H ?m) ?m m'
         else r \<notin> hlive H ?m - {a} \<and> hlive H m' = insert r (hlive H ?m - {a}) \<and>
           keeps (hlive H ?m - {a}) ?m m' \<and> served H ?sz ?w r m' \<and>
           (let i = min (unat ?sz) (length (block ?m a)) in take i (block m' r) = take i (block ?m a))"
    using h(3) request_facts(1) [OF k(1,2)] unfolding rallocx_ok_def by metis
  obtain u where u: "run_then (rallocx F a ?sz ?w) (\<lambda>ptr.
      run_then (debug_validate F ptr (normal k) ?w) (\<lambda>_. ret ptr)) p =
      run_then (debug_validate F r (normal k) ?w) (\<lambda>_. ret r) u" "mach u = m'"
    using run_then_foreign [where f = "c_rallocx F a ?sz ?w" and p = p] call
    unfolding rallocx_def by blast
  have sv: "r = 0 \<or> r \<in> hlive H m' \<and> served H ?sz ?w r m'"
    using r by (auto split: if_splits)
  obtain q where q: "run_then (debug_validate F r (normal k) ?w) (\<lambda>_. ret r) u = (Done r, q)" "mach q = m'"
    using validate_tail [OF h(2) _ _ k(1,2) refl, where p = u and a = r] m' u(2) sv by metis
  show ?thesis
  proof (cases "r = 0")
    case True
    have "held_sim H A m'"
      by (rule held_sim_keeps [OF sim m', where S = "{}"]) (use r True in auto)
    with u q True show ?thesis by (auto intro: realloc_null)
  next
    case False
    have simB: "held_sim H ?B ?m" using sim by (auto simp: held_sim_def)
    have sim': "held_sim H ?B m'"
      by (rule held_sim_keeps [OF simB m', where S = "{a}"]) (use r False in auto)
    have "r \<notin> hlive H ?m - {a}" using r False by simp
    then have none: "?B r = None" using held_live [OF sim, of r] by (cases "A r") auto
    let ?cs = "take (unat (lsize k)) (block m' r)" and ?i = "min (unat (lsize l)) (unat n)"
    have new: "new_block ?B k r ?cs" "held_sim H (?B(r \<mapsto> (k, ?cs))) m'"
      using held_sim_new [OF h(1,2) sim' k(1,2) _ none] sv False by blast+
    have old: "unat (lsize l) \<le> length (block ?m a)" "bs = take (unat (lsize l)) (block ?m a)"
      using served_block(1) [OF h(2) inv] b by (auto simp: block_sim_def)
    have "?i \<le> min (unat ?sz) (length (block ?m a))"
      using request_facts(2) [OF k(1,2)] k(3) old(1) by (simp add: min_def del: normal_simps)
    moreover have "take (min (unat ?sz) (length (block ?m a))) (block m' r) =
        take (min (unat ?sz) (length (block ?m a))) (block ?m a)"
      using r False by (simp only: Let_def if_False simp_thms)
    ultimately have "take ?i (block m' r) = take ?i (block ?m a)"
      using take_min_eq by metis
    then have "take ?i ?cs = take ?i bs"
      using k(3) old(2) by (simp add: min.commute min.left_commute)
    with new held have "grants (Realloc a l n) A r (?B(r \<mapsto> (k, ?cs)))"
      unfolding k_def by (intro realloc_some)
    with new(2) u q show ?thesis by auto
  qed
qed

lemma from_size_align_valid:
  "valid_layout (l\<lparr>lsize := n\<rparr>) \<Longrightarrow> from_size_align_unchecked n (lalign l) = ret (l\<lparr>lsize := n\<rparr>)"
  by (cases l) (simp add: from_size_align_unchecked_def)

lemma realloc_refines:
  assumes ok: "heap_ok F H" and hk: "hooks_ok H K" and rq: "request_ok A (Realloc a l n)"
  shows "safe (sim H A) (realloc F K a l n) (\<lambda>r q. \<exists>A'. grants (Realloc a l n) A r A' \<and> sim H A' q)"
proof -
  let ?k = "l\<lparr>lsize := n\<rparr>"
  obtain bs where held: "A a = Some (l, bs)" and n: "0 < n" "valid_layout ?k"
    using rq by auto
  have eq: "realloc F K a l n = run_then (run_hook F (hook_REALLOC K) (\<lambda>h. h l a n)) (\<lambda>_.
      run_then (rallocx F a (lsize (normal ?k)) (layout_flags (normal ?k))) (\<lambda>ptr.
      run_then (debug_validate F ptr (normal ?k) (layout_flags (normal ?k))) (\<lambda>_. ret ptr)))"
    using n by (simp add: realloc_def from_size_align_valid adjust_layout_valid Let_def del: normal_simps)
  show ?thesis
    unfolding eq
  proof (rule safe_then [OF run_hook_safe], use hk in \<open>simp add: hooks_ok_def\<close>)
    show "safe (sim H A) (run_then (rallocx F a (lsize (normal ?k)) (layout_flags (normal ?k))) (\<lambda>ptr.
        run_then (debug_validate F ptr (normal ?k) (layout_flags (normal ?k))) (\<lambda>_. ret ptr)))
        (\<lambda>r q. \<exists>A'. grants (Realloc a l n) A r A' \<and> sim H A' q)"
      by (rule safeI) (rule ralloc_tail [where A = A, OF ok _ held n])
  qed
qed

lemma dalloc_tail:
  assumes ok: "heap_ok F H" and sim: "sim H A p" and held: "A a = Some (l, bs)"
  shows "\<exists>q. run_then (debug_validate F a (normal l) (layout_flags (normal l))) (\<lambda>_.
      sdallocx F a (lsize (normal l)) (layout_flags (normal l))) p = (Done (), q) \<and> sim H (A(a := None)) q"
proof -
  let ?sz = "lsize (normal l)" and ?w = "layout_flags (normal l)" and ?m = "mach p" and ?B = "A(a := None)"
  have h: "queries_ok F H" "sdallocx_ok F H" using ok by (simp_all add: heap_ok_def)
  have b: "block_sim H ?m a l bs" and inv: "hinv H ?m" using sim held by (auto simp: held_sim_def)
  then have l: "valid_layout l" "0 < lsize l" and live: "a \<in> hlive H ?m"
    and sv: "served H ?sz ?w a ?m" by (simp_all add: block_sim_def)
  from h(2) inv live request_facts(1) [OF l] sv obtain m' where
    call: "c_sdallocx F a ?sz ?w ?m = (Done (), m')" and m': "hinv H m'"
    "hlive H m' = hlive H ?m - {a}" "keeps (hlive H ?m - {a}) ?m m'"
    unfolding sdallocx_ok_def served_def by metis
  obtain u where u: "run_then (debug_validate F a (normal l) ?w) (\<lambda>_. sdallocx F a ?sz ?w) p =
      sdallocx F a ?sz ?w u" "mach u = ?m"
    using validate_tail [OF h(1) inv _ l refl, of a "\<lambda>_. sdallocx F a ?sz ?w"] live sv by blast
  have "held_sim H ?B ?m" using sim by (auto simp: held_sim_def)
  then have "held_sim H ?B m'"
    by (rule held_sim_keeps [OF _ m'(1), where S = "{a}"]) (use m'(2,3) in auto)
  with u call show ?thesis
    by (simp add: sdallocx_def foreign_def)
qed

lemma dealloc_refines:
  assumes ok: "heap_ok F H" and hk: "hooks_ok H K" and rq: "request_ok A (Dealloc a l)"
  shows "safe (sim H A) (dealloc F K a l) (\<lambda>_. sim H (A(a := None)))"
proof (cases "\<exists>p. sim H A p")
  case False
  then show ?thesis by (auto simp: safe_def)
next
  case True
  obtain bs where held: "A a = Some (l, bs)" using rq by auto
  from True obtain p where "sim H A p" by blast
  with held have "block_sim H (mach p) a l bs" "hinv H (mach p)"
    by (simp_all add: held_sim_def)
  moreover have "heap_inv_ok H" using ok by (simp add: heap_ok_def)
  ultimately have nz: "a \<noteq> 0" and l: "valid_layout l" "0 < lsize l"
    by (auto simp: heap_inv_ok_def block_sim_def)
  show ?thesis
    unfolding dealloc_def adjust_layout_valid [OF l] run_then_ret Let_def
  proof (rule safe_then [OF run_hook_safe], use hk in \<open>simp add: hooks_ok_def\<close>)
    show "safe (sim H A) (run_then (assert_unchecked (a \<noteq> 0)) (\<lambda>_.
        run_then (debug_validate F a (normal l) (layout_flags (normal l))) (\<lambda>_.
        sdallocx F a (lsize (normal l)) (layout_flags (normal l))))) (\<lambda>_. sim H (A(a := None)))"
      using nz dalloc_tail [where A = A, OF ok _ held] by (auto intro!: safeI)
  qed
qed

text \<open>The usable size, and the bytes of a block.\<close>

lemma held_block:
  assumes "sim H A p" and "A a = Some (l, bs)"
  shows "a \<in> hlive H (mach p)" and "hinv H (mach p)" and "bytes_at (mach p) a = Some (block (mach p) a)"
    and "bs = take (unat (lsize l)) (block (mach p) a)" and "valid_layout l" and "0 < lsize l"
    and "served H (lsize (normal l)) (layout_flags (normal l)) a (mach p)"
proof -
  show b: "a \<in> hlive H (mach p)" "hinv H (mach p)" "bs = take (unat (lsize l)) (block (mach p) a)"
    "valid_layout l" "0 < lsize l" "served H (lsize (normal l)) (layout_flags (normal l)) a (mach p)"
    using assms by (auto simp: held_sim_def block_sim_def)
  from this(6) have "block (mach p) a \<noteq> []"
    unfolding served_def by (metis list.size(3) unsigned_eq_0_iff)
  then show "bytes_at (mach p) a = Some (block (mach p) a)"
    by (auto simp: block_def split: option.splits)
qed

lemma usable_refines:
  assumes ok: "heap_ok F H" and rq: "request_ok A (Usable a)"
  shows "safe (sim H A) (usable_size F a) (\<lambda>r q. \<exists>A'. grants (Usable a) A r A' \<and> sim H A' q)"
proof (rule safeI)
  fix p assume sim: "sim H A p"
  show "\<exists>r q. usable_size F a p = (Done r, q) \<and> (\<exists>A'. grants (Usable a) A r A' \<and> sim H A' q)"
  proof (cases "a = 0")
    case True
    with sim show ?thesis by (auto simp: usable_size_def intro: usable_null)
  next
    case False
    with rq obtain l bs where held: "A a = Some (l, bs)" by auto
    note b = held_block [OF sim held]
    have q: "queries_ok F H" using ok by (simp add: heap_ok_def)
    let ?n = "real_size H (lsize (normal l)) (layout_flags (normal l))"
    have "lsize l \<le> lsize (normal l)" by simp
    also have "\<dots> \<le> ?n"
      using q b(2,7) request_facts(1) [OF b(5,6)] unfolding queries_ok_def served_def by blast
    finally have "lsize l \<le> ?n" .
    moreover have "c_sallocx F a 0 (mach p) = (Done ?n, mach p)"
      using q b(1,2,7) by (auto simp: queries_ok_def served_def)
    ultimately show ?thesis
      using False sim held by (auto simp: usable_size_def sallocx_def foreign_def intro: usable_some)
  qed
qed

lemma store_sim:
  assumes "heap_ok F H" and "sim H A p" and "A a = Some (l, bs)"
  shows "held_sim H (A(a \<mapsto> (l, bs[i := b]))) (put_block a ((block (mach p) a)[i := b]) (mach p))"
proof -
  note blk = held_block [OF assms(2,3)]
  let ?m = "put_block a ((block (mach p) a)[i := b]) (mach p)"
  have st: "hinv H ?m" "hlive H ?m = hlive H (mach p)"
    using assms(1) blk(1,2) by (simp_all add: heap_ok_def stores_ok_def)
  have block: "block ?m c = (if c = a then (block (mach p) a)[i := b] else block (mach p) c)" for c
    by (simp add: put_block_def block_def)
  then have served: "served H sz w c ?m = served H sz w c (mach p)" for sz w c
    by (simp add: served_def)
  have "block_sim H ?m c k cs" if "(A(a \<mapsto> (l, bs[i := b]))) c = Some (k, cs)" for c k cs
    using that assms(2) blk st(2)
    by (cases "c = a") (auto simp: held_sim_def block_sim_def served block take_update_swap)
  with st(1) show ?thesis by (simp add: held_sim_def)
qed

lemma access_refines:
  assumes ok: "heap_ok F H"
  shows "request_ok A (Load a i) \<Longrightarrow>
      safe (sim H A) (load_byte a i) (\<lambda>r q. \<exists>A'. grants (Load a i) A r A' \<and> sim H A' q)"
    and "request_ok A (Store a i b) \<Longrightarrow>
      safe (sim H A) (store_byte a i b) (\<lambda>r q. \<exists>A'. grants (Store a i b) A r A' \<and> sim H A' q)"
proof -
  have at: "bytes_at (mach p) a = Some (block (mach p) a)" "i < length (block (mach p) a)"
    "bs ! i = block (mach p) a ! i" if "sim H A p" "A a = Some (l, bs)" "i < length bs" for p l bs
    using held_block [OF that(1,2)] that(3) by auto
  show "safe (sim H A) (load_byte a i) (\<lambda>r q. \<exists>A'. grants (Load a i) A r A' \<and> sim H A' q)"
    if rq: "request_ok A (Load a i)"
  proof (rule safeI)
    fix p assume sim: "sim H A p"
    from rq obtain l bs where held: "A a = Some (l, bs)" "i < length bs" by (auto split: option.splits)
    from load_done [where A = A and i = i, OF held(1)] sim at [OF sim held]
    show "\<exists>r q. load_byte a i p = (Done r, q) \<and> (\<exists>A'. grants (Load a i) A r A' \<and> sim H A' q)"
      by (auto simp: load_byte_def)
  qed
  show "safe (sim H A) (store_byte a i b) (\<lambda>r q. \<exists>A'. grants (Store a i b) A r A' \<and> sim H A' q)"
    if rq: "request_ok A (Store a i b)"
  proof (rule safeI)
    fix p assume sim: "sim H A p"
    from rq obtain l bs where held: "A a = Some (l, bs)" "i < length bs" by (auto split: option.splits)
    from store_done [where A = A and i = i and b = b, OF held(1)] store_sim [OF ok sim held(1), of i b] at [OF sim held]
    show "\<exists>r q. store_byte a i b p = (Done r, q) \<and> (\<exists>A'. grants (Store a i b) A r A' \<and> sim H A' q)"
      by (auto simp: store_byte_def)
  qed
qed

lemma serve_refines:
  assumes ok: "heap_ok F H" and hk: "hooks_ok H K" and rq: "request_ok A rq"
  shows "safe (sim H A) (serve F K rq) (\<lambda>r q. \<exists>A'. grants rq A r A' \<and> sim H A' q)"
proof (cases rq)
  case (Dealloc a l)
  have "safe (sim H A) (dealloc F K a l) (\<lambda>_. sim H (A(a := None)))"
    using ok hk rq Dealloc by (intro dealloc_refines) simp_all
  then show ?thesis
    unfolding Dealloc serve.simps
    by (rule safe_then) (auto intro!: safe_ret intro: dealloc_done)
next
  case (Realloc a l n)
  with realloc_refines [OF ok hk rq [unfolded Realloc]] show ?thesis by simp
next
  case (Usable a)
  with usable_refines [OF ok rq [unfolded Usable]] show ?thesis by simp
next
  case (Load a i)
  with access_refines(1) [OF ok rq [unfolded Load]] show ?thesis by simp
next
  case (Store a i b)
  with access_refines(2) [OF ok rq [unfolded Store]] show ?thesis by simp
qed (use assms alloc_refines alloc_zeroed_refines in auto)

section \<open>Whole runs\<close>

text \<open>A program: given the requests made so far and their answers, the next request or the end.\<close>

type_synonym transcript = "(request \<times> usize) list"

fun run_client ::
    "'s ffi \<Rightarrow> 's hooks \<Rightarrow> (transcript \<Rightarrow> request option) \<Rightarrow> nat \<Rightarrow> transcript \<Rightarrow> ('s process, transcript) comp" where
  "run_client F K client 0 h = ret h"
| "run_client F K client (Suc n) h = (case client h of
      None \<Rightarrow> ret h
    | Some rq \<Rightarrow> run_then (serve F K rq) (\<lambda>r. run_client F K client n (h @ [(rq, r)])))"

text \<open>The transcripts the contract allows, with the blocks held at their end.\<close>

inductive allowed :: "transcript \<Rightarrow> held \<Rightarrow> bool" where
  allowed_Nil: "allowed [] (\<lambda>_. None)"
| allowed_snoc: "allowed h A \<Longrightarrow> request_ok A rq \<Longrightarrow> grants rq A r A' \<Longrightarrow> allowed (h @ [(rq, r)]) A'"

text \<open>A program that upholds the caller's side whatever the contract allows to be answered.\<close>

definition client_ok :: "(transcript \<Rightarrow> request option) \<Rightarrow> bool" where
  "client_ok client \<longleftrightarrow> (\<forall>h A rq. allowed h A \<longrightarrow> client h = Some rq \<longrightarrow> request_ok A rq)"

lemma run_client_safe:
  assumes "heap_ok F H" and "hooks_ok H K" and "client_ok client" and "allowed h A"
  shows "safe (sim H A) (run_client F K client n h) (\<lambda>h' q. \<exists>A'. allowed h' A' \<and> sim H A' q)"
  using assms(4)
proof (induction n arbitrary: h A)
  case 0
  then show ?case by (auto intro!: safe_ret)
next
  case (Suc n)
  show ?case
  proof (cases "client h")
    case None
    with Suc.prems show ?thesis by (auto intro!: safe_ret)
  next
    case (Some rq)
    have rq: "request_ok A rq" using assms(3) Suc.prems Some by (auto simp: client_ok_def)
    have "safe (\<lambda>q. \<exists>A'. grants rq A r A' \<and> sim H A' q) (run_client F K client n (h @ [(rq, r)]))
        (\<lambda>h' q. \<exists>A'. allowed h' A' \<and> sim H A' q)" for r
      using Suc.IH [OF allowed_snoc [OF Suc.prems rq]] unfolding safe_def by blast
    with serve_refines [OF assms(1,2) rq] show ?thesis
      by (simp add: Some) (rule safe_then)
  qed
qed

section \<open>Properties\<close>

text \<open>
  C1. The crate is a correct global allocator. Take any library heap that behaves as documented,
  hooks that return and leave the program's blocks alone, with or without debug assertions, and any
  program that upholds the caller's side of the contract, allocating, asking for usable sizes and reading
  and writing its blocks in any order. Then every run of the program, of any length, completes without
  panic or undefined behaviour, and the answers it got are answers the contract allows: null with no
  effect, or a block of the requested size and alignment, apart from all blocks held, zeroed when asked
  for, holding the old contents after a reallocation; a usable size no smaller than the one asked for;
  and for a byte the last one written there.
\<close>

theorem run_client_correct:
  assumes "heap_ok F H" and "hooks_ok H K" and "client_ok client" and "hinv H (mach p)"
  shows "\<exists>h A q. run_client F K client n [] p = (Done h, q) \<and> allowed h A \<and> sim H A q"
proof -
  have "sim H (\<lambda>_. None) p" using assms(4) by (simp add: held_sim_def)
  from safeD [OF run_client_safe [OF assms(1-3) allowed_Nil] this] show ?thesis by blast
qed

text \<open>
  C19. In a release build without hooks every entry point is exactly one call of the library, with
  the size raised to the quantum and the flag word of the normalised layout; allocation and
  deallocation of the same layout pass the same size and flags.
\<close>

theorem release_entry_points:
  assumes "valid_layout l" and "0 < lsize l" and "\<not> debug_assertions F" and "\<not> global_hooks F"
    and "a \<noteq> 0" and "lalign k = lalign l"
  defines "sz \<equiv> max (lsize l) 16" and "w \<equiv> layout_flags (l\<lparr>lsize := max (lsize l) 16\<rparr>)"
  shows "alloc F K l = mallocx F sz w \<and> alloc_zeroed F K l = mallocx F sz (w OR MALLOCX_ZERO) \<and>
    realloc F K a k (lsize l) = rallocx F a sz w \<and> dealloc F K a l = sdallocx F a sz w"
proof -
  have n: "normal l = l\<lparr>lsize := max (lsize l) 16\<rparr>" by (simp add: normal_def QUANTUM_def)
  have tail: "run_then m ret = m" for m :: "('a process, usize) comp"
    by (rule ext) (simp add: run_then_def split: prod.splits outcome.splits)
  have dv: "debug_validate F p k f = ret ()" for p k f
    using assms(3) by (simp add: debug_validate_def debug_assert_def)
  have rk: "run_hook F slot c = ret ()" for slot c
    using assms(4) by (simp add: run_hook_def)
  have fs: "from_size_align_unchecked (lsize l) (lalign k) = ret l"
    using from_size_align_valid [of "lsize l" l] assms(1,6) by simp
  show ?thesis
    unfolding alloc_def alloc_zeroed_def realloc_def dealloc_def rk dv run_then_ret
    by (simp add: adjust_layout_valid [OF assms(1,2)] fs assms(5) n sz_def w_def Let_def tail QUANTUM_def)
qed

end
