(* ===== verification/Reference_Heap.thy ===== *)
theory Reference_Heap
  imports Global
begin

text \<open>
  A small executable allocator that satisfies the documented behaviour of the extended allocation
  functions: page-sized blocks at consecutive page addresses, at most 64 of them, each handed out
  once. It shows that the hypotheses of the allocator theorems can hold together, and the theorems
  are applied to it.
\<close>

record pool =
  handed :: nat
  pool_live :: "usize list"

definition page :: "nat \<Rightarrow> usize" where
  "page i = of_nat (4096 * (i + 1))"

definition pool_cls :: "usize \<Rightarrow> c_int \<Rightarrow> usize" where
  "pool_cls sz lg = (if lg \<le> 4 \<and> sz \<le> 4096 then 4096 else 0)"

definition pool_mallocx :: "usize \<Rightarrow> c_int \<Rightarrow> (pool machine, usize) comp" where
  "pool_mallocx sz flags = (\<lambda>m.
     if pool_cls sz (field 0 6 flags) = 0 \<or> 64 \<le> handed (je m) then (Done 0, m)
     else let p = page (handed (je m)) in
       (Done p, m\<lparr>bytes_at := (bytes_at m)(p \<mapsto> replicate 4096 0),
          je := \<lparr>handed = Suc (handed (je m)), pool_live = p # pool_live (je m)\<rparr>\<rparr>))"

definition pool_rallocx :: "usize \<Rightarrow> usize \<Rightarrow> c_int \<Rightarrow> (pool machine, usize) comp" where
  "pool_rallocx a sz flags = (\<lambda>m. (Done (if pool_cls sz (field 0 6 flags) = 0 then 0 else a), m))"

definition pool_sallocx :: "usize \<Rightarrow> c_int \<Rightarrow> (pool machine, usize) comp" where
  "pool_sallocx a flags = (\<lambda>m. if a \<in> set (pool_live (je m)) then (Done 4096, m) else (Undef, m))"

definition pool_nallocx :: "usize \<Rightarrow> c_int \<Rightarrow> (pool machine, usize) comp" where
  "pool_nallocx sz flags = ret (pool_cls sz (field 0 6 flags))"

definition pool_sdallocx :: "usize \<Rightarrow> usize \<Rightarrow> c_int \<Rightarrow> (pool machine, unit) comp" where
  "pool_sdallocx a sz flags = (\<lambda>m.
     if a \<in> set (pool_live (je m)) \<and> pool_cls sz (field 0 6 flags) = 4096
     then (Done (), m\<lparr>bytes_at := (bytes_at m)(a := None),
            je := (je m)\<lparr>pool_live := removeAll a (pool_live (je m))\<rparr>\<rparr>)
     else (Undef, m))"

text \<open>The \<^verbatim>\<open>libc\<close> constants of Linux; nothing else of the interface is provided.\<close>

fun linux_errno :: "errno_name \<Rightarrow> c_int" where
  "linux_errno EPERM = 1"
| "linux_errno ENOENT = 2"
| "linux_errno EAGAIN = 11"
| "linux_errno EFAULT = 14"
| "linux_errno EINVAL = 22"
| "linux_errno ENOSPC = 28"
| "linux_errno EILSEQ = 84"

definition bare_ffi :: "'s ffi" where
  "bare_ffi = \<lparr>c_nametomib = (\<lambda>_ _. undef), c_bymib = (\<lambda>_. undef), c_mallocx = (\<lambda>_ _. undef),
     c_rallocx = (\<lambda>_ _ _. undef), c_sallocx = (\<lambda>_ _. undef), c_sdallocx = (\<lambda>_ _ _. undef),
     c_nallocx = (\<lambda>_ _. undef), c_stats_print = (\<lambda>_. undef), errno = linux_errno,
     static_str = (\<lambda>_. 0), local_at = (\<lambda>_. 0), debug_assertions = True, target_msvc = False,
     global_hooks = True, lib_inv = (\<lambda>_. True)\<rparr>"

definition pool_ffi :: "pool ffi" where
  "pool_ffi = bare_ffi\<lparr>c_mallocx := pool_mallocx, c_rallocx := pool_rallocx,
     c_sallocx := pool_sallocx, c_sdallocx := pool_sdallocx, c_nallocx := pool_nallocx\<rparr>"

definition pool_inv :: "pool machine \<Rightarrow> bool" where
  "pool_inv m \<longleftrightarrow> handed (je m) \<le> 64 \<and>
     (\<forall>a \<in> set (pool_live (je m)). \<exists>i < handed (je m). a = page i) \<and>
     (\<forall>a \<in> set (pool_live (je m)). length (block m a) = 4096)"

definition pool_heap :: "pool heap" where
  "pool_heap = \<lparr>hinv = pool_inv, hlive = (\<lambda>m. set (pool_live (je m))), hcls = pool_cls\<rparr>"

section \<open>It satisfies the documented behaviour\<close>

lemma page_unat: "i < 64 \<Longrightarrow> unat (page i) = 4096 * (i + 1)"
  unfolding page_def unat_of_nat by (subst mod_less) simp_all

lemma page_inj: "i < 64 \<Longrightarrow> j < 64 \<Longrightarrow> page i = page j \<longleftrightarrow> i = j"
  by (metis Suc_eq_plus1 Suc_inject mult_left_cancel page_unat zero_neq_numeral)

lemma page_nonzero: "i < 64 \<Longrightarrow> page i \<noteq> 0"
  using page_unat [of i] by auto

lemma pool_cls_cases: "pool_cls sz lg = 0 \<or> pool_cls sz lg = 4096 \<and> sz \<le> 4096 \<and> unat lg \<le> 4"
  by (auto simp: pool_cls_def word_le_nat_alt)

lemma pool_cls_4096: "unat (pool_cls sz lg) = 4096 \<Longrightarrow> pool_cls sz lg = 4096"
  by (auto simp: pool_cls_def split: if_splits)

lemma pool_granted:
  assumes "pool_cls sz (field 0 6 flags) \<noteq> 0" and "i < 64"
  shows "granted_align sz flags dvd unat (page i)"
proof -
  have "unat (field 0 6 flags) \<le> 4" using assms(1) pool_cls_cases by blast
  then have "(2::nat) ^ unat (field 0 6 flags) dvd 2 ^ 4"
    by (rule le_imp_power_dvd)
  then have "granted_align sz flags dvd 16"
    by (auto simp: granted_align_def max_def)
  moreover have "(16::nat) dvd 4096 * (i + 1)"
    by (rule dvd_mult2) simp
  ultimately show ?thesis
    unfolding page_unat [OF assms(2)] by (rule dvd_trans)
qed

lemma pool_live_page:
  assumes "pool_inv m" and "a \<in> set (pool_live (je m))"
  shows "\<exists>i. i < 64 \<and> i < handed (je m) \<and> a = page i \<and> length (block m a) = 4096"
  using assms unfolding pool_inv_def by (metis order_less_le_trans)

lemma pool_inv_ok: "heap_inv_ok pool_heap"
proof -
  have "apart m a b" if ab: "pool_inv m" "a \<in> set (pool_live (je m))" "b \<in> set (pool_live (je m))" "a \<noteq> b" for m a b
  proof -
    obtain i j where "i < 64" "a = page i" "j < 64" "b = page j"
      using pool_live_page [OF ab(1,2)] pool_live_page [OF ab(1,3)] by blast
    moreover from this ab(4) have "i < j \<or> j < i" by (metis nat_neq_iff)
    ultimately show ?thesis
      using ab(1-3) by (auto simp: apart_def pool_inv_def page_unat)
  qed
  moreover have "0 \<notin> set (pool_live (je m))" if "pool_inv m" for m
    using page_nonzero pool_live_page [OF that] by metis
  ultimately show ?thesis
    by (auto simp: heap_inv_ok_def pool_heap_def)
qed

lemma pool_queries_ok: "queries_ok pool_ffi pool_heap"
  using pool_cls_cases
  by (fastforce simp: queries_ok_def pool_ffi_def pool_heap_def pool_nallocx_def pool_sallocx_def
      real_size_def pool_inv_def)

lemma pool_mallocx_ok: "mallocx_ok pool_ffi pool_heap"
  unfolding mallocx_ok_def
proof (intro allI impI)
  fix m and sz :: usize and flags
  assume inv: "hinv pool_heap m" and "0 < sz"
  let ?c = "pool_cls sz (field 0 6 flags)" and ?h = "handed (je m)"
  show "\<exists>p m'. c_mallocx pool_ffi sz flags m = (Done p, m') \<and> hinv pool_heap m' \<and>
      keeps (hlive pool_heap m) m m' \<and>
      (if p = 0 then hlive pool_heap m' = hlive pool_heap m
       else p \<notin> hlive pool_heap m \<and> hlive pool_heap m' = insert p (hlive pool_heap m) \<and>
         served pool_heap sz flags p m' \<and>
         (bit flags 6 \<longrightarrow> take (unat sz) (block m' p) = replicate (unat sz) 0))"
  proof (cases "?c = 0 \<or> 64 \<le> ?h")
    case True
    with inv show ?thesis
      by (auto simp: pool_ffi_def pool_mallocx_def keeps_def)
  next
    case False
    then have c: "?c = 4096" "sz \<le> 4096" and h: "?h < 64" using pool_cls_cases by (auto simp: not_le)
    have fresh: "page ?h \<notin> set (pool_live (je m))"
    proof
      assume "page ?h \<in> set (pool_live (je m))"
      then obtain i where "i < 64" "i < ?h" "page ?h = page i"
        using pool_live_page [of m "page ?h"] inv by (auto simp: pool_heap_def)
      with h page_inj show False by simp
    qed
    have "unat sz \<le> 4096" using c(2) by (simp add: word_le_nat_alt)
    with False c h fresh inv page_nonzero [OF h] pool_granted [of sz flags ?h] show ?thesis
      by (auto simp: pool_ffi_def pool_mallocx_def Let_def pool_heap_def pool_inv_def keeps_def
          served_def real_size_def block_def min_absorb1 less_Suc_eq)
  qed
qed

lemma pool_rallocx_ok: "rallocx_ok pool_ffi pool_heap"
  unfolding rallocx_ok_def
proof (intro allI impI)
  fix m a flags and sz :: usize
  assume inv: "hinv pool_heap m" and a: "a \<in> hlive pool_heap m" and "0 < sz"
  then obtain i where i: "i < 64" "a = page i" and len: "length (block m a) = 4096"
    using pool_live_page [of m a] by (auto simp: pool_heap_def)
  have "pool_cls sz (field 0 6 flags) = 0 \<or> pool_cls sz (field 0 6 flags) = 4096"
    using pool_cls_cases by blast
  with inv a len i page_nonzero [OF i(1)] pool_granted [of sz flags i] show
    "\<exists>p m'. c_rallocx pool_ffi a sz flags m = (Done p, m') \<and> hinv pool_heap m' \<and>
        (if p = 0 then hlive pool_heap m' = hlive pool_heap m \<and> keeps (hlive pool_heap m) m m'
         else p \<notin> hlive pool_heap m - {a} \<and> hlive pool_heap m' = insert p (hlive pool_heap m - {a}) \<and>
           keeps (hlive pool_heap m - {a}) m m' \<and> served pool_heap sz flags p m' \<and>
           (let n = min (unat sz) (length (block m a)) in take n (block m' p) = take n (block m a)))"
    by (auto simp: pool_ffi_def pool_rallocx_def pool_heap_def keeps_def served_def real_size_def Let_def)
qed

lemma pool_sdallocx_ok: "sdallocx_ok pool_ffi pool_heap"
  using pool_cls_4096
  by (auto simp: sdallocx_ok_def pool_ffi_def pool_heap_def pool_inv_def pool_sdallocx_def real_size_def
      keeps_def block_def)

lemma pool_stores_ok: "stores_ok pool_heap"
  by (auto simp: stores_ok_def pool_heap_def pool_inv_def put_block_def block_def)

lemma pool_heap_ok: "heap_ok pool_ffi pool_heap"
  by (simp add: heap_ok_def pool_inv_ok pool_queries_ok pool_mallocx_ok pool_rallocx_ok pool_sdallocx_ok pool_stores_ok)

definition pool_start :: "pool process" where
  "pool_start = \<lparr>mach = \<lparr>bytes_at = (\<lambda>_. None), tables_at = (\<lambda>_. None),
      je = \<lparr>handed = 0, pool_live = []\<rparr>\<rparr>,
     caches = (\<lambda>_. \<lparr>c_len = 0, c_segments = replicate 8 0\<rparr>), trace = []\<rparr>"

lemma pool_start_sim: "sim pool_heap (\<lambda>_. None) pool_start"
  by (simp add: held_sim_def pool_heap_def pool_inv_def pool_start_def)

text \<open>Hooks that observe and return.\<close>

definition silent_hooks :: "'s hooks" where
  "silent_hooks = \<lparr>hook_ALLOC = Some (\<lambda>_. ret ()), hook_ALLOC_ZEROED = Some (\<lambda>_. ret ()),
     hook_REALLOC = Some (\<lambda>_ _ _. ret ()), hook_DEALLOC = None\<rparr>"

lemma silent_hooks_ok: "hooks_ok H silent_hooks"
  by (simp add: hooks_ok_def silent_hooks_def safe_ret)

section \<open>The theorems at this allocator\<close>

text \<open>A program that allocates and, when served, writes the first byte and reads it again.\<close>

definition demo_layout :: layout where
  "demo_layout = \<lparr>lsize = 5, lalign = 8\<rparr>"

fun demo_client :: "transcript \<Rightarrow> request option" where
  "demo_client [] = Some (Alloc demo_layout)"
| "demo_client [(Alloc l, p)] = (if l = demo_layout \<and> p \<noteq> 0 then Some (Store p 0 7) else None)"
| "demo_client [(Alloc l, p), (Store q i b, r)] =
    (if l = demo_layout \<and> p \<noteq> 0 \<and> q = p then Some (Load p 0) else None)"
| "demo_client _ = None"

lemma demo_layout_ok: "valid_layout demo_layout" "0 < lsize demo_layout"
  by (auto simp: demo_layout_def valid_layout_def is_power_of_two_iff intro: exI [of _ 3])

inductive_cases allowed_snocE: "allowed (h @ [(rq, r)]) A"

lemma demo_alloc:
  assumes "allowed [(Alloc demo_layout, p)] A" and "p \<noteq> 0"
  shows "\<exists>bs. A p = Some (demo_layout, bs) \<and> length bs = 5"
proof -
  from assms(1) have "allowed ([] @ [(Alloc demo_layout, p)]) A" by simp
  then obtain B where "grants (Alloc demo_layout) B p A"
    by (rule allowed_snocE) auto
  with assms(2) show ?thesis
    by (auto simp: grants_Alloc new_block_def demo_layout_def)
qed

lemma demo_client_ok: "client_ok demo_client"
  unfolding client_ok_def
proof (intro allI impI)
  fix h A rq
  assume al: "allowed h A" and "demo_client h = Some rq"
  then consider "h = []" "rq = Alloc demo_layout"
    | p where "h = [(Alloc demo_layout, p)]" "p \<noteq> 0" "rq = Store p 0 7"
    | p i b r where "h = [(Alloc demo_layout, p)] @ [(Store p i b, r)]" "p \<noteq> 0" "rq = Load p 0"
    by (cases h rule: demo_client.cases) (auto split: if_splits)
  then show "request_ok A rq"
  proof cases
    case 1
    then show ?thesis by (simp add: demo_layout_ok)
  next
    case (2 p)
    with al demo_alloc [of p A] show ?thesis by auto
  next
    case (3 p i b r)
    from al [unfolded 3(1)] obtain B where "allowed [(Alloc demo_layout, p)] B" "grants (Store p i b) B r A"
      by (rule allowed_snocE)
    with demo_alloc [of p B] 3(2) show ?thesis
      by (auto simp: 3(3) grants_Store)
  qed
qed

lemma demo_flags: "layout_flags (normal demo_layout) = 0"
  by (simp_all add: demo_layout_def normal_def layout_flags_def QUANTUM_def max_def)

lemma pool_simps [simp]:
  "c_mallocx pool_ffi = pool_mallocx" "c_sallocx pool_ffi = pool_sallocx" "c_nallocx pool_ffi = pool_nallocx"
  "debug_assertions pool_ffi" "global_hooks pool_ffi" "hook_ALLOC silent_hooks = Some (\<lambda>_. ret ())"
  by (simp_all add: pool_ffi_def bare_ffi_def silent_hooks_def)

lemma demo_alloc_run:
  "\<exists>q. alloc pool_ffi silent_hooks demo_layout pool_start = (Done 4096, q) \<and>
     bytes_at (mach q) 4096 = Some (replicate 4096 0)"
proof -
  have sz: "lsize (normal demo_layout) = 16" "lalign (normal demo_layout) = 8"
    by (simp_all add: normal_def demo_layout_def QUANTUM_def)
  have "field 0 6 (0 :: c_int) = 0" by (simp add: field_def)
  then show ?thesis
    unfolding alloc_def adjust_layout_valid [OF demo_layout_ok] run_then_ret Let_def demo_flags sz
    by (simp add: run_then_def run_hook_def mallocx_def foreign_def pool_mallocx_def pool_cls_def page_def pool_start_def
        debug_validate_def debug_assert_def sallocx_def nallocx_def pool_sallocx_def pool_nallocx_def sz del: normal_simps)
qed

lemma demo_run:
  "\<exists>q. run_client pool_ffi silent_hooks demo_client 3 [] pool_start =
     (Done [(Alloc demo_layout, 4096), (Store 4096 0 7, 0), (Load 4096 0, 7)], q)"
proof -
  obtain q where "alloc pool_ffi silent_hooks demo_layout pool_start = (Done 4096, q)"
    "bytes_at (mach q) 4096 = Some (replicate 4096 0)"
    using demo_alloc_run by blast
  then show ?thesis
    by (simp add: numeral_3_eq_3 run_then_def store_byte_def load_byte_def put_block_def)
qed

theorem run_client_correct_witness:
  "\<exists>A q. run_client pool_ffi silent_hooks demo_client 3 [] pool_start =
      (Done [(Alloc demo_layout, 4096), (Store 4096 0 7, 0), (Load 4096 0, 7)], q) \<and>
     allowed [(Alloc demo_layout, 4096), (Store 4096 0 7, 0), (Load 4096 0, 7)] A \<and> sim pool_heap A q"
  using run_client_correct [OF pool_heap_ok silent_hooks_ok demo_client_ok, of pool_start 3] demo_run
  by (auto simp: pool_heap_def pool_inv_def pool_start_def)

theorem release_entry_points_witness:
  "dealloc (pool_ffi\<lparr>debug_assertions := False, global_hooks := False\<rparr>) silent_hooks 4096 demo_layout =
     sdallocx (pool_ffi\<lparr>debug_assertions := False, global_hooks := False\<rparr>) 4096 16 0"
proof -
  let ?F = "pool_ffi\<lparr>debug_assertions := False, global_hooks := False\<rparr>"
  have "max (lsize demo_layout) 16 = 16" "layout_flags (demo_layout\<lparr>lsize := 16\<rparr>) = 0"
    by (simp_all add: demo_layout_def layout_flags_def QUANTUM_def max_def)
  with release_entry_points [OF demo_layout_ok, of ?F 4096 demo_layout silent_hooks] show ?thesis
    by simp
qed

end
