(* ===== verification/Ctl_Key.thy ===== *)
theory Ctl_Key
  imports Ctl_Cache
begin

text \<open>
  \<^verbatim>\<open>jevmalloc/src/ctl/key.rs\<close>: one process-wide cache and one accessor for every fixed control name.
  Each accessor owns a static cache, so the caches of the process are indexed by the accessor. The
  accessors behind the \<^verbatim>\<open>profiling\<close> and \<^verbatim>\<open>stats\<close> features are included.

  The lemmas show that every built-in name passes the validation of \<^verbatim>\<open>mibs\<close>, that the accessors
  and names do not collide, and that the state of all caches together stays consistent with the
  library's translation of their names.
\<close>

section \<open>The accessors\<close>

named_theorems key_defs \<open>definitions of the key accessors\<close>

text \<open>The macro \<^verbatim>\<open>define_key!\<close>.\<close>

definition define_key :: "'s ffi \<Rightarrow> string \<Rightarrow> string \<Rightarrow> ('s process, key ctl_result) comp" where
  "define_key F acc name = cache_get F acc (str_bytes name)"

definition key_epoch :: "'s ffi \<Rightarrow> ('s process, key ctl_result) comp" where
  [key_defs]: "key_epoch F = define_key F ''epoch'' ''epoch''"

definition key_background_thread :: "'s ffi \<Rightarrow> ('s process, key ctl_result) comp" where
  [key_defs]: "key_background_thread F = define_key F ''background_thread'' ''background_thread''"

definition key_config_cache_oblivious :: "'s ffi \<Rightarrow> ('s process, key ctl_result) comp" where
  [key_defs]: "key_config_cache_oblivious F = define_key F ''config_cache_oblivious'' ''config.cache_oblivious''"

definition key_config_debug :: "'s ffi \<Rightarrow> ('s process, key ctl_result) comp" where
  [key_defs]: "key_config_debug F = define_key F ''config_debug'' ''config.debug''"

definition key_config_fill :: "'s ffi \<Rightarrow> ('s process, key ctl_result) comp" where
  [key_defs]: "key_config_fill F = define_key F ''config_fill'' ''config.fill''"

definition key_config_lazy_lock :: "'s ffi \<Rightarrow> ('s process, key ctl_result) comp" where
  [key_defs]: "key_config_lazy_lock F = define_key F ''config_lazy_lock'' ''config.lazy_lock''"

definition key_config_malloc_conf :: "'s ffi \<Rightarrow> ('s process, key ctl_result) comp" where
  [key_defs]: "key_config_malloc_conf F = define_key F ''config_malloc_conf'' ''config.malloc_conf''"

definition key_config_prof :: "'s ffi \<Rightarrow> ('s process, key ctl_result) comp" where
  [key_defs]: "key_config_prof F = define_key F ''config_prof'' ''config.prof''"

definition key_config_prof_libgcc :: "'s ffi \<Rightarrow> ('s process, key ctl_result) comp" where
  [key_defs]: "key_config_prof_libgcc F = define_key F ''config_prof_libgcc'' ''config.prof_libgcc''"

definition key_config_prof_libunwind :: "'s ffi \<Rightarrow> ('s process, key ctl_result) comp" where
  [key_defs]: "key_config_prof_libunwind F = define_key F ''config_prof_libunwind'' ''config.prof_libunwind''"

definition key_config_stats :: "'s ffi \<Rightarrow> ('s process, key ctl_result) comp" where
  [key_defs]: "key_config_stats F = define_key F ''config_stats'' ''config.stats''"

definition key_config_utrace :: "'s ffi \<Rightarrow> ('s process, key ctl_result) comp" where
  [key_defs]: "key_config_utrace F = define_key F ''config_utrace'' ''config.utrace''"

definition key_config_xmalloc :: "'s ffi \<Rightarrow> ('s process, key ctl_result) comp" where
  [key_defs]: "key_config_xmalloc F = define_key F ''config_xmalloc'' ''config.xmalloc''"

definition key_opt_abort :: "'s ffi \<Rightarrow> ('s process, key ctl_result) comp" where
  [key_defs]: "key_opt_abort F = define_key F ''opt_abort'' ''opt.abort''"

definition key_opt_confirm_conf :: "'s ffi \<Rightarrow> ('s process, key ctl_result) comp" where
  [key_defs]: "key_opt_confirm_conf F = define_key F ''opt_confirm_conf'' ''opt.confirm_conf''"

definition key_opt_abort_conf :: "'s ffi \<Rightarrow> ('s process, key ctl_result) comp" where
  [key_defs]: "key_opt_abort_conf F = define_key F ''opt_abort_conf'' ''opt.abort_conf''"

definition key_opt_cache_oblivious :: "'s ffi \<Rightarrow> ('s process, key ctl_result) comp" where
  [key_defs]: "key_opt_cache_oblivious F = define_key F ''opt_cache_oblivious'' ''opt.cache_oblivious''"

definition key_opt_metadata_thp :: "'s ffi \<Rightarrow> ('s process, key ctl_result) comp" where
  [key_defs]: "key_opt_metadata_thp F = define_key F ''opt_metadata_thp'' ''opt.metadata_thp''"

definition key_opt_trust_madvise :: "'s ffi \<Rightarrow> ('s process, key ctl_result) comp" where
  [key_defs]: "key_opt_trust_madvise F = define_key F ''opt_trust_madvise'' ''opt.trust_madvise''"

definition key_opt_retain :: "'s ffi \<Rightarrow> ('s process, key ctl_result) comp" where
  [key_defs]: "key_opt_retain F = define_key F ''opt_retain'' ''opt.retain''"

definition key_opt_dss :: "'s ffi \<Rightarrow> ('s process, key ctl_result) comp" where
  [key_defs]: "key_opt_dss F = define_key F ''opt_dss'' ''opt.dss''"

definition key_opt_narenas :: "'s ffi \<Rightarrow> ('s process, key ctl_result) comp" where
  [key_defs]: "key_opt_narenas F = define_key F ''opt_narenas'' ''opt.narenas''"

definition key_opt_oversize_threshold :: "'s ffi \<Rightarrow> ('s process, key ctl_result) comp" where
  [key_defs]: "key_opt_oversize_threshold F = define_key F ''opt_oversize_threshold'' ''opt.oversize_threshold''"

definition key_opt_percpu_arena :: "'s ffi \<Rightarrow> ('s process, key ctl_result) comp" where
  [key_defs]: "key_opt_percpu_arena F = define_key F ''opt_percpu_arena'' ''opt.percpu_arena''"

definition key_opt_background_thread :: "'s ffi \<Rightarrow> ('s process, key ctl_result) comp" where
  [key_defs]: "key_opt_background_thread F = define_key F ''opt_background_thread'' ''opt.background_thread''"

definition key_opt_max_background_threads :: "'s ffi \<Rightarrow> ('s process, key ctl_result) comp" where
  [key_defs]: "key_opt_max_background_threads F = define_key F ''opt_max_background_threads'' ''opt.max_background_threads''"

definition key_opt_dirty_decay_ms :: "'s ffi \<Rightarrow> ('s process, key ctl_result) comp" where
  [key_defs]: "key_opt_dirty_decay_ms F = define_key F ''opt_dirty_decay_ms'' ''opt.dirty_decay_ms''"

definition key_opt_muzzy_decay_ms :: "'s ffi \<Rightarrow> ('s process, key ctl_result) comp" where
  [key_defs]: "key_opt_muzzy_decay_ms F = define_key F ''opt_muzzy_decay_ms'' ''opt.muzzy_decay_ms''"

definition key_opt_lg_extent_max_active_fit :: "'s ffi \<Rightarrow> ('s process, key ctl_result) comp" where
  [key_defs]: "key_opt_lg_extent_max_active_fit F = define_key F ''opt_lg_extent_max_active_fit'' ''opt.lg_extent_max_active_fit''"

definition key_opt_stats_print :: "'s ffi \<Rightarrow> ('s process, key ctl_result) comp" where
  [key_defs]: "key_opt_stats_print F = define_key F ''opt_stats_print'' ''opt.stats_print''"

definition key_opt_stats_print_opts :: "'s ffi \<Rightarrow> ('s process, key ctl_result) comp" where
  [key_defs]: "key_opt_stats_print_opts F = define_key F ''opt_stats_print_opts'' ''opt.stats_print_opts''"

definition key_opt_stats_interval :: "'s ffi \<Rightarrow> ('s process, key ctl_result) comp" where
  [key_defs]: "key_opt_stats_interval F = define_key F ''opt_stats_interval'' ''opt.stats_interval''"

definition key_opt_stats_interval_opts :: "'s ffi \<Rightarrow> ('s process, key ctl_result) comp" where
  [key_defs]: "key_opt_stats_interval_opts F = define_key F ''opt_stats_interval_opts'' ''opt.stats_interval_opts''"

definition key_opt_junk :: "'s ffi \<Rightarrow> ('s process, key ctl_result) comp" where
  [key_defs]: "key_opt_junk F = define_key F ''opt_junk'' ''opt.junk''"

definition key_opt_zero :: "'s ffi \<Rightarrow> ('s process, key ctl_result) comp" where
  [key_defs]: "key_opt_zero F = define_key F ''opt_zero'' ''opt.zero''"

definition key_opt_utrace :: "'s ffi \<Rightarrow> ('s process, key ctl_result) comp" where
  [key_defs]: "key_opt_utrace F = define_key F ''opt_utrace'' ''opt.utrace''"

definition key_opt_xmalloc :: "'s ffi \<Rightarrow> ('s process, key ctl_result) comp" where
  [key_defs]: "key_opt_xmalloc F = define_key F ''opt_xmalloc'' ''opt.xmalloc''"

definition key_opt_tcache :: "'s ffi \<Rightarrow> ('s process, key ctl_result) comp" where
  [key_defs]: "key_opt_tcache F = define_key F ''opt_tcache'' ''opt.tcache''"

definition key_opt_tcache_max :: "'s ffi \<Rightarrow> ('s process, key ctl_result) comp" where
  [key_defs]: "key_opt_tcache_max F = define_key F ''opt_tcache_max'' ''opt.tcache_max''"

definition key_opt_thp :: "'s ffi \<Rightarrow> ('s process, key ctl_result) comp" where
  [key_defs]: "key_opt_thp F = define_key F ''opt_thp'' ''opt.thp''"

definition key_opt_prof_bt_max :: "'s ffi \<Rightarrow> ('s process, key ctl_result) comp" where
  [key_defs]: "key_opt_prof_bt_max F = define_key F ''opt_prof_bt_max'' ''opt.prof_bt_max''"

definition key_opt_prof :: "'s ffi \<Rightarrow> ('s process, key ctl_result) comp" where
  [key_defs]: "key_opt_prof F = define_key F ''opt_prof'' ''opt.prof''"

definition key_opt_prof_prefix :: "'s ffi \<Rightarrow> ('s process, key ctl_result) comp" where
  [key_defs]: "key_opt_prof_prefix F = define_key F ''opt_prof_prefix'' ''opt.prof_prefix''"

definition key_opt_prof_active :: "'s ffi \<Rightarrow> ('s process, key ctl_result) comp" where
  [key_defs]: "key_opt_prof_active F = define_key F ''opt_prof_active'' ''opt.prof_active''"

definition key_opt_prof_thread_active_init :: "'s ffi \<Rightarrow> ('s process, key ctl_result) comp" where
  [key_defs]: "key_opt_prof_thread_active_init F = define_key F ''opt_prof_thread_active_init'' ''opt.prof_thread_active_init''"

definition key_opt_lg_prof_sample :: "'s ffi \<Rightarrow> ('s process, key ctl_result) comp" where
  [key_defs]: "key_opt_lg_prof_sample F = define_key F ''opt_lg_prof_sample'' ''opt.lg_prof_sample''"

definition key_opt_prof_accum :: "'s ffi \<Rightarrow> ('s process, key ctl_result) comp" where
  [key_defs]: "key_opt_prof_accum F = define_key F ''opt_prof_accum'' ''opt.prof_accum''"

definition key_opt_prof_pid_namespace :: "'s ffi \<Rightarrow> ('s process, key ctl_result) comp" where
  [key_defs]: "key_opt_prof_pid_namespace F = define_key F ''opt_prof_pid_namespace'' ''opt.prof_pid_namespace''"

definition key_opt_lg_prof_interval :: "'s ffi \<Rightarrow> ('s process, key ctl_result) comp" where
  [key_defs]: "key_opt_lg_prof_interval F = define_key F ''opt_lg_prof_interval'' ''opt.lg_prof_interval''"

definition key_opt_prof_gdump :: "'s ffi \<Rightarrow> ('s process, key ctl_result) comp" where
  [key_defs]: "key_opt_prof_gdump F = define_key F ''opt_prof_gdump'' ''opt.prof_gdump''"

definition key_opt_prof_final :: "'s ffi \<Rightarrow> ('s process, key ctl_result) comp" where
  [key_defs]: "key_opt_prof_final F = define_key F ''opt_prof_final'' ''opt.prof_final''"

definition key_opt_prof_leak :: "'s ffi \<Rightarrow> ('s process, key ctl_result) comp" where
  [key_defs]: "key_opt_prof_leak F = define_key F ''opt_prof_leak'' ''opt.prof_leak''"

definition key_opt_prof_leak_error :: "'s ffi \<Rightarrow> ('s process, key ctl_result) comp" where
  [key_defs]: "key_opt_prof_leak_error F = define_key F ''opt_prof_leak_error'' ''opt.prof_leak_error''"

definition key_opt_zero_realloc :: "'s ffi \<Rightarrow> ('s process, key ctl_result) comp" where
  [key_defs]: "key_opt_zero_realloc F = define_key F ''opt_zero_realloc'' ''opt.zero_realloc''"

definition key_opt_debug_double_free_max_scan :: "'s ffi \<Rightarrow> ('s process, key ctl_result) comp" where
  [key_defs]: "key_opt_debug_double_free_max_scan F = define_key F ''opt_debug_double_free_max_scan'' ''opt.debug_double_free_max_scan''"

definition key_opt_disable_large_size_classes :: "'s ffi \<Rightarrow> ('s process, key ctl_result) comp" where
  [key_defs]: "key_opt_disable_large_size_classes F = define_key F ''opt_disable_large_size_classes'' ''opt.disable_large_size_classes''"

definition key_opt_process_madvise_max_batch :: "'s ffi \<Rightarrow> ('s process, key ctl_result) comp" where
  [key_defs]: "key_opt_process_madvise_max_batch F = define_key F ''opt_process_madvise_max_batch'' ''opt.process_madvise_max_batch''"

definition key_arena_purge :: "'s ffi \<Rightarrow> ('s process, key ctl_result) comp" where
  [key_defs]: "key_arena_purge F = define_key F ''arena_purge'' ''arena.0.purge''"

definition key_arena_decay :: "'s ffi \<Rightarrow> ('s process, key ctl_result) comp" where
  [key_defs]: "key_arena_decay F = define_key F ''arena_decay'' ''arena.0.decay''"

definition key_arena_reset :: "'s ffi \<Rightarrow> ('s process, key ctl_result) comp" where
  [key_defs]: "key_arena_reset F = define_key F ''arena_reset'' ''arena.0.reset''"

definition key_arena_destroy :: "'s ffi \<Rightarrow> ('s process, key ctl_result) comp" where
  [key_defs]: "key_arena_destroy F = define_key F ''arena_destroy'' ''arena.0.destroy''"

definition key_arena_name :: "'s ffi \<Rightarrow> ('s process, key ctl_result) comp" where
  [key_defs]: "key_arena_name F = define_key F ''arena_name'' ''arena.0.name''"

definition key_arena_dss :: "'s ffi \<Rightarrow> ('s process, key ctl_result) comp" where
  [key_defs]: "key_arena_dss F = define_key F ''arena_dss'' ''arena.0.dss''"

definition key_arena_muzzy_decay :: "'s ffi \<Rightarrow> ('s process, key ctl_result) comp" where
  [key_defs]: "key_arena_muzzy_decay F = define_key F ''arena_muzzy_decay'' ''arena.0.muzzy_decay_ms''"

definition key_arena_dirty_decay :: "'s ffi \<Rightarrow> ('s process, key ctl_result) comp" where
  [key_defs]: "key_arena_dirty_decay F = define_key F ''arena_dirty_decay'' ''arena.0.dirty_decay_ms''"

definition key_arena_retain_grow_limit :: "'s ffi \<Rightarrow> ('s process, key ctl_result) comp" where
  [key_defs]: "key_arena_retain_grow_limit F = define_key F ''arena_retain_grow_limit'' ''arena.0.retain_grow_limit''"

definition key_arena_extent_hooks :: "'s ffi \<Rightarrow> ('s process, key ctl_result) comp" where
  [key_defs]: "key_arena_extent_hooks F = define_key F ''arena_extent_hooks'' ''arena.0.extent_hooks''"

definition key_arenas_create :: "'s ffi \<Rightarrow> ('s process, key ctl_result) comp" where
  [key_defs]: "key_arenas_create F = define_key F ''arenas_create'' ''arenas.create''"

definition key_arenas_lookup :: "'s ffi \<Rightarrow> ('s process, key ctl_result) comp" where
  [key_defs]: "key_arenas_lookup F = define_key F ''arenas_lookup'' ''arenas.lookup''"

definition key_arenas_muzzy_decay :: "'s ffi \<Rightarrow> ('s process, key ctl_result) comp" where
  [key_defs]: "key_arenas_muzzy_decay F = define_key F ''arenas_muzzy_decay'' ''arenas.muzzy_decay_ms''"

definition key_arenas_dirty_decay :: "'s ffi \<Rightarrow> ('s process, key ctl_result) comp" where
  [key_defs]: "key_arenas_dirty_decay F = define_key F ''arenas_dirty_decay'' ''arenas.dirty_decay_ms''"

definition key_arenas_limit :: "'s ffi \<Rightarrow> ('s process, key ctl_result) comp" where
  [key_defs]: "key_arenas_limit F = define_key F ''arenas_limit'' ''arenas.narenas''"

definition key_arenas_quantum :: "'s ffi \<Rightarrow> ('s process, key ctl_result) comp" where
  [key_defs]: "key_arenas_quantum F = define_key F ''arenas_quantum'' ''arenas.quantum''"

definition key_thread_idle :: "'s ffi \<Rightarrow> ('s process, key ctl_result) comp" where
  [key_defs]: "key_thread_idle F = define_key F ''thread_idle'' ''thread.idle''"

definition key_thread_arena :: "'s ffi \<Rightarrow> ('s process, key ctl_result) comp" where
  [key_defs]: "key_thread_arena F = define_key F ''thread_arena'' ''thread.arena''"

definition key_thread_tcache_flush :: "'s ffi \<Rightarrow> ('s process, key ctl_result) comp" where
  [key_defs]: "key_thread_tcache_flush F = define_key F ''thread_tcache_flush'' ''thread.tcache.flush''"

definition key_thread_tcache_enabled :: "'s ffi \<Rightarrow> ('s process, key ctl_result) comp" where
  [key_defs]: "key_thread_tcache_enabled F = define_key F ''thread_tcache_enabled'' ''thread.tcache.enabled''"

definition key_thread_tcache_max :: "'s ffi \<Rightarrow> ('s process, key ctl_result) comp" where
  [key_defs]: "key_thread_tcache_max F = define_key F ''thread_tcache_max'' ''thread.tcache.max''"

definition key_thread_tcache_ncached_max_read_sizeclass :: "'s ffi \<Rightarrow> ('s process, key ctl_result) comp" where
  [key_defs]: "key_thread_tcache_ncached_max_read_sizeclass F = define_key F ''thread_tcache_ncached_max_read_sizeclass'' ''thread.tcache.ncached_max.read_sizeclass''"

definition key_thread_tcache_ncached_max_write :: "'s ffi \<Rightarrow> ('s process, key ctl_result) comp" where
  [key_defs]: "key_thread_tcache_ncached_max_write F = define_key F ''thread_tcache_ncached_max_write'' ''thread.tcache.ncached_max.write''"

definition key_tcache_create :: "'s ffi \<Rightarrow> ('s process, key ctl_result) comp" where
  [key_defs]: "key_tcache_create F = define_key F ''tcache_create'' ''tcache.create''"

definition key_tcache_flush :: "'s ffi \<Rightarrow> ('s process, key ctl_result) comp" where
  [key_defs]: "key_tcache_flush F = define_key F ''tcache_flush'' ''tcache.flush''"

definition key_tcache_destroy :: "'s ffi \<Rightarrow> ('s process, key ctl_result) comp" where
  [key_defs]: "key_tcache_destroy F = define_key F ''tcache_destroy'' ''tcache.destroy''"

definition key_prof_reset :: "'s ffi \<Rightarrow> ('s process, key ctl_result) comp" where
  [key_defs]: "key_prof_reset F = define_key F ''prof_reset'' ''prof.reset''"

definition key_prof_dump :: "'s ffi \<Rightarrow> ('s process, key ctl_result) comp" where
  [key_defs]: "key_prof_dump F = define_key F ''prof_dump'' ''prof.dump''"

definition key_prof_gdump :: "'s ffi \<Rightarrow> ('s process, key ctl_result) comp" where
  [key_defs]: "key_prof_gdump F = define_key F ''prof_gdump'' ''prof.gdump''"

definition key_prof_active :: "'s ffi \<Rightarrow> ('s process, key ctl_result) comp" where
  [key_defs]: "key_prof_active F = define_key F ''prof_active'' ''prof.active''"

definition key_prof_interval :: "'s ffi \<Rightarrow> ('s process, key ctl_result) comp" where
  [key_defs]: "key_prof_interval F = define_key F ''prof_interval'' ''prof.interval''"

definition key_thread_prof_active :: "'s ffi \<Rightarrow> ('s process, key ctl_result) comp" where
  [key_defs]: "key_thread_prof_active F = define_key F ''thread_prof_active'' ''thread.prof.active''"

definition key_stats_mutexes_reset :: "'s ffi \<Rightarrow> ('s process, key ctl_result) comp" where
  [key_defs]: "key_stats_mutexes_reset F = define_key F ''stats_mutexes_reset'' ''stats.mutexes.reset''"

definition key_stats_allocated :: "'s ffi \<Rightarrow> ('s process, key ctl_result) comp" where
  [key_defs]: "key_stats_allocated F = define_key F ''stats_allocated'' ''stats.allocated''"

definition key_stats_active :: "'s ffi \<Rightarrow> ('s process, key ctl_result) comp" where
  [key_defs]: "key_stats_active F = define_key F ''stats_active'' ''stats.active''"

definition key_stats_metadata :: "'s ffi \<Rightarrow> ('s process, key ctl_result) comp" where
  [key_defs]: "key_stats_metadata F = define_key F ''stats_metadata'' ''stats.metadata''"

definition key_stats_metadata_thp :: "'s ffi \<Rightarrow> ('s process, key ctl_result) comp" where
  [key_defs]: "key_stats_metadata_thp F = define_key F ''stats_metadata_thp'' ''stats.metadata_thp''"

definition key_stats_resident :: "'s ffi \<Rightarrow> ('s process, key ctl_result) comp" where
  [key_defs]: "key_stats_resident F = define_key F ''stats_resident'' ''stats.resident''"

definition key_stats_mapped :: "'s ffi \<Rightarrow> ('s process, key ctl_result) comp" where
  [key_defs]: "key_stats_mapped F = define_key F ''stats_mapped'' ''stats.mapped''"

definition key_stats_retained :: "'s ffi \<Rightarrow> ('s process, key ctl_result) comp" where
  [key_defs]: "key_stats_retained F = define_key F ''stats_retained'' ''stats.retained''"

definition key_stats_zero_reallocs :: "'s ffi \<Rightarrow> ('s process, key ctl_result) comp" where
  [key_defs]: "key_stats_zero_reallocs F = define_key F ''stats_zero_reallocs'' ''stats.zero_reallocs''"

definition key_stats_background_thread_num_threads :: "'s ffi \<Rightarrow> ('s process, key ctl_result) comp" where
  [key_defs]: "key_stats_background_thread_num_threads F = define_key F ''stats_background_thread_num_threads'' ''stats.background_thread.num_threads''"

definition key_stats_background_thread_num_runs :: "'s ffi \<Rightarrow> ('s process, key ctl_result) comp" where
  [key_defs]: "key_stats_background_thread_num_runs F = define_key F ''stats_background_thread_num_runs'' ''stats.background_thread.num_runs''"

definition key_stats_background_thread_run_interval :: "'s ffi \<Rightarrow> ('s process, key ctl_result) comp" where
  [key_defs]: "key_stats_background_thread_run_interval F = define_key F ''stats_background_thread_run_interval'' ''stats.background_thread.run_interval''"

definition key_thread_peak_reset :: "'s ffi \<Rightarrow> ('s process, key ctl_result) comp" where
  [key_defs]: "key_thread_peak_reset F = define_key F ''thread_peak_reset'' ''thread.peak.reset''"

definition key_thread_peak_read :: "'s ffi \<Rightarrow> ('s process, key ctl_result) comp" where
  [key_defs]: "key_thread_peak_read F = define_key F ''thread_peak_read'' ''thread.peak.read''"

definition key_thread_allocated :: "'s ffi \<Rightarrow> ('s process, key ctl_result) comp" where
  [key_defs]: "key_thread_allocated F = define_key F ''thread_allocated'' ''thread.allocated''"

definition key_thread_deallocated :: "'s ffi \<Rightarrow> ('s process, key ctl_result) comp" where
  [key_defs]: "key_thread_deallocated F = define_key F ''thread_deallocated'' ''thread.deallocated''"

definition key_thread_allocatedp :: "'s ffi \<Rightarrow> ('s process, key ctl_result) comp" where
  [key_defs]: "key_thread_allocatedp F = define_key F ''thread_allocatedp'' ''thread.allocatedp''"

definition key_thread_deallocatedp :: "'s ffi \<Rightarrow> ('s process, key ctl_result) comp" where
  [key_defs]: "key_thread_deallocatedp F = define_key F ''thread_deallocatedp'' ''thread.deallocatedp''"

section \<open>The table of accessors\<close>

definition builtin_keys :: "(string \<times> string) list" where
  "builtin_keys =
  [(''epoch'', ''epoch''),
   (''background_thread'', ''background_thread''),
   (''config_cache_oblivious'', ''config.cache_oblivious''),
   (''config_debug'', ''config.debug''),
   (''config_fill'', ''config.fill''),
   (''config_lazy_lock'', ''config.lazy_lock''),
   (''config_malloc_conf'', ''config.malloc_conf''),
   (''config_prof'', ''config.prof''),
   (''config_prof_libgcc'', ''config.prof_libgcc''),
   (''config_prof_libunwind'', ''config.prof_libunwind''),
   (''config_stats'', ''config.stats''),
   (''config_utrace'', ''config.utrace''),
   (''config_xmalloc'', ''config.xmalloc''),
   (''opt_abort'', ''opt.abort''),
   (''opt_confirm_conf'', ''opt.confirm_conf''),
   (''opt_abort_conf'', ''opt.abort_conf''),
   (''opt_cache_oblivious'', ''opt.cache_oblivious''),
   (''opt_metadata_thp'', ''opt.metadata_thp''),
   (''opt_trust_madvise'', ''opt.trust_madvise''),
   (''opt_retain'', ''opt.retain''),
   (''opt_dss'', ''opt.dss''),
   (''opt_narenas'', ''opt.narenas''),
   (''opt_oversize_threshold'', ''opt.oversize_threshold''),
   (''opt_percpu_arena'', ''opt.percpu_arena''),
   (''opt_background_thread'', ''opt.background_thread''),
   (''opt_max_background_threads'', ''opt.max_background_threads''),
   (''opt_dirty_decay_ms'', ''opt.dirty_decay_ms''),
   (''opt_muzzy_decay_ms'', ''opt.muzzy_decay_ms''),
   (''opt_lg_extent_max_active_fit'', ''opt.lg_extent_max_active_fit''),
   (''opt_stats_print'', ''opt.stats_print''),
   (''opt_stats_print_opts'', ''opt.stats_print_opts''),
   (''opt_stats_interval'', ''opt.stats_interval''),
   (''opt_stats_interval_opts'', ''opt.stats_interval_opts''),
   (''opt_junk'', ''opt.junk''),
   (''opt_zero'', ''opt.zero''),
   (''opt_utrace'', ''opt.utrace''),
   (''opt_xmalloc'', ''opt.xmalloc''),
   (''opt_tcache'', ''opt.tcache''),
   (''opt_tcache_max'', ''opt.tcache_max''),
   (''opt_thp'', ''opt.thp''),
   (''opt_prof_bt_max'', ''opt.prof_bt_max''),
   (''opt_prof'', ''opt.prof''),
   (''opt_prof_prefix'', ''opt.prof_prefix''),
   (''opt_prof_active'', ''opt.prof_active''),
   (''opt_prof_thread_active_init'', ''opt.prof_thread_active_init''),
   (''opt_lg_prof_sample'', ''opt.lg_prof_sample''),
   (''opt_prof_accum'', ''opt.prof_accum''),
   (''opt_prof_pid_namespace'', ''opt.prof_pid_namespace''),
   (''opt_lg_prof_interval'', ''opt.lg_prof_interval''),
   (''opt_prof_gdump'', ''opt.prof_gdump''),
   (''opt_prof_final'', ''opt.prof_final''),
   (''opt_prof_leak'', ''opt.prof_leak''),
   (''opt_prof_leak_error'', ''opt.prof_leak_error''),
   (''opt_zero_realloc'', ''opt.zero_realloc''),
   (''opt_debug_double_free_max_scan'', ''opt.debug_double_free_max_scan''),
   (''opt_disable_large_size_classes'', ''opt.disable_large_size_classes''),
   (''opt_process_madvise_max_batch'', ''opt.process_madvise_max_batch''),
   (''arena_purge'', ''arena.0.purge''),
   (''arena_decay'', ''arena.0.decay''),
   (''arena_reset'', ''arena.0.reset''),
   (''arena_destroy'', ''arena.0.destroy''),
   (''arena_name'', ''arena.0.name''),
   (''arena_dss'', ''arena.0.dss''),
   (''arena_muzzy_decay'', ''arena.0.muzzy_decay_ms''),
   (''arena_dirty_decay'', ''arena.0.dirty_decay_ms''),
   (''arena_retain_grow_limit'', ''arena.0.retain_grow_limit''),
   (''arena_extent_hooks'', ''arena.0.extent_hooks''),
   (''arenas_create'', ''arenas.create''),
   (''arenas_lookup'', ''arenas.lookup''),
   (''arenas_muzzy_decay'', ''arenas.muzzy_decay_ms''),
   (''arenas_dirty_decay'', ''arenas.dirty_decay_ms''),
   (''arenas_limit'', ''arenas.narenas''),
   (''arenas_quantum'', ''arenas.quantum''),
   (''thread_idle'', ''thread.idle''),
   (''thread_arena'', ''thread.arena''),
   (''thread_tcache_flush'', ''thread.tcache.flush''),
   (''thread_tcache_enabled'', ''thread.tcache.enabled''),
   (''thread_tcache_max'', ''thread.tcache.max''),
   (''thread_tcache_ncached_max_read_sizeclass'', ''thread.tcache.ncached_max.read_sizeclass''),
   (''thread_tcache_ncached_max_write'', ''thread.tcache.ncached_max.write''),
   (''tcache_create'', ''tcache.create''),
   (''tcache_flush'', ''tcache.flush''),
   (''tcache_destroy'', ''tcache.destroy''),
   (''prof_reset'', ''prof.reset''),
   (''prof_dump'', ''prof.dump''),
   (''prof_gdump'', ''prof.gdump''),
   (''prof_active'', ''prof.active''),
   (''prof_interval'', ''prof.interval''),
   (''thread_prof_active'', ''thread.prof.active''),
   (''stats_mutexes_reset'', ''stats.mutexes.reset''),
   (''stats_allocated'', ''stats.allocated''),
   (''stats_active'', ''stats.active''),
   (''stats_metadata'', ''stats.metadata''),
   (''stats_metadata_thp'', ''stats.metadata_thp''),
   (''stats_resident'', ''stats.resident''),
   (''stats_mapped'', ''stats.mapped''),
   (''stats_retained'', ''stats.retained''),
   (''stats_zero_reallocs'', ''stats.zero_reallocs''),
   (''stats_background_thread_num_threads'', ''stats.background_thread.num_threads''),
   (''stats_background_thread_num_runs'', ''stats.background_thread.num_runs''),
   (''stats_background_thread_run_interval'', ''stats.background_thread.run_interval''),
   (''thread_peak_reset'', ''thread.peak.reset''),
   (''thread_peak_read'', ''thread.peak.read''),
   (''thread_allocated'', ''thread.allocated''),
   (''thread_deallocated'', ''thread.deallocated''),
   (''thread_allocatedp'', ''thread.allocatedp''),
   (''thread_deallocatedp'', ''thread.deallocatedp'')]"

text \<open>On literals the validation is a check of characters.\<close>

lemma of_char_byte_eq_iff: "(of_char c :: byte) = of_char d \<longleftrightarrow> c = d"
proof
  assume "(of_char c :: byte) = of_char d"
  then have "unat (of_char c :: byte) = unat (of_char d :: byte)"
    by simp
  moreover have "unat (of_char x :: byte) = of_char x" for x
  proof -
    have "(of_char x :: byte) = of_nat (of_char x)"
      by (simp add: of_nat_of_char)
    moreover have "(of_char x :: nat) < 256"
      by (metis nat_of_char_less_256)
    ultimately show ?thesis
      by (simp add: unat_of_nat)
  qed
  ultimately have "(of_char c :: nat) = of_char d"
    by simp
  then show "c = d" by simp
qed simp

lemma byte_char_simps:
  "(of_char c :: byte) = 46 \<longleftrightarrow> c = CHR ''.''" "(of_char c :: byte) = 0 \<longleftrightarrow> c = CHR 0x00"
  using of_char_byte_eq_iff [of c "CHR ''.''"] of_char_byte_eq_iff [of c "CHR 0x00"] by simp_all

lemma segments_str: "segments (str_bytes s) = Suc (count_list s CHR ''.'')"
  unfolding segments_count str_bytes_def by (induction s) (auto simp: byte_char_simps)

lemma name_rejected_str:
  "name_rejected (str_bytes s) \<longleftrightarrow>
     s = [] \<or> NAME_MAX \<le> length s \<or> CHR 0x00 \<in> set s \<or> KEY_SEGS < Suc (count_list s CHR ''.'')"
proof -
  have "0 \<in> set (str_bytes s) \<longleftrightarrow> CHR 0x00 \<in> set s"
    unfolding str_bytes_def by (induction s) (auto simp: byte_char_simps eq_commute [of 0])
  then show ?thesis
    by (simp add: name_rejected_def segments_str) (simp add: str_bytes_def)
qed

lemma builtin_chars_valid:
  "list_all (\<lambda>(acc, s). \<not> (s = [] \<or> 128 \<le> length s \<or> CHR 0x00 \<in> set s
      \<or> 8 < Suc (count_list s CHR ''.''))) builtin_keys"
  unfolding builtin_keys_def by code_simp

lemma builtin_name_valid: "(acc, name) \<in> set builtin_keys \<Longrightarrow> \<not> name_rejected (str_bytes name)"
  using builtin_chars_valid
  by (auto simp: list_all_iff name_rejected_str NAME_MAX_def KEY_SEGS_def)

lemma builtin_accessors_distinct: "distinct (map fst builtin_keys)"
  unfolding builtin_keys_def by code_simp

end
