(* ===== verification/Key_Invariant.thy ===== *)
theory Key_Invariant
  imports Ctl_Key
begin

text \<open>
  The invariant of all key caches of the process together: every cache is empty or holds a key the
  library resolved its name to. Every accessor keeps it and every foreign call keeps it, so it holds
  from start-up on; the safety of all typed controls rests on it.
\<close>

section \<open>Resolution\<close>

text \<open>The library translates the name to the key in some state.\<close>

definition resolves :: "'s ffi \<Rightarrow> byte list \<Rightarrow> key \<Rightarrow> bool" where
  "resolves F name k \<longleftrightarrow> (\<exists>m slots len m'.
     c_nametomib F (name_buf name) (of_nat KEY_SEGS) m = (Done (0, slots, len), m') \<and>
     those (take (unat len) slots) = Some k)"

lemma mibs_resolves:
  assumes "mibs F name p = (Done (Inr k), q)"
  shows "resolves F name k"
proof -
  from assms obtain slots len where
    call: "mallctlnametomib F (name_buf name) (of_nat KEY_SEGS) p = (Done (0, slots, len), q)"
    and "those (take (unat len) slots) = Some k"
    by (auto simp: mibs_def run_then_Done_iff run_try_Ok_iff set_len_Done_iff invalid_argument_def
        split: if_splits)
  then show ?thesis
    unfolding resolves_def mallctlnametomib_def foreign_Done_iff by blast
qed

section \<open>The table\<close>

text \<open>Membership in the table, as one rewrite rule for every accessor.\<close>

definition key_table :: "(string \<times> string) set" where
  "key_table = set builtin_keys"

lemma key_table_all: "list_all (\<lambda>x. x \<in> key_table) builtin_keys"
  by (simp add: list_all_iff key_table_def)

lemmas key_table_member [simp] = key_table_all [unfolded builtin_keys_def list.pred_inject]

section \<open>The invariant\<close>

definition key_ok :: "'s ffi \<Rightarrow> string \<Rightarrow> string \<Rightarrow> 's process \<Rightarrow> bool" where
  "key_ok F acc name p \<longleftrightarrow> cache_wf_at acc (str_bytes name) p \<and>
     (\<forall>k. cached acc p = Some k \<longrightarrow> resolves F (str_bytes name) k)"

definition caches_ok :: "'s ffi \<Rightarrow> 's process \<Rightarrow> bool" where
  "caches_ok F p \<longleftrightarrow> (\<forall>(acc, name) \<in> key_table. key_ok F acc name p)"

lemma caches_okD: "caches_ok F p \<Longrightarrow> (acc, name) \<in> key_table \<Longrightarrow> key_ok F acc name p"
  by (auto simp: caches_ok_def)

lemma key_ok_caches: "caches q acc = caches p acc \<Longrightarrow> key_ok F acc name q = key_ok F acc name p"
  by (simp add: key_ok_def cache_wf_at_def cached_def)

lemma caches_ok_caches: "caches q = caches p \<Longrightarrow> caches_ok F q = caches_ok F p"
  by (simp add: caches_ok_def key_ok_def cache_wf_at_def cached_def)

lemma caches_ok_startup: "(\<And>acc. caches p acc = cache_new) \<Longrightarrow> caches_ok F p"
  by (auto simp: caches_ok_def key_ok_def cache_wf_at_def cached_def) (simp add: cache_new_def)

lemma cache_get_frame:
  assumes "cache_get F acc name p = (r, q)" and "cache_wf_at acc name p" and "acc' \<noteq> acc"
  shows "caches q acc' = caches p acc'"
proof (cases "cached acc p")
  case None
  obtain r' u where m: "mibs F name p = (r', u)" by fastforce
  then have "caches u = caches p" by (rule mibs_caches)
  with None assms m show ?thesis
    by (auto simp: cache_get_miss publish_def split: outcome.splits sum.splits)
next
  case (Some k)
  with assms show ?thesis
    by (simp add: cache_get_hit)
qed

text \<open>An accessor run from a consistent state leaves a consistent state, and a key it returns is
  one the library resolved the name to, of one component per segment.\<close>

lemma define_key_key_ok:
  assumes "key_ok F acc name p" and "define_key F acc name p = (r, q)"
  shows "key_ok F acc name q"
    and "r = Done (Inr k) \<Longrightarrow> resolves F (str_bytes name) k \<and> length k = segments (str_bytes name)"
proof -
  let ?n = "str_bytes name"
  have wf: "cache_wf_at acc ?n p" and get: "cache_get F acc ?n p = (r, q)"
    using assms by (auto simp: key_ok_def define_key_def)
  have res: "resolves F ?n k" if "r = Done (Inr k)" for k
  proof (cases "cached acc p")
    case None
    with get that have "\<exists>u. mibs F ?n p = (Done (Inr k), u)"
      by (auto simp: cache_get_miss split: prod.splits outcome.splits sum.splits)
    then show ?thesis by (auto intro: mibs_resolves)
  next
    case (Some k')
    with get that wf assms(1) show ?thesis by (auto simp: cache_get_hit key_ok_def)
  qed
  then show "r = Done (Inr k) \<Longrightarrow> resolves F ?n k \<and> length k = segments ?n"
    using cache_get_length [OF wf] get by auto
  have "resolves F ?n k" if "cached acc q = Some k" for k
  proof (cases "\<exists>k'. r = Done (Inr k')")
    case True
    with res get wf that show ?thesis using cell.filled by fastforce
  next
    case False
    then have none: "cached acc p = None"
      using get wf by (cases "cached acc p") (auto simp: cache_get_hit)
    with False get have "cache_get F acc ?n p = mibs F ?n p"
      by (intro cache_get_no_fill) (auto simp: cache_get_miss)
    with get have "caches q = caches p"
      by (auto intro: mibs_caches)
    with none that show ?thesis by (simp add: cached_def)
  qed
  then show "key_ok F acc name q"
    using cell.kept [OF wf get] by (simp add: key_ok_def)
qed

lemma builtin_key_unique:
  "(acc, n) \<in> key_table \<Longrightarrow> (acc, n') \<in> key_table \<Longrightarrow> n' = n"
  using builtin_accessors_distinct unfolding key_table_def by (metis eq_key_imp_eq_value)

lemma define_key_caches_ok:
  assumes "caches_ok F p" and mem: "(acc, name) \<in> key_table"
    and run: "define_key F acc name p = (r, q)"
  shows "caches_ok F q"
  unfolding caches_ok_def
proof (clarify)
  fix acc' name'
  assume mem': "(acc', name') \<in> key_table"
  show "key_ok F acc' name' q"
  proof (cases "acc' = acc")
    case True
    with mem mem' have "name' = name" by (blast intro: builtin_key_unique)
    with True show ?thesis
      using define_key_key_ok(1) [OF caches_okD [OF assms(1) mem] run] by simp
  next
    case False
    have "cache_wf_at acc (str_bytes name) p"
      using caches_okD [OF assms(1) mem] by (simp add: key_ok_def)
    then have "caches q acc' = caches p acc'"
      using run False cache_get_frame unfolding define_key_def by metis
    then show ?thesis
      using caches_okD [OF assms(1) mem'] by (simp add: key_ok_def cache_wf_at_def cached_def)
  qed
qed

section \<open>Consistent states\<close>

text \<open>The library's invariant holds and all caches are consistent.\<close>

definition keys_ok :: "'s ffi \<Rightarrow> 's process \<Rightarrow> bool" where
  "keys_ok F p \<longleftrightarrow> lib_inv F (mach p) \<and> caches_ok F p"

lemma keys_ok_closed [simp]: "mach_closed F (keys_ok F)"
  by (simp add: mach_closed_def keys_ok_def caches_ok_def key_ok_def cache_wf_at_def cached_def)

lemma keys_ok_startup: "lib_inv F (mach p) \<Longrightarrow> (\<And>acc. caches p acc = cache_new) \<Longrightarrow> keys_ok F p"
  by (simp add: keys_ok_def caches_ok_startup)

text \<open>An accessor never panics: it returns a key as above or a nonzero error.\<close>

lemma define_key_safe [safe_rules]:
  assumes "nametomib_ok F" and "errno_ok F" and mem: "(acc, name) \<in> key_table"
  shows "safe (keys_ok F) (define_key F acc name) (\<lambda>r q. keys_ok F q \<and> (case r of
     Inl e \<Rightarrow> error_wf e
   | Inr k \<Rightarrow> resolves F (str_bytes name) k \<and> length k = segments (str_bytes name)))"
proof (rule safeI)
  fix p :: "'a process"
  let ?n = "str_bytes name"
  assume "keys_ok F p"
  then have inv: "lib_inv F (mach p)" and ok: "caches_ok F p" by (simp_all add: keys_ok_def)
  then have ko: "key_ok F acc name p" by (intro caches_okD [OF _ mem])
  obtain r q where run: "define_key F acc name p = (r, q)" by fastforce
  obtain r' u where m: "mibs F ?n p = (Done r', u)" and u: "lib_inv F (mach u)"
    and e: "case r' of Inl e \<Rightarrow> error_wf e | Inr k \<Rightarrow> length k = segments ?n"
    using safeD [OF mibs_safe [OF assms(1,2), of ?n], of p] inv by auto
  have "\<exists>x. r = Done x \<and> (\<forall>e. x = Inl e \<longrightarrow> error_wf e) \<and> lib_inv F (mach q)"
    using run ko m e u inv
    by (cases "cached acc p")
       (auto simp: define_key_def key_ok_def cache_get_hit cache_get_miss publish_def split: sum.splits)
  with run define_key_key_ok(2) [OF ko run] define_key_caches_ok [OF ok mem run]
  show "\<exists>x t. define_key F acc name p = (Done x, t) \<and> keys_ok F t \<and> (case x of
     Inl e \<Rightarrow> error_wf e
   | Inr k \<Rightarrow> resolves F ?n k \<and> length k = segments ?n)"
    by (auto simp: keys_ok_def split: sum.splits)
qed

text \<open>
  What one accessor does, exactly. With its cache filled it returns the key and does nothing else. With
  an empty cache it calls the library once, with its own name; a nonzero status is the error, and on
  success the components the library wrote are the key, which the cache holds from then on.
\<close>

definition translated :: "'s ffi \<Rightarrow> string \<Rightarrow> 's process \<Rightarrow> 's machine \<Rightarrow> 's process" where
  "translated F name p m = p\<lparr>mach := m, trace := trace p @ [Call_nametomib (name_buf (str_bytes name))]\<rparr>"

lemma define_key_outcomes:
  assumes lib: "nametomib_ok F" "errno_ok F" and mem: "(acc, name) \<in> key_table" and ok: "keys_ok F p"
  obtains (hit) k where "cached acc p = Some k" "resolves F (str_bytes name) k"
      "length k = segments (str_bytes name)" "define_key F acc name p = (Done (Inr k), p)"
  | (refused) st slots len m where "cached acc p = None"
      "c_nametomib F (name_buf (str_bytes name)) (of_nat KEY_SEGS) (mach p) = (Done (st, slots, len), m)" "st \<noteq> 0"
      "keys_ok F (translated F name p m)" "define_key F acc name p = (Done (Inl (Error st)), translated F name p m)"
  | (filled) k slots len m where "cached acc p = None"
      "c_nametomib F (name_buf (str_bytes name)) (of_nat KEY_SEGS) (mach p) = (Done (0, slots, len), m)"
      "those (take (unat len) slots) = Some k" "length k = segments (str_bytes name)"
      "keys_ok F (snd (publish acc k (translated F name p m)))"
      "define_key F acc name p = (Done (Inr k), snd (publish acc k (translated F name p m)))"
proof -
  let ?n = "str_bytes name"
  have nr: "\<not> name_rejected ?n" using mem builtin_name_valid by (simp add: key_table_def)
  have ko: "key_ok F acc name p" and inv: "lib_inv F (mach p)"
    using ok mem by (auto simp: keys_ok_def dest: caches_okD)
  show thesis
  proof (cases "cached acc p")
    case (Some k)
    with ko have "define_key F acc name p = (Done (Inr k), p)" by (simp add: define_key_def key_ok_def cache_get_hit)
    with Some define_key_key_ok(2) [OF ko this refl] show thesis by (auto intro: hit)
  next
    case None
    from lib(1) nr inv obtain st slots len m where inv': "lib_inv F m"
      and c: "c_nametomib F (name_buf ?n) (of_nat KEY_SEGS) (mach p) = (Done (st, slots, len), m)"
      and good: "st = 0 \<Longrightarrow> unat len = min (segments ?n) KEY_SEGS \<and> unat len \<le> length slots \<and>
        (\<forall>x \<in> set (take (unat len) slots). x \<noteq> None)"
      unfolding nametomib_ok_def by metis
    then have call: "mallctlnametomib F (name_buf ?n) (of_nat KEY_SEGS) p = (Done (st, slots, len), translated F name p m)"
      by (simp add: mallctlnametomib_def foreign_def translated_def)
    have ok': "keys_ok F (translated F name p m)"
      using ok inv' caches_ok_caches [of "translated F name p m" p F] by (simp add: keys_ok_def translated_def)
    show thesis
    proof (cases "st = 0")
      case False
      with call nr have "mibs F ?n p = (Done (Inl (Error st)), translated F name p m)"
        by (simp add: mibs_def run_then_def run_try_eq into_result_def from_code_def)
      with None have "define_key F acc name p = (Done (Inl (Error st)), translated F name p m)"
        by (simp add: define_key_def cache_get_miss)
      from refused [OF None c False ok' this] show thesis .
    next
      case True
      with good obtain k where k: "those (take (unat len) slots) = Some k" using those_Some by blast
      moreover have "segments ?n \<le> KEY_SEGS" using nr by (simp add: name_rejected_def)
      ultimately have "mibs F ?n p = (Done (Inr k), translated F name p m)" and l: "length k = segments ?n"
        using call nr good True those_length [OF k]
        by (simp_all add: mibs_def run_then_def run_try_eq into_result_def set_len_def)
      with None have d: "define_key F acc name p = (Done (Inr k), snd (publish acc k (translated F name p m)))"
        by (simp add: define_key_def cache_get_miss)
      have "keys_ok F (snd (publish acc k (translated F name p m)))"
        using define_key_caches_ok [OF _ mem d] ok inv' by (simp add: keys_ok_def publish_def translated_def)
      from filled [OF None c [unfolded True] k l this d] show thesis .
    qed
  qed
qed

section \<open>Properties\<close>

text \<open>
  C12. Every built-in accessor, from start-up on and whatever was called before, returns a nonzero error
  or the key the library translated its own name to, with one component per segment; after a success
  every later call returns the same key and makes no call to the library.
\<close>

theorem key_accessor_correct:
  assumes "nametomib_ok F" and "errno_ok F" and "(acc, name) \<in> set builtin_keys" and "keys_ok F p"
  shows "\<exists>r q. define_key F acc name p = (Done r, q) \<and> keys_ok F q \<and> (case r of
      Inl e \<Rightarrow> error_wf e
    | Inr k \<Rightarrow> resolves F (str_bytes name) k \<and> length k = segments (str_bytes name) \<and>
        define_key F acc name q = (Done (Inr k), q))"
proof -
  have mem: "(acc, name) \<in> key_table" using assms(3) by (simp add: key_table_def)
  obtain r q where run: "define_key F acc name p = (Done r, q)" and q: "keys_ok F q" "case r of
      Inl e \<Rightarrow> error_wf e | Inr k \<Rightarrow> resolves F (str_bytes name) k \<and> length k = segments (str_bytes name)"
    using safeD [OF define_key_safe [OF assms(1,2) mem] assms(4)] by blast
  have wf: "cache_wf_at acc (str_bytes name) p"
    using assms(4) caches_okD [OF _ mem] by (auto simp: keys_ok_def key_ok_def)
  have "define_key F acc name q = (Done (Inr k), q)" if "r = Inr k" for k
    using cell.fetch_again [OF wf] run that unfolding define_key_def by blast
  with run q show ?thesis by (auto split: sum.splits)
qed

end
