(* ===== verification/Ctl_Value.thy ===== *)
theory Ctl_Value
  imports Key_Invariant
begin

text \<open>
  \<^verbatim>\<open>jevmalloc/src/ctl/value.rs\<close>: booleans in the representation of the target's C compiler and
  pointers to C strings. \<^verbatim>\<open>CBool\<close> is \<^verbatim>\<open>c_int\<close> on MSVC targets and \<^verbatim>\<open>bool\<close> elsewhere; the field
  \<open>target_msvc\<close> of the foreign interface selects.

  A boolean crosses the interface through one of two representations that satisfy the same laws,
  stated as the locale \<open>c_bool\<close> and interpreted for both.
\<close>

section \<open>The two representations\<close>

definition encode_bool_msvc :: "bool \<Rightarrow> c_int" where
  "encode_bool_msvc v = (if v then 1 else 0)"

definition decode_bool_msvc :: "c_int \<Rightarrow> bool" where
  "decode_bool_msvc v \<longleftrightarrow> v \<noteq> 0"

definition encode_bool :: "bool \<Rightarrow> bool" where
  "encode_bool v = v"

definition decode_bool :: "bool \<Rightarrow> bool" where
  "decode_bool v = v"

section \<open>Operations\<close>

definition get_bool :: "'s ffi \<Rightarrow> key \<Rightarrow> ('s process, bool ctl_result) comp" where
  "get_bool F k =
    (if target_msvc F then run_map decode_bool_msvc (raw_get F u32_repr k)
     else run_map decode_bool (raw_get F bool_repr k))"

definition get_cstr :: "'s ffi \<Rightarrow> key \<Rightarrow> ('s process, byte list ctl_result) comp" where
  "get_cstr F k =
     run_try (raw_get F ptr_repr k) (\<lambda>value.
     if value = 0 then fail (bad_address F)
     else run_then (read_c_str value) (\<lambda>s. ret (Inr s)))"

definition xchg_bool :: "'s ffi \<Rightarrow> key \<Rightarrow> bool \<Rightarrow> ('s process, bool ctl_result) comp" where
  "xchg_bool F k v =
    (if target_msvc F then run_map decode_bool_msvc (raw_xchg F u32_repr k (encode_bool_msvc v))
     else run_map decode_bool (raw_xchg F bool_repr k (encode_bool v)))"

section \<open>Exact results of the raw operations\<close>

text \<open>Which value a typed read or exchange yields, from what the library left in the buffer.\<close>

definition delivers :: "'a crepr \<Rightarrow> mib_reply \<Rightarrow> 'a \<Rightarrow> bool" where
  "delivers T rep v \<longleftrightarrow> status rep = 0 \<and> outlen rep = of_nat (rsize T) \<and>
     (\<exists>bs. those (out rep) = Some bs \<and> dec T bs = Some v)"

lemma assume_init_Done_iff:
  "assume_init T cells s = (Done v, t) \<longleftrightarrow> (\<exists>bs. those cells = Some bs \<and> dec T bs = Some v) \<and> t = s"
  by (auto simp: assume_init_def split: option.splits)

lemma rust_assert_Done_iff: "rust_assert b s = (Done u, t) \<longleftrightarrow> b \<and> t = s"
  by (auto simp: rust_assert_def)

lemmas done_iffs = run_then_Done_iff run_try_Ok_iff rust_assert_Done_iff assume_init_Done_iff

lemma decode_tail_iff:
  "run_try (into_result (status rep)) (\<lambda>_.
     run_then (rust_assert (outlen rep = of_nat (rsize T))) (\<lambda>_.
     run_then (assume_init T (out rep)) (\<lambda>v. ret (Inr v)))) s = (Done (Inr v), t)
   \<longleftrightarrow> delivers T rep v \<and> t = s"
  by (auto simp: done_iffs delivers_def)

lemma raw_get_Ok_iff:
  "raw_get F T k p = (Done (Inr v), q) \<longleftrightarrow> 0 < rsize T \<and>
     (\<exists>rep. mallctlbymib F (read_call T k) p = (Done rep, q) \<and> delivers T rep v)"
  unfolding raw_get_def by (auto simp: run_then_Done_iff rust_assert_Done_iff decode_tail_iff)

lemma raw_update_Ok_iff:
  "raw_update F I T k x p = (Done (Inr v), q) \<longleftrightarrow> 0 < rsize I \<and> 0 < rsize T \<and>
     (\<exists>rep. mallctlbymib F (update_call I T k x) p = (Done rep, q) \<and> delivers T rep v)"
  unfolding raw_update_def by (auto simp: run_then_Done_iff rust_assert_Done_iff decode_tail_iff)

lemma raw_set_eq:
  "0 < rsize T \<Longrightarrow> raw_set F T k v =
     run_then (mallctlbymib F (write_call T k v)) (\<lambda>rep. into_result (status rep))"
  by (simp add: raw_set_def)

section \<open>The laws of a C boolean\<close>

locale c_bool = c_type T for T :: "'c crepr" +
  fixes encode :: "bool \<Rightarrow> 'c" and decode :: "'c \<Rightarrow> bool"
  assumes decode_encode: "decode (encode b) = b"
begin

lemma encode_inj: "encode b = encode c \<longleftrightarrow> b = c"
  using decode_encode [of b] decode_encode [of c] by auto

text \<open>What the library reads back from the transferred bytes is the boolean that was sent.\<close>

lemma wire_roundtrip: "map_option decode (dec T (enc T (encode b))) = Some b"
  by (simp add: dec_enc decode_encode)

lemma get_safe:
  assumes "call_ok F (read_call T k) (reply_valid T)" and "mach_closed F P"
  shows "safe P (run_map decode (raw_get F T k))
    (\<lambda>r s. P s \<and> (case r of Inl e \<Rightarrow> error_wf e | Inr _ \<Rightarrow> True))"
  by (rule safe_map, rule safe_weaken [OF raw_get_safe [OF size_pos assms]])
     (auto split: sum.splits)

lemma xchg_safe:
  assumes "call_ok F (update_call T T k (encode b)) (reply_valid T)" and "mach_closed F P"
  shows "safe P (run_map decode (raw_xchg F T k (encode b)))
    (\<lambda>r s. P s \<and> (case r of Inl e \<Rightarrow> error_wf e | Inr _ \<Rightarrow> True))"
  unfolding raw_xchg_def
  by (rule safe_map, rule safe_weaken [OF raw_update_safe [OF size_pos size_pos assms]])
     (auto split: sum.splits)

lemma get_Ok_iff:
  "run_map decode (raw_get F T k) p = (Done (Inr b), q) \<longleftrightarrow>
     (\<exists>rep v. mallctlbymib F (read_call T k) p = (Done rep, q) \<and> delivers T rep v \<and> decode v = b)"
proof -
  have "run_map decode (raw_get F T k) p = (Done (Inr b), q) \<longleftrightarrow>
      (\<exists>v. raw_get F T k p = (Done (Inr v), q) \<and> decode v = b)"
    by (auto simp: run_map_eq map_sum_def split: prod.splits outcome.splits sum.splits)
  then show ?thesis
    using size_pos by (auto simp: raw_get_Ok_iff)
qed

end

interpretation msvc_bool: c_bool u32_repr encode_bool_msvc decode_bool_msvc
  by unfold_locales (simp add: encode_bool_msvc_def decode_bool_msvc_def)

interpretation native_bool: c_bool bool_repr encode_bool decode_bool
  by unfold_locales (simp add: encode_bool_def decode_bool_def)

section \<open>Safety on both targets\<close>

text \<open>The calls of the boolean and string controls, as the target makes them, and their contract.\<close>

definition bool_read_ok :: "'s ffi \<Rightarrow> key \<Rightarrow> bool" where
  "bool_read_ok F k \<longleftrightarrow>
    (if target_msvc F then call_ok F (read_call u32_repr k) (reply_valid u32_repr)
     else call_ok F (read_call bool_repr k) (reply_valid bool_repr))"

definition bool_xchg_ok :: "'s ffi \<Rightarrow> key \<Rightarrow> bool \<Rightarrow> bool" where
  "bool_xchg_ok F k b \<longleftrightarrow>
    (if target_msvc F
     then call_ok F (update_call u32_repr u32_repr k (encode_bool_msvc b)) (reply_valid u32_repr)
     else call_ok F (update_call bool_repr bool_repr k (encode_bool b)) (reply_valid bool_repr))"

lemma get_bool_safe [safe_rules]:
  assumes "bool_read_ok F k" and "mach_closed F P"
  shows "safe P (get_bool F k) (\<lambda>r s. P s \<and> (case r of Inl e \<Rightarrow> error_wf e | Inr _ \<Rightarrow> True))"
  using assms msvc_bool.get_safe native_bool.get_safe
  by (auto simp: get_bool_def bool_read_ok_def split: if_splits)

lemma xchg_bool_safe [safe_rules]:
  assumes "bool_xchg_ok F k b" and "mach_closed F P"
  shows "safe P (xchg_bool F k b) (\<lambda>r s. P s \<and> (case r of Inl e \<Rightarrow> error_wf e | Inr _ \<Rightarrow> True))"
  using assms msvc_bool.xchg_safe native_bool.xchg_safe
  by (auto simp: xchg_bool_def bool_xchg_ok_def split: if_splits)

text \<open>
  A string control: a successful call yields a pointer that is null or points to a NUL-terminated
  string in the state the call leaves.
\<close>

definition cstr_call_ok :: "'s ffi \<Rightarrow> mib_call \<Rightarrow> bool" where
  "cstr_call_ok F c \<longleftrightarrow> (\<forall>m. lib_inv F m \<longrightarrow>
     (\<exists>rep m'. c_bymib F c m = (Done rep, m') \<and> lib_inv F m' \<and> reply_valid ptr_repr rep \<and>
       (\<forall>a. delivers ptr_repr rep a \<longrightarrow> a = 0 \<or> c_str m' a \<noteq> None)))"

abbreviation cstr_read_ok :: "'s ffi \<Rightarrow> key \<Rightarrow> bool" where
  "cstr_read_ok F k \<equiv> cstr_call_ok F (read_call ptr_repr k)"

abbreviation cstr_xchg_ok :: "'s ffi \<Rightarrow> key \<Rightarrow> usize \<Rightarrow> bool" where
  "cstr_xchg_ok F k v \<equiv> cstr_call_ok F (update_call ptr_repr ptr_repr k v)"

text \<open>What may be assumed of a pointer such a call returned.\<close>

definition string_or_null :: "usize \<Rightarrow> 's process \<Rightarrow> bool" where
  "string_or_null a s \<longleftrightarrow> a = 0 \<or> c_str (mach s) a \<noteq> None"

lemma cstr_call_call_ok: "cstr_call_ok F c \<Longrightarrow> call_ok F c (reply_valid ptr_repr)"
  unfolding cstr_call_ok_def call_ok_def by blast

lemma cstr_call_delivers:
  assumes "cstr_call_ok F c" and "lib_inv F (mach s)" and "mallctlbymib F c s = (Done rep, t)"
    and "delivers ptr_repr rep a"
  shows "string_or_null a t"
proof -
  from assms(1,2) obtain rep' m' where "c_bymib F c (mach s) = (Done rep', m')"
    "\<And>a. delivers ptr_repr rep' a \<Longrightarrow> a = 0 \<or> c_str m' a \<noteq> None"
    unfolding cstr_call_ok_def by blast
  with assms(3,4) show ?thesis
    by (auto simp: mallctlbymib_def foreign_Done_iff string_or_null_def)
qed

lemma pointer_safe:
  assumes "safe P m (\<lambda>r s. P s \<and> (case r of Inl e \<Rightarrow> error_wf e | Inr _ \<Rightarrow> True))"
    and "\<And>s a t. P s \<Longrightarrow> m s = (Done (Inr a), t) \<Longrightarrow> string_or_null a t"
  shows "safe P m (\<lambda>r s. case r of Inl e \<Rightarrow> P s \<and> error_wf e | Inr a \<Rightarrow> P s \<and> string_or_null a s)"
proof (rule safeI)
  fix s assume p: "P s"
  from safeD [OF assms(1) this] obtain r t where "m s = (Done r, t)" "P t"
      "case r of Inl e \<Rightarrow> error_wf e | Inr _ \<Rightarrow> True" by blast
  with p assms(2) show "\<exists>r t. m s = (Done r, t) \<and>
      (case r of Inl e \<Rightarrow> P t \<and> error_wf e | Inr a \<Rightarrow> P t \<and> string_or_null a t)"
    by (cases r) auto
qed

lemma ptr_get_safe:
  assumes "cstr_read_ok F k" and "mach_closed F P"
  shows "safe P (raw_get F ptr_repr k) (\<lambda>r s. case r of
     Inl e \<Rightarrow> P s \<and> error_wf e | Inr a \<Rightarrow> P s \<and> string_or_null a s)"
  by (rule pointer_safe [OF raw_get_safe [OF u64.size_pos cstr_call_call_ok [OF assms(1)] assms(2)]])
     (use assms(2) in \<open>auto simp: raw_get_Ok_iff mach_closed_def dest: cstr_call_delivers [OF assms(1)]\<close>)

lemma ptr_xchg_safe:
  assumes "cstr_xchg_ok F k v" and "mach_closed F P"
  shows "safe P (raw_xchg F ptr_repr k v) (\<lambda>r s. case r of
     Inl e \<Rightarrow> P s \<and> error_wf e | Inr a \<Rightarrow> P s \<and> string_or_null a s)"
  unfolding raw_xchg_def
  by (rule pointer_safe [OF raw_update_safe [OF u64.size_pos u64.size_pos cstr_call_call_ok [OF assms(1)] assms(2)]])
     (use assms(2) in \<open>auto simp: raw_update_Ok_iff mach_closed_def dest: cstr_call_delivers [OF assms(1)]\<close>)

lemma get_cstr_safe [safe_rules]:
  assumes "cstr_read_ok F k" and "errno_ok F" and "mach_closed F P"
  shows "safe P (get_cstr F k) (\<lambda>r s. P s \<and> (case r of Inl e \<Rightarrow> error_wf e | Inr bs \<Rightarrow> 0 \<notin> set bs))"
  unfolding get_cstr_def
proof (rule safe_try)
  show "safe P (raw_get F ptr_repr k) (\<lambda>r s. case r of
      Inl e \<Rightarrow> P s \<and> (case Inl e of Inl e \<Rightarrow> error_wf e | Inr bs \<Rightarrow> 0 \<notin> set bs)
    | Inr a \<Rightarrow> P s \<and> string_or_null a s)"
    by (rule safe_weaken [OF ptr_get_safe [OF assms(1,3)]]) (auto split: sum.splits)
  show "safe (\<lambda>s. P s \<and> string_or_null a s)
      (if a = 0 then fail (bad_address F) else run_then (read_c_str a) (\<lambda>s. ret (Inr s)))
      (\<lambda>r s. P s \<and> (case r of Inl e \<Rightarrow> error_wf e | Inr bs \<Rightarrow> 0 \<notin> set bs))" for a
    using assms(2)
    by (auto simp: safe_def error_wf_def string_or_null_def read_c_str_def run_then_def dest: c_str_no_nul
        split: option.splits)
qed

section \<open>Properties\<close>

text \<open>
  C24. A typed read yields a value exactly when the library answered with status zero, reported exactly
  the size of the type and left initialised bytes that are that valid value; no other answer is turned
  into a value.
\<close>

theorem raw_get_exact:
  assumes "0 < rsize T"
  shows "raw_get F T k p = (Done (Inr v), q) \<longleftrightarrow>
    (\<exists>rep bs. mallctlbymib F (read_call T k) p = (Done rep, q) \<and> status rep = 0 \<and>
      outlen rep = of_nat (rsize T) \<and> out rep = map Some bs \<and> dec T bs = Some v)"
proof -
  have "those xs = Some bs \<longleftrightarrow> xs = map Some bs" for xs :: "cell list" and bs
    by (induction xs arbitrary: bs) (auto split: option.splits)
  then show ?thesis
    using assms by (auto simp: raw_get_Ok_iff delivers_def)
qed

text \<open>
  C26. A boolean control reads as the library meant it on both families of targets: with a four-byte C
  boolean every nonzero value is true, with a one-byte C boolean only the bytes 0 and 1 are accepted, and
  a boolean sent through either representation decodes to itself.
\<close>

theorem get_bool_exact:
  "(get_bool F k p = (Done (Inr b), q) \<longleftrightarrow>
     (if target_msvc F
      then \<exists>rep v. mallctlbymib F (read_call u32_repr k) p = (Done rep, q) \<and> delivers u32_repr rep v \<and> b = (v \<noteq> 0)
      else \<exists>rep. mallctlbymib F (read_call bool_repr k) p = (Done rep, q) \<and> delivers bool_repr rep b)) \<and>
   map_option decode_bool_msvc (dec u32_repr (enc u32_repr (encode_bool_msvc c))) = Some c \<and>
   map_option decode_bool (dec bool_repr (enc bool_repr (encode_bool c))) = Some c"
  using msvc_bool.wire_roundtrip [of c] native_bool.wire_roundtrip [of c]
  unfolding get_bool_def
  by (auto simp: msvc_bool.get_Ok_iff native_bool.get_Ok_iff decode_bool_msvc_def decode_bool_def)

end
