(* ===== verification/Controls.thy ===== *)
theory Controls
  imports Ctl_Value
begin

text \<open>
  What the typed controls have in common. A control fetches its cached key, may substitute an
  index into the template and runs one raw operation. Here are the contracts of the library's
  controls by name, the lemmas that turn them into safety of the composed operation, and an
  abstract account of a control that holds a value.
\<close>

named_theorems ctl_safe \<open>safety of control operations\<close>

section \<open>Keys of a control\<close>

text \<open>
  The keys a control operation may use: a resolution of the name and, for the templates of the controls of
  one arena, a resolution with its second component, the index, replaced.
\<close>

definition indexed_name :: "string \<Rightarrow> bool" where
  [simp]: "indexed_name name \<longleftrightarrow> take 8 name = ''arena.0.''"

definition keys_of :: "'s ffi \<Rightarrow> string \<Rightarrow> key set" where
  "keys_of F name = {k'. \<exists>k. resolves F (str_bytes name) k \<and>
     (k' = k \<or> (\<exists>i. indexed_name name \<and> 1 < length k \<and> k' = k[1 := i]))}"

lemma keys_of_plain: "\<not> indexed_name name \<Longrightarrow> keys_of F name = {k. resolves F (str_bytes name) k}"
  by (auto simp: keys_of_def simp del: indexed_name_def)

lemma indexed_name_dot: "indexed_name name \<Longrightarrow> CHR ''.'' \<in> set name"
  by (auto dest!: arg_cong [of "take 8 name" _ set] dest: in_set_takeD)

text \<open>Indexing a key: \<^verbatim>\<open>key[1] = index\<close> panics when the key is shorter.\<close>

definition select_key :: "key \<Rightarrow> usize \<Rightarrow> ('p, key) comp" where
  "select_key k i = (if 1 < length k then ret (k[1 := i]) else panic)"

section \<open>Contracts\<close>

definition reads_as :: "'s ffi \<Rightarrow> string \<Rightarrow> 'a crepr \<Rightarrow> bool" where
  "reads_as F name T \<longleftrightarrow> (\<forall>k \<in> keys_of F name. call_ok F (read_call T k) (reply_valid T))"

definition updates_as :: "'s ffi \<Rightarrow> string \<Rightarrow> 'i crepr \<Rightarrow> 'o crepr \<Rightarrow> bool" where
  "updates_as F name I T \<longleftrightarrow>
     (\<forall>k \<in> keys_of F name. \<forall>v. call_ok F (update_call I T k v) (reply_valid T))"

text \<open>
  Some controls take only operands that are good in the current state: a pointer to a string, an address of
  a live allocation, the index of a live cache. \<open>good\<close> says which; translating a name changes none of it.
\<close>

definition call_ok_in :: "'s ffi \<Rightarrow> ('s machine \<Rightarrow> bool) \<Rightarrow> mib_call \<Rightarrow> (mib_reply \<Rightarrow> bool) \<Rightarrow> bool" where
  "call_ok_in F P c Q \<longleftrightarrow> (\<forall>m. lib_inv F m \<longrightarrow> P m \<longrightarrow>
     (\<exists>rep m'. c_bymib F c m = (Done rep, m') \<and> lib_inv F m' \<and> Q rep))"

definition translation_keeps :: "'s ffi \<Rightarrow> ('s machine \<Rightarrow> bool) \<Rightarrow> bool" where
  "translation_keeps F P \<longleftrightarrow> (\<forall>bs n m r m'. P m \<longrightarrow> c_nametomib F bs n m = (r, m') \<longrightarrow> P m')"

lemma translation_keeps_True: "translation_keeps F (\<lambda>_. True)"
  by (simp add: translation_keeps_def)

definition accepts_in :: "'s ffi \<Rightarrow> string \<Rightarrow> 'i crepr \<Rightarrow> ('s machine \<Rightarrow> 'i \<Rightarrow> bool) \<Rightarrow> bool" where
  "accepts_in F name I good \<longleftrightarrow> (\<forall>v. translation_keeps F (\<lambda>m. good m v) \<and>
     (\<forall>k \<in> keys_of F name. call_ok_in F (\<lambda>m. good m v) (write_call I k v) (\<lambda>_. True)))"

definition updates_in :: "'s ffi \<Rightarrow> string \<Rightarrow> 'i crepr \<Rightarrow> 'o crepr \<Rightarrow> ('s machine \<Rightarrow> 'i \<Rightarrow> bool) \<Rightarrow> bool" where
  "updates_in F name I T good \<longleftrightarrow> (\<forall>v. translation_keeps F (\<lambda>m. good m v) \<and>
     (\<forall>k \<in> keys_of F name. call_ok_in F (\<lambda>m. good m v) (update_call I T k v) (reply_valid T)))"

definition commands :: "'s ffi \<Rightarrow> string \<Rightarrow> bool" where
  "commands F name \<longleftrightarrow> (\<forall>k \<in> keys_of F name. call_ok F (notify_call k) (\<lambda>_. True))"

definition bool_control :: "'s ffi \<Rightarrow> string \<Rightarrow> bool" where
  "bool_control F name \<longleftrightarrow> (\<forall>k \<in> keys_of F name. bool_read_ok F k \<and> (\<forall>b. bool_xchg_ok F k b))"

definition bool_readable :: "'s ffi \<Rightarrow> string \<Rightarrow> bool" where
  "bool_readable F name \<longleftrightarrow> (\<forall>k \<in> keys_of F name. bool_read_ok F k)"

lemma bool_control_readable: "bool_control F name \<Longrightarrow> bool_readable F name"
  by (simp add: bool_control_def bool_readable_def)

definition cstr_control :: "'s ffi \<Rightarrow> string \<Rightarrow> bool" where
  "cstr_control F name \<longleftrightarrow> (\<forall>k \<in> keys_of F name. cstr_read_ok F k)"

text \<open>A call that is handed the address of a local variable with the bytes \<open>bs\<close>, which then goes away.\<close>

definition local_call_ok ::
    "'s ffi \<Rightarrow> byte list \<Rightarrow> (usize \<Rightarrow> mib_call) \<Rightarrow> (mib_reply \<Rightarrow> 's machine \<Rightarrow> usize \<Rightarrow> bool) \<Rightarrow> bool" where
  "local_call_ok F bs c Q \<longleftrightarrow> (\<forall>m. lib_inv F m \<longrightarrow> (\<exists>rep m'.
     c_bymib F (c (local_at F m)) (m\<lparr>bytes_at := (bytes_at m)(local_at F m \<mapsto> bs)\<rparr>) = (Done rep, m') \<and>
     lib_inv F (m'\<lparr>bytes_at := (bytes_at m')(local_at F m := None)\<rparr>) \<and> Q rep m' (local_at F m)))"

text \<open>What every control operation relies on: name translation and nonzero error constants.\<close>

definition lib_ok :: "'s ffi \<Rightarrow> bool" where
  "lib_ok F \<longleftrightarrow> nametomib_ok F \<and> errno_ok F"

lemma lib_okD [dest]: "lib_ok F \<Longrightarrow> nametomib_ok F" "lib_ok F \<Longrightarrow> errno_ok F"
  by (simp_all add: lib_ok_def)

section \<open>Safety\<close>

text \<open>
  The form in which safety of a control operation is stated: from consistent key caches it returns,
  leaves consistent caches, and an error is never zero.
\<close>

abbreviation fine :: "'s ffi \<Rightarrow> 'a ctl_result \<Rightarrow> 's process \<Rightarrow> bool" where
  "fine F \<equiv> (\<lambda>r s. keys_ok F s \<and> (case r of Inl e \<Rightarrow> error_wf e | Inr _ \<Rightarrow> True))"

abbreviation ctl_ok :: "'s ffi \<Rightarrow> ('s process, 'a ctl_result) comp \<Rightarrow> bool" where
  "ctl_ok F m \<equiv> safe (keys_ok F) m (fine F)"

lemma ctl_ok_try [ctl_safe]: "ctl_ok F m \<Longrightarrow> (\<And>x. ctl_ok F (f x)) \<Longrightarrow> ctl_ok F (run_try m f)"
  by (rule safe_try [where R = "\<lambda>_. keys_ok F"]) (auto elim!: safe_weaken split: sum.splits)

lemma ctl_ok_ret [ctl_safe]: "ctl_ok F (ret (Inr x))"
  by (simp add: safe_ret)

lemma ctl_ok_fail [ctl_safe]:
  assumes "lib_ok F"
  shows "ctl_ok F (fail (invalid_argument F))" and "ctl_ok F (fail (bad_address F))"
  using lib_okD(2) [OF assms] by (auto intro!: safe_ret simp: error_wf_def)

lemma ctl_ok_if [ctl_safe]: "(b \<Longrightarrow> ctl_ok F m) \<Longrightarrow> (\<not> b \<Longrightarrow> ctl_ok F n) \<Longrightarrow> ctl_ok F (if b then m else n)"
  by simp

text \<open>The same from the states in which \<open>P\<close> holds of the machine.\<close>

abbreviation ctl_ok_in :: "'s ffi \<Rightarrow> ('s machine \<Rightarrow> bool) \<Rightarrow> ('s process, 'a ctl_result) comp \<Rightarrow> bool" where
  "ctl_ok_in F P m \<equiv> safe (\<lambda>s. keys_ok F s \<and> P (mach s)) m (fine F)"

text \<open>Fetching a key and using it: the rest may rely on the key being one of the control's.\<close>

lemma with_key_in:
  assumes "lib_ok F" and "(acc, name) \<in> key_table" and "translation_keeps F P"
    and "\<And>k. resolves F (str_bytes name) k \<Longrightarrow> length k = segments (str_bytes name) \<Longrightarrow> ctl_ok_in F P (f k)"
  shows "ctl_ok_in F P (run_try (define_key F acc name) f)"
proof (rule safeI)
  fix p
  assume p: "keys_ok F p \<and> P (mach p)"
  note lib = lib_okD [OF assms(1)]
  show "\<exists>x t. run_try (define_key F acc name) f p = (Done x, t) \<and> fine F x t"
    using lib assms(2) conjunct1 [OF p]
  proof (cases rule: define_key_outcomes)
    case (hit k)
    then show ?thesis using p safeD [OF assms(4)] by (simp add: run_try_eq)
  next
    case refused
    then show ?thesis by (simp add: run_try_eq error_wf_def)
  next
    case (filled k slots len m)
    let ?q = "snd (publish acc k (translated F name p m))"
    have "P (mach ?q)"
      using p filled(2) assms(3) by (auto simp: translation_keeps_def publish_def translated_def)
    moreover have "resolves F (str_bytes name) k" using filled(2,3) by (auto simp: resolves_def)
    ultimately show ?thesis
      using filled safeD [OF assms(4), of k ?q] by (simp add: run_try_eq)
  qed
qed

lemma with_key:
  assumes "lib_ok F" and "(acc, name) \<in> key_table"
    and "\<And>k. resolves F (str_bytes name) k \<Longrightarrow> length k = segments (str_bytes name) \<Longrightarrow> ctl_ok F (f k)"
  shows "ctl_ok F (run_try (define_key F acc name) f)"
  using with_key_in [where P = "\<lambda>_. True" and f = f, OF assms(1,2) translation_keeps_True] assms(3) by simp

lemma with_plain_key_in:
  assumes "lib_ok F" and "(acc, name) \<in> key_table" and "translation_keeps F P"
    and "\<And>k. k \<in> keys_of F name \<Longrightarrow> ctl_ok_in F P (f k)"
  shows "ctl_ok_in F P (run_try (define_key F acc name) f)"
  using assms by (intro with_key_in) (auto simp: keys_of_def)

lemma with_plain_key:
  assumes "lib_ok F" and "(acc, name) \<in> key_table" and "\<And>k. k \<in> keys_of F name \<Longrightarrow> ctl_ok F (f k)"
  shows "ctl_ok F (run_try (define_key F acc name) f)"
  using assms by (intro with_key) (auto simp: keys_of_def)

lemma with_selected_key_in:
  assumes "lib_ok F" and "(acc, name) \<in> key_table" and "indexed_name name" and "translation_keeps F P"
    and "\<And>k. k \<in> keys_of F name \<Longrightarrow> ctl_ok_in F P (f k)"
  shows "ctl_ok_in F P (run_try (define_key F acc name) (\<lambda>k. run_then (select_key k i) f))"
proof (rule with_key_in [OF assms(1,2,4)])
  fix k
  assume "resolves F (str_bytes name) k" and "length k = segments (str_bytes name)"
  moreover have "1 < segments (str_bytes name)"
    using indexed_name_dot [OF assms(3)] count_list_0_iff [of name "CHR ''.''"] by (simp add: segments_str)
  ultimately have "1 < length k" "k[1 := i] \<in> keys_of F name" using assms(3) by (auto simp: keys_of_def)
  with assms(5) show "ctl_ok_in F P (run_then (select_key k i) f)"
    by (simp add: select_key_def)
qed

lemma with_selected_key:
  assumes "lib_ok F" and "(acc, name) \<in> key_table" and "indexed_name name"
    and "\<And>k. k \<in> keys_of F name \<Longrightarrow> ctl_ok F (f k)"
  shows "ctl_ok F (run_try (define_key F acc name) (\<lambda>k. run_then (select_key k i) f))"
  using with_selected_key_in [where P = "\<lambda>_. True" and f = f, OF assms(1-3) translation_keeps_True] assms(4) by simp

lemma raw_get_ctl:
  assumes "reads_as F name T" and "k \<in> keys_of F name" and "0 < rsize T"
  shows "ctl_ok F (raw_get F T k)"
  using assms by (intro raw_get_safe) (auto simp: reads_as_def)

lemma raw_update_ctl:
  assumes "updates_as F name I T" and "k \<in> keys_of F name" and "0 < rsize I" and "0 < rsize T"
  shows "ctl_ok F (raw_update F I T k v)"
  using assms by (intro raw_update_safe) (auto simp: updates_as_def)

lemma raw_xchg_ctl:
  assumes "updates_as F name T T" and "k \<in> keys_of F name" and "0 < rsize T"
  shows "ctl_ok F (raw_xchg F T k v)"
  unfolding raw_xchg_def using assms by (intro raw_update_ctl)

lemma status_tail_ctl:
  assumes "call_ok F c (\<lambda>_. True)"
  shows "ctl_ok F (run_then (mallctlbymib F c) (\<lambda>rep. into_result (status rep)))"
proof (rule safe_then [where R = "\<lambda>_. keys_ok F"])
  show "safe (keys_ok F) (mallctlbymib F c) (\<lambda>_. keys_ok F)"
    by (rule safe_weaken [OF mallctlbymib_safe [OF assms keys_ok_closed]]) auto
  show "safe (keys_ok F) (into_result (status rep)) (fine F)" for rep
    by (rule safe_weaken [OF into_result_safe]) (auto simp: error_wf_def split: sum.splits)
qed

text \<open>Calls whose operand must be good in the state of the call.\<close>

lemma call_in_safe:
  assumes "call_ok_in F P c Q"
  shows "safe (\<lambda>s. keys_ok F s \<and> P (mach s)) (mallctlbymib F c) (\<lambda>rep s. keys_ok F s \<and> Q rep)"
proof (rule safeI)
  fix s
  assume s: "keys_ok F s \<and> P (mach s)"
  with assms obtain rep m' where "c_bymib F c (mach s) = (Done rep, m')" "lib_inv F m'" "Q rep"
    unfolding call_ok_in_def by (auto simp: keys_ok_def)
  with s show "\<exists>rep t. mallctlbymib F c s = (Done rep, t) \<and> keys_ok F t \<and> Q rep"
    using caches_ok_caches [of "s\<lparr>mach := m', trace := trace s @ [Call_bymib c]\<rparr>" s F]
    by (simp add: mallctlbymib_def foreign_def keys_ok_def)
qed

lemma raw_set_ctl:
  assumes "accepts_in F name I good" and "k \<in> keys_of F name" and "0 < rsize I"
  shows "ctl_ok_in F (\<lambda>m. good m v) (raw_set F I k v)"
proof -
  have "call_ok_in F (\<lambda>m. good m v) (write_call I k v) (\<lambda>_. True)"
    using assms by (simp add: accepts_in_def)
  moreover have "safe (\<lambda>s. keys_ok F s \<and> True) (into_result (status rep)) (fine F)" for rep
    by (rule safe_weaken [OF into_result_safe]) (auto simp: error_wf_def split: sum.splits)
  ultimately show ?thesis
    unfolding raw_set_eq [OF assms(3)] by (rule safe_then [OF call_in_safe])
qed

lemma raw_update_in_ctl:
  assumes "updates_in F name I T good" and "k \<in> keys_of F name" and "0 < rsize I" and "0 < rsize T"
  shows "ctl_ok_in F (\<lambda>m. good m v) (raw_update F I T k v)"
proof -
  have "call_ok_in F (\<lambda>m. good m v) (update_call I T k v) (reply_valid T)"
    using assms by (simp add: updates_in_def)
  then have "safe (\<lambda>s. keys_ok F s \<and> good (mach s) v) (mallctlbymib F (update_call I T k v))
      (\<lambda>rep s. keys_ok F s \<and> reply_valid T rep)"
    by (rule call_in_safe)
  then show ?thesis
    using assms(3,4) by (auto simp: raw_update_def safe_conj_pre intro!: safe_then decode_reply_safe)
qed

lemma raw_notify_ctl:
  assumes "commands F name" and "k \<in> keys_of F name"
  shows "ctl_ok F (raw_notify F k)"
  using assms by (simp add: raw_notify_def commands_def status_tail_ctl)

lemma get_bool_ctl:
  "bool_readable F name \<Longrightarrow> k \<in> keys_of F name \<Longrightarrow> ctl_ok F (get_bool F k)"
  by (intro get_bool_safe) (auto simp: bool_readable_def)

lemma xchg_bool_ctl:
  "bool_control F name \<Longrightarrow> k \<in> keys_of F name \<Longrightarrow> ctl_ok F (xchg_bool F k b)"
  by (intro xchg_bool_safe) (auto simp: bool_control_def)

lemma get_cstr_ctl:
  assumes "lib_ok F" and "cstr_control F name" and "k \<in> keys_of F name"
  shows "ctl_ok F (get_cstr F k)"
  using assms
  by (auto intro!: safe_weaken [OF get_cstr_safe [where P = "keys_ok F"]] simp: cstr_control_def split: sum.splits)

lemma rsize_pos [simp]: "0 < rsize u32_repr" "0 < rsize u64_repr" "0 < rsize bool_repr"
  by (simp_all add: u32.size_pos u64.size_pos boolean.size_pos)

lemma with_local_ctl:
  assumes "local_call_ok F bs c Q"
    and "\<And>a rep s. Q rep (mach s) a \<Longrightarrow> \<exists>r. f a rep s = (Done r, s) \<and> (case r of Inl e \<Rightarrow> error_wf e | Inr _ \<Rightarrow> True)"
  shows "ctl_ok F (with_local F bs (\<lambda>a. run_then (mallctlbymib F (c a)) (f a)))"
proof (rule safeI)
  fix p
  assume p: "keys_ok F p"
  let ?a = "local_at F (mach p)"
  let ?enter = "p\<lparr>mach := (mach p)\<lparr>bytes_at := (bytes_at (mach p))(?a \<mapsto> bs)\<rparr>\<rparr>"
  from assms(1) p obtain rep m' where
    c: "c_bymib F (c ?a) (mach ?enter) = (Done rep, m')" and
    m': "lib_inv F (m'\<lparr>bytes_at := (bytes_at m')(?a := None)\<rparr>)" "Q rep m' ?a"
    unfolding local_call_ok_def by (auto simp: keys_ok_def)
  let ?q = "?enter\<lparr>mach := m', trace := trace ?enter @ [Call_bymib (c ?a)]\<rparr>"
  obtain r where r: "f ?a rep ?q = (Done r, ?q)" "case r of Inl e \<Rightarrow> error_wf e | Inr _ \<Rightarrow> True"
    using assms(2) [of rep ?q ?a] m'(2) by auto
  let ?t = "?q\<lparr>mach := m'\<lparr>bytes_at := (bytes_at m')(?a := None)\<rparr>\<rparr>"
  have "with_local F bs (\<lambda>a. run_then (mallctlbymib F (c a)) (f a)) p = (Done r, ?t)"
    using c r(1) by (simp add: with_local_def Let_def run_then_def mallctlbymib_def foreign_def)
  moreover have "keys_ok F ?t"
    using p m'(1) caches_ok_caches [of ?t p F] by (simp add: keys_ok_def)
  ultimately show "\<exists>x t. with_local F bs (\<lambda>a. run_then (mallctlbymib F (c a)) (f a)) p = (Done x, t) \<and> fine F x t"
    using r(2) by blast
qed

section \<open>Whole controls\<close>

text \<open>
  The shapes of the typed controls: fetch the key, possibly select an index, run one operation. The
  premises are the table entry of the accessor and the contract of its name.
\<close>

lemma plain_control [ctl_safe]:
  assumes "lib_ok F" and "(acc, name) \<in> key_table"
  shows "reads_as F name T \<Longrightarrow> 0 < rsize T \<Longrightarrow>
      ctl_ok F (run_try (define_key F acc name) (\<lambda>key. raw_get F T key))"
    and "updates_as F name I T \<Longrightarrow> 0 < rsize I \<Longrightarrow> 0 < rsize T \<Longrightarrow>
      ctl_ok F (run_try (define_key F acc name) (\<lambda>key. raw_update F I T key v))"
    and "updates_as F name T T \<Longrightarrow> 0 < rsize T \<Longrightarrow>
      ctl_ok F (run_try (define_key F acc name) (\<lambda>key. raw_xchg F T key w))"
    and "commands F name \<Longrightarrow> ctl_ok F (run_try (define_key F acc name) (\<lambda>key. raw_notify F key))"
    and "bool_readable F name \<Longrightarrow> ctl_ok F (run_try (define_key F acc name) (\<lambda>key. get_bool F key))"
    and "bool_control F name \<Longrightarrow> ctl_ok F (run_try (define_key F acc name) (\<lambda>key. get_bool F key))"
    and "bool_control F name \<Longrightarrow> ctl_ok F (run_try (define_key F acc name) (\<lambda>key. xchg_bool F key b))"
    and "cstr_control F name \<Longrightarrow> ctl_ok F (run_try (define_key F acc name) (\<lambda>key. get_cstr F key))"
  using assms
  by (auto intro!: with_plain_key intro: raw_get_ctl raw_update_ctl raw_xchg_ctl
      raw_notify_ctl get_bool_ctl xchg_bool_ctl get_cstr_ctl bool_control_readable simp del: indexed_name_def)

lemma selected_control [ctl_safe]:
  assumes "lib_ok F" and "(acc, name) \<in> key_table" and "indexed_name name"
  shows "reads_as F name T \<Longrightarrow> 0 < rsize T \<Longrightarrow>
      ctl_ok F (run_try (define_key F acc name) (\<lambda>k. run_then (select_key k i) (\<lambda>key. raw_get F T key)))"
    and "updates_as F name T T \<Longrightarrow> 0 < rsize T \<Longrightarrow>
      ctl_ok F (run_try (define_key F acc name) (\<lambda>k. run_then (select_key k i) (\<lambda>key. raw_xchg F T key w)))"
    and "commands F name \<Longrightarrow>
      ctl_ok F (run_try (define_key F acc name) (\<lambda>k. run_then (select_key k i) (\<lambda>key. raw_notify F key)))"
  using assms
  by (auto intro!: with_selected_key intro: raw_get_ctl raw_xchg_ctl raw_notify_ctl)

text \<open>Reading or exchanging a string pointer and continuing with it.\<close>

lemma ctl_ok_ptr:
  assumes "safe (keys_ok F) m (\<lambda>r s. case r of
      Inl e \<Rightarrow> keys_ok F s \<and> error_wf e | Inr a \<Rightarrow> keys_ok F s \<and> string_or_null a s)"
    and "\<And>a. safe (\<lambda>s. keys_ok F s \<and> string_or_null a s) (f a) (fine F)"
  shows "ctl_ok F (run_try m f)"
proof (rule safe_try [OF _ assms(2)])
  show "safe (keys_ok F) m (\<lambda>r s. case r of Inl e \<Rightarrow> fine F (Inl e) s
      | Inr a \<Rightarrow> keys_ok F s \<and> string_or_null a s)"
    by (rule safe_weaken [OF assms(1)]) (auto split: sum.splits)
qed

lemma ctl_ok_ptr_get:
  assumes "cstr_control F name" and "k \<in> keys_of F name"
    and "\<And>a. safe (\<lambda>s. keys_ok F s \<and> string_or_null a s) (f a) (fine F)"
  shows "ctl_ok F (run_try (raw_get F ptr_repr k) f)"
  using assms by (intro ctl_ok_ptr ptr_get_safe keys_ok_closed) (auto simp: cstr_control_def)

lemma ctl_ok_ptr_xchg:
  assumes "\<forall>k \<in> keys_of F name. cstr_xchg_ok F k v" and "k \<in> keys_of F name"
    and "\<And>a. safe (\<lambda>s. keys_ok F s \<and> string_or_null a s) (f a) (fine F)"
  shows "ctl_ok F (run_try (raw_xchg F ptr_repr k v) f)"
  using assms by (intro ctl_ok_ptr ptr_xchg_safe keys_ok_closed) auto

section \<open>Controls that hold a value\<close>

text \<open>
  A control whose documented behaviour is that of a variable for every key: \<open>val\<close> is its value in a
  state of the machine, a read yields it, and writing an acceptable value yields the old one, stores
  the new one and leaves the variables of all other keys alone.
\<close>

definition value_reply :: "'a crepr \<Rightarrow> 'a \<Rightarrow> mib_reply" where
  "value_reply T v = \<lparr>status = 0, out = map Some (enc T v), outlen = of_nat (rsize T)\<rparr>"

definition value_on ::
    "'s ffi \<Rightarrow> key set \<Rightarrow> 'a crepr \<Rightarrow> ('a \<Rightarrow> bool) \<Rightarrow> ('s machine \<Rightarrow> key \<Rightarrow> 'a) \<Rightarrow> bool" where
  "value_on F K T ok val \<longleftrightarrow> (\<forall>k \<in> K. \<forall>m. lib_inv F m \<longrightarrow>
     (\<exists>m'. c_bymib F (read_call T k) m = (Done (value_reply T (val m k)), m') \<and> lib_inv F m' \<and> val m' = val m) \<and>
     (\<forall>v. ok v \<longrightarrow> (\<exists>m'. c_bymib F (update_call T T k v) m = (Done (value_reply T (val m k)), m') \<and>
        lib_inv F m' \<and> val m' = (val m)(k := v))))"

text \<open>
  A control of one arena, at the indices \<open>A\<close> of arenas that exist throughout (the library rejects any
  other), and a control without an index.
\<close>

definition arena_keys :: "'s ffi \<Rightarrow> string \<Rightarrow> usize set \<Rightarrow> key set" where
  "arena_keys F name A = {k[1 := i] |k i. resolves F (str_bytes name) k \<and> 1 < length k \<and> i \<in> A}"

definition value_control ::
    "'s ffi \<Rightarrow> usize set \<Rightarrow> string \<Rightarrow> 'a crepr \<Rightarrow> ('a \<Rightarrow> bool) \<Rightarrow> ('s machine \<Rightarrow> key \<Rightarrow> 'a) \<Rightarrow> bool" where
  "value_control F A name T ok val \<longleftrightarrow> value_on F (arena_keys F name A) T ok val"

definition plain_control ::
    "'s ffi \<Rightarrow> string \<Rightarrow> 'a crepr \<Rightarrow> ('a \<Rightarrow> bool) \<Rightarrow> ('s machine \<Rightarrow> key \<Rightarrow> 'a) \<Rightarrow> bool" where
  "plain_control F name T ok val \<longleftrightarrow> value_on F {k. resolves F (str_bytes name) k} T ok val"

context c_type
begin

lemma delivers_value: "delivers T (value_reply T v) w \<longleftrightarrow> w = v"
  by (auto simp: delivers_def value_reply_def dec_enc)

lemma value_get:
  assumes "value_on F K T ok val" and "k \<in> K" and "lib_inv F (mach p)"
  shows "\<exists>q. raw_get F T k p = (Done (Inr (val (mach p) k)), q) \<and> lib_inv F (mach q) \<and>
    val (mach q) = val (mach p) \<and> caches q = caches p"
proof -
  obtain m' where "c_bymib F (read_call T k) (mach p) = (Done (value_reply T (val (mach p) k)), m')"
    "lib_inv F m'" "val m' = val (mach p)"
    using assms unfolding value_on_def by meson
  then show ?thesis
    by (auto simp: raw_get_Ok_iff size_pos mallctlbymib_def foreign_def delivers_value)
qed

lemma value_xchg:
  assumes "value_on F K T ok val" and "k \<in> K" and "lib_inv F (mach p)" and "ok v"
  shows "\<exists>q. raw_xchg F T k v p = (Done (Inr (val (mach p) k)), q) \<and> lib_inv F (mach q) \<and>
    val (mach q) = (val (mach p))(k := v) \<and> caches q = caches p"
proof -
  obtain m' where "c_bymib F (update_call T T k v) (mach p) = (Done (value_reply T (val (mach p) k)), m')"
    "lib_inv F m'" "val m' = (val (mach p))(k := v)"
    using assms unfolding value_on_def by meson
  then show ?thesis
    unfolding raw_xchg_def
    by (auto simp: raw_update_Ok_iff size_pos mallctlbymib_def foreign_def delivers_value)
qed

end

text \<open>An accessor whose cache is filled returns the key and changes nothing.\<close>

lemma define_key_hit:
  assumes "caches_ok F p" and "(acc, name) \<in> key_table" and "cached acc p = Some k"
  shows "define_key F acc name p = (Done (Inr k), p)" and "resolves F (str_bytes name) k"
    and "length k = segments (str_bytes name)"
proof -
  have ko: "key_ok F acc name p"
    using assms(1,2) by (auto dest: caches_okD)
  then show "define_key F acc name p = (Done (Inr k), p)" "resolves F (str_bytes name) k"
    using assms(3) by (auto simp: key_ok_def define_key_def cache_get_hit)
  then show "length k = segments (str_bytes name)"
    using define_key_key_ok(2) [OF ko] by blast
qed

lemma selected_hit:
  assumes "caches_ok F p" and "(acc, name) \<in> key_table" and "cached acc p = Some k" and "indexed_name name"
  shows "run_try (define_key F acc name) (\<lambda>k. run_then (select_key k i) f) p = f (k[1 := i]) p"
    and "k[1 := i] \<in> keys_of F name" and "1 < length k" and "i \<in> A \<Longrightarrow> k[1 := i] \<in> arena_keys F name A"
proof -
  have "1 < segments (str_bytes name)"
    using indexed_name_dot [OF assms(4)] count_list_0_iff [of name "CHR ''.''"] by (simp add: segments_str)
  with define_key_hit [OF assms(1-3)] show long: "1 < length k" by simp
  with define_key_hit [OF assms(1-3)] assms(4) show "k[1 := i] \<in> keys_of F name"
    "run_try (define_key F acc name) (\<lambda>k. run_then (select_key k i) f) p = f (k[1 := i]) p"
    by (auto simp: keys_of_def run_try_eq select_key_def)
  show "i \<in> A \<Longrightarrow> k[1 := i] \<in> arena_keys F name A"
    using long define_key_hit(2) [OF assms(1-3)] unfolding arena_keys_def by blast
qed

end
