(* ===== verification/Arena_Parts.thy ===== *)
theory Arena_Parts
  imports Controls
begin

text \<open>
  \<^verbatim>\<open>jevmalloc/src/arena/dss.rs\<close> and \<^verbatim>\<open>arena/name.rs\<close>: the precedence of dynamic storage allocation as a
  C string and the fixed-capacity arena name. UTF-8 validation is the standard library's
  \<^verbatim>\<open>str::from_utf8\<close>. Shown: a precedence survives the round trip through its C string, no other string
  is taken for one, and a name that keeps its terminator reads back as the bytes before it.
\<close>

section \<open>UTF-8\<close>

text \<open>A continuation byte, and a byte in a range.\<close>

definition cont :: "byte \<Rightarrow> bool" where
  "cont b \<longleftrightarrow> 0x80 \<le> b \<and> b \<le> 0xBF"

text \<open>The well-formed byte sequences of the Unicode standard, shortest forms and no surrogates.\<close>

fun utf8_valid :: "byte list \<Rightarrow> bool" where
  "utf8_valid [] = True"
| "utf8_valid (b # bs) =
    (if b < 0x80 then utf8_valid bs
     else case bs of
       [] \<Rightarrow> False
     | b1 # bs1 \<Rightarrow>
       if 0xC2 \<le> b \<and> b \<le> 0xDF then cont b1 \<and> utf8_valid bs1
       else case bs1 of
         [] \<Rightarrow> False
       | b2 # bs2 \<Rightarrow>
         if 0xE0 \<le> b \<and> b \<le> 0xEF then
           cont b1 \<and> (b = 0xE0 \<longrightarrow> 0xA0 \<le> b1) \<and> (b = 0xED \<longrightarrow> b1 \<le> 0x9F) \<and> cont b2 \<and> utf8_valid bs2
         else case bs2 of
           [] \<Rightarrow> False
         | b3 # bs3 \<Rightarrow>
           0xF0 \<le> b \<and> b \<le> 0xF4 \<and> cont b1 \<and> (b = 0xF0 \<longrightarrow> 0x90 \<le> b1) \<and> (b = 0xF4 \<longrightarrow> b1 \<le> 0x8F) \<and>
           cont b2 \<and> cont b3 \<and> utf8_valid bs3)"

definition from_utf8 :: "byte list \<Rightarrow> unit + byte list" where
  "from_utf8 bs = (if utf8_valid bs then Inr bs else Inl ())"

section \<open>Dynamic storage precedence\<close>

datatype dss = Disabled | Primary | Secondary

fun dss_bytes :: "dss \<Rightarrow> byte list" where
  "dss_bytes Disabled = str_bytes ''disabled''"
| "dss_bytes Primary = str_bytes ''primary''"
| "dss_bytes Secondary = str_bytes ''secondary''"

text \<open>The address of the static C string.\<close>

definition dss_as_ptr :: "'s ffi \<Rightarrow> dss \<Rightarrow> usize" where
  "dss_as_ptr F d = static_str F (dss_bytes d @ [0])"

definition dss_from_ptr :: "'s ffi \<Rightarrow> usize \<Rightarrow> ('s process, dss ctl_result) comp" where
  "dss_from_ptr F ptr =
    (if ptr = 0 then fail (bad_address F)
     else run_then (read_c_str ptr) (\<lambda>v.
       if v = str_bytes ''disabled'' then ret (Inr Disabled)
       else if v = str_bytes ''primary'' then ret (Inr Primary)
       else if v = str_bytes ''secondary'' then ret (Inr Secondary)
       else fail (invalid_argument F)))"

section \<open>Arena names\<close>

definition ARENA_NAME_LEN :: nat where
  "ARENA_NAME_LEN = 32"

text \<open>\<^verbatim>\<open>struct ArenaName([c_char; 32])\<close>.\<close>

datatype arena_name = ArenaName (name_bytes: "byte list")

definition arena_name_default :: arena_name where
  "arena_name_default = ArenaName (replicate ARENA_NAME_LEN 0)"

text \<open>Reading past the buffer of an unterminated name would be undefined.\<close>

definition as_c_str :: "arena_name \<Rightarrow> ('p, byte list) comp" where
  "as_c_str n = (if 0 \<in> set (name_bytes n) then ret (takeWhile (\<lambda>b. b \<noteq> 0) (name_bytes n)) else undef)"

definition as_bytes :: "arena_name \<Rightarrow> ('p, byte list) comp" where
  "as_bytes n = as_c_str n"

definition arena_name_as_ref :: "arena_name \<Rightarrow> ('p, byte list) comp" where
  "arena_name_as_ref n = as_c_str n"

definition to_str :: "arena_name \<Rightarrow> ('p, unit + byte list) comp" where
  "to_str n = run_then (as_bytes n) (\<lambda>bs. ret (from_utf8 bs))"

section \<open>Lemmas\<close>

lemma str_bytes_eq_iff [simp]: "str_bytes a = str_bytes b \<longleftrightarrow> a = b"
proof (rule iffI)
  show "str_bytes a = str_bytes b \<Longrightarrow> a = b"
    unfolding str_bytes_def
    by (rule map_injective) (auto simp: inj_def of_char_byte_eq_iff)
qed simp

lemma dss_bytes_inj: "dss_bytes a = dss_bytes b \<longleftrightarrow> a = b"
  by (cases a; cases b) simp_all

lemma dss_from_ptr_eq:
  "errno_ok F \<Longrightarrow> ptr \<noteq> 0 \<Longrightarrow> c_str (mach p) ptr = Some bs \<Longrightarrow> dss_from_ptr F ptr p =
     (Done (if bs = dss_bytes Disabled then Inr Disabled
            else if bs = dss_bytes Primary then Inr Primary
            else if bs = dss_bytes Secondary then Inr Secondary
            else Inl (Error (errno F EINVAL))), p)"
  by (simp add: dss_from_ptr_def read_c_str_def run_then_def)

text \<open>A pointer the library hands out as a C string is null or readable.\<close>

lemma dss_from_ptr_safe:
  assumes "lib_ok F"
  shows "safe (\<lambda>s. keys_ok F s \<and> string_or_null ptr s) (dss_from_ptr F ptr) (fine F)"
proof (rule safeI)
  fix s
  assume s: "keys_ok F s \<and> string_or_null ptr s"
  have e: "errno_ok F" using assms by blast
  show "\<exists>r t. dss_from_ptr F ptr s = (Done r, t) \<and> fine F r t"
  proof (cases "ptr = 0")
    case True
    with e s show ?thesis by (simp add: dss_from_ptr_def error_wf_def)
  next
    case False
    with s obtain bs where "c_str (mach s) ptr = Some bs" by (auto simp: string_or_null_def)
    from dss_from_ptr_eq [OF e False this] s e show ?thesis
      by (simp add: error_wf_def)
  qed
qed

text \<open>A name whose buffer keeps a terminator has at most 31 bytes and no NUL.\<close>

lemma as_bytes_terminated:
  assumes "length (name_bytes n) = ARENA_NAME_LEN" and "last (name_bytes n) = 0"
  shows "\<exists>bs. as_bytes n = ret bs \<and> length bs < ARENA_NAME_LEN \<and> 0 \<notin> set bs"
proof -
  have ne: "name_bytes n \<noteq> []" using assms(1) by (auto simp: ARENA_NAME_LEN_def)
  then have z: "0 \<in> set (name_bytes n)" using assms(2) last_in_set by metis
  have "takeWhile (\<lambda>b. b \<noteq> 0) (name_bytes n) \<noteq> name_bytes n"
    using z by (metis set_takeWhileD)
  then have "length (takeWhile (\<lambda>b. b \<noteq> 0) (name_bytes n)) < ARENA_NAME_LEN"
    by (metis assms(1) length_takeWhile_le le_neq_implies_less takeWhile_eq_take take_all_iff order_refl)
  with z show ?thesis
    by (auto simp: as_bytes_def as_c_str_def dest: set_takeWhileD)
qed

end
