(* ===== verification/Handle.thy ===== *)
theory Handle
  imports Ctl_Error
begin

text \<open>
  The ownership protocol shared by the handles of \<^verbatim>\<open>arena.rs\<close> and \<^verbatim>\<open>thread/cache.rs\<close>: a destruction
  attempt through a non-owning handle is refused without a call, a successful one gives up
  ownership, a failed one leaves the handle as it was, and the destructor attempts destruction
  exactly when the handle owns. The lemmas derive what a client may conclude from these laws alone.
\<close>

text \<open>Repeated attempts through one handle: how many succeeded, and the handle that is left.\<close>

fun attempts :: "('h \<Rightarrow> ('p, unit ctl_result \<times> 'h) comp) \<Rightarrow> nat \<Rightarrow> 'h \<Rightarrow> ('p, nat \<times> 'h) comp" where
  "attempts destroy 0 h = ret (0, h)"
| "attempts destroy (Suc n) h =
     run_then (destroy h) (\<lambda>(r, h').
     run_then (attempts destroy n h') (\<lambda>(s, h'').
     ret (case r of Inl _ \<Rightarrow> s | Inr _ \<Rightarrow> Suc s, h'')))"

locale owning_handle =
  fixes destroy :: "'h \<Rightarrow> ('p, unit ctl_result \<times> 'h) comp"
    and dropped :: "'h \<Rightarrow> ('p, unit) comp"
    and owned :: "'h \<Rightarrow> bool"
  assumes refused: "\<not> owned h \<Longrightarrow> destroy h p = (Done (r, h'), q) \<Longrightarrow> (\<exists>e. r = Inl e) \<and> h' = h \<and> q = p"
    and released: "destroy h p = (Done (Inr u, h'), q) \<Longrightarrow> \<not> owned h'"
    and retained: "destroy h p = (Done (Inl e, h'), q) \<Longrightarrow> h' = h"
    and drop_owned: "owned h \<Longrightarrow> dropped h = run_then (destroy h) (\<lambda>_. ret ())"
    and drop_other: "\<not> owned h \<Longrightarrow> dropped h = ret ()"
begin

lemma attempts_not_owned:
  "\<not> owned h \<Longrightarrow> attempts destroy n h p = (Done (s, h'), q) \<Longrightarrow> s = 0 \<and> h' = h \<and> q = p"
proof (induction n arbitrary: s h' q p)
  case (Suc n)
  then obtain r h1 p1 s' where d: "destroy h p = (Done (r, h1), p1)"
    and a: "attempts destroy n h1 p1 = (Done (s', h'), q)" and s: "s = (case r of Inl _ \<Rightarrow> s' | Inr _ \<Rightarrow> Suc s')"
    by (auto simp: run_then_Done_iff)
  from refused [OF Suc.prems(1) d] obtain e where "r = Inl e" "h1 = h" "p1 = p" by blast
  with a s Suc.IH [OF Suc.prems(1)] show ?case by auto
qed simp

text \<open>However often destruction is attempted through a handle, it succeeds at most once.\<close>

lemma attempts_at_most_once:
  "attempts destroy n h p = (Done (s, h'), q) \<Longrightarrow>
   s \<le> 1 \<and> (s = 0 \<longrightarrow> h' = h) \<and> (s = 1 \<longrightarrow> owned h \<and> \<not> owned h')"
proof (induction n arbitrary: s h' q h p)
  case (Suc n)
  then obtain r h1 p1 s' where d: "destroy h p = (Done (r, h1), p1)"
    and a: "attempts destroy n h1 p1 = (Done (s', h'), q)" and s: "s = (case r of Inl _ \<Rightarrow> s' | Inr _ \<Rightarrow> Suc s')"
    by (auto simp: run_then_Done_iff)
  show ?case
  proof (cases r)
    case (Inl e)
    with retained d have "h1 = h" by blast
    with Inl s Suc.IH [OF a] show ?thesis by simp
  next
    case (Inr u)
    with d have "owned h" "\<not> owned h1"
      using refused released by blast+
    moreover from this(2) a have "s' = 0 \<and> h' = h1" using attempts_not_owned by blast
    ultimately show ?thesis using Inr s by auto
  qed
qed simp

text \<open>After a success the destructor does nothing.\<close>

lemma drop_after_success:
  assumes "attempts destroy n h p = (Done (Suc s, h'), q)"
  shows "dropped h' q = (Done (), q)"
  using attempts_at_most_once [OF assms] drop_other [of h'] by simp

end

text \<open>For the interpretations: the refusal, and the settlement of an attempt.\<close>

lemma fail_EINVAL_Done:
  "fail (invalid_argument F) p = (Done r, q) \<Longrightarrow> (\<exists>e. r = Inl e) \<and> q = p"
  by (auto simp: invalid_argument_def fail_from_code_iff)

lemma settle_iff:
  "(case r of Inl e \<Rightarrow> (Inl e, a) | Inr (_ :: unit) \<Rightarrow> (Inr (), b)) = (x, h) \<longleftrightarrow>
     x = r \<and> h = (case r of Inl _ \<Rightarrow> a | Inr _ \<Rightarrow> b)"
  by (cases r) auto

end
