(* ===== verification/Arena.thy ===== *)
theory Arena
  imports Arena_Parts Flags Handle
begin

text \<open>
  \<^verbatim>\<open>jevmalloc/src/arena.rs\<close> and \<^verbatim>\<open>arena/destroy_error.rs\<close>: owning and non-owning handles to one arena,
  with the two functions of \<^verbatim>\<open>thread/this.rs\<close> they call. A handle that goes out of scope runs its
  destructor, written out where the source consumes a handle.

  Shown here: every operation is safe, the limit on indices is the one the flag word can encode,
  and a handle destroys its arena at most once. The last is an instance of the locale
  \<open>owning_handle\<close>, shared with the explicit thread caches.
\<close>

section \<open>Handles\<close>

definition ARENA_INDEX_LIMIT :: usize where
  "ARENA_INDEX_LIMIT = 4095"

record arena =
  a_index :: usize
  a_owned :: bool

definition arena_index :: "arena \<Rightarrow> usize" where
  "arena_index a = a_index a"

definition arena_is_owned :: "arena \<Rightarrow> bool" where
  "arena_is_owned a = a_owned a"

definition arena_validated_index :: "'s ffi \<Rightarrow> usize \<Rightarrow> ('p, c_uint ctl_result) comp" where
  "arena_validated_index F i =
    (if ARENA_INDEX_LIMIT \<le> i then fail (invalid_argument F)
     else case u32_try_from i of None \<Rightarrow> fail (invalid_argument F) | Some c \<Rightarrow> ret (Inr c))"

text \<open>\<^verbatim>\<open>usize::try_from(index).map_err(..)?\<close>\<close>

definition usize_of_uint :: "'s ffi \<Rightarrow> c_uint \<Rightarrow> ('p, usize ctl_result) comp" where
  "usize_of_uint F c = (case usize_try_from c of None \<Rightarrow> fail (invalid_argument F) | Some i \<Rightarrow> ret (Inr i))"

definition from_created_index :: "'s ffi \<Rightarrow> c_uint \<Rightarrow> ('s process, arena ctl_result) comp" where
  "from_created_index F c =
     run_try (usize_of_uint F c) (\<lambda>i.
     run_try (arena_validated_index F i) (\<lambda>_.
     ret (Inr \<lparr>a_index = i, a_owned = True\<rparr>)))"

definition arena_create :: "'s ffi \<Rightarrow> ('s process, arena ctl_result) comp" where
  "arena_create F =
     run_try (key_arenas_create F) (\<lambda>key.
     run_try (raw_get F u32_repr key) (\<lambda>index.
     from_created_index F index))"

text \<open>\<^verbatim>\<open>hooks.as_ref().alloc.is_none()\<close>: undefined without a table at the address.\<close>

definition lacks_alloc :: "usize \<Rightarrow> ('s process, bool) comp" where
  "lacks_alloc hooks = (\<lambda>p. case tables_at (mach p) hooks of
      None \<Rightarrow> (Undef, p) | Some t \<Rightarrow> (Done (h_alloc t = None), p))"

definition create_with_raw_extent_hooks :: "'s ffi \<Rightarrow> usize \<Rightarrow> ('s process, arena ctl_result) comp" where
  "create_with_raw_extent_hooks F hooks =
     run_then (lacks_alloc hooks) (\<lambda>none.
     if none then fail (invalid_argument F)
     else run_try (key_arenas_create F) (\<lambda>key.
          run_try (raw_update F ptr_repr u32_repr key hooks) (\<lambda>index.
          from_created_index F index)))"

text \<open>The Rust table starts with its raw header, so \<^verbatim>\<open>as_raw\<close> is its address.\<close>

definition create_with_extent_hooks :: "'s ffi \<Rightarrow> usize \<Rightarrow> ('s process, arena ctl_result) comp" where
  "create_with_extent_hooks F hooks = create_with_raw_extent_hooks F hooks"

definition from_index :: "'s ffi \<Rightarrow> usize \<Rightarrow> ('s process, arena ctl_result) comp" where
  "from_index F i =
     run_try (arena_validated_index F i) (\<lambda>_. ret (Inr \<lparr>a_index = i, a_owned = False\<rparr>))"

definition from_owned_index :: "'s ffi \<Rightarrow> usize \<Rightarrow> ('s process, arena ctl_result) comp" where
  "from_owned_index F i =
     run_try (arena_validated_index F i) (\<lambda>_. ret (Inr \<lparr>a_index = i, a_owned = True\<rparr>))"

text \<open>\<^verbatim>\<open>thread::this::arena_id\<close> and \<^verbatim>\<open>thread::this::set_arena\<close>.\<close>

definition arena_id :: "'s ffi \<Rightarrow> ('s process, usize ctl_result) comp" where
  "arena_id F =
     run_try (key_thread_arena F) (\<lambda>key.
     run_try (raw_get F u32_repr key) (\<lambda>c. usize_of_uint F c))"

definition set_arena :: "'s ffi \<Rightarrow> usize \<Rightarrow> ('s process, usize ctl_result) comp" where
  "set_arena F i =
     run_try (arena_validated_index F i) (\<lambda>c.
     run_try (key_thread_arena F) (\<lambda>key.
     run_try (raw_xchg F u32_repr key c) (\<lambda>previous. usize_of_uint F previous)))"

definition arena_current :: "'s ffi \<Rightarrow> ('s process, arena ctl_result) comp" where
  "arena_current F = run_try (arena_id F) (\<lambda>i. from_index F i)"

definition arena_lookup :: "'s ffi \<Rightarrow> usize \<Rightarrow> ('s process, arena ctl_result) comp" where
  "arena_lookup F allocation =
     run_try (key_arenas_lookup F) (\<lambda>key.
     run_try (raw_update F ptr_repr u32_repr key allocation) (\<lambda>c.
     run_try (usize_of_uint F c) (\<lambda>i. from_index F i)))"

definition arena_flags :: "arena \<Rightarrow> c_int" where
  "arena_flags a = MALLOCX_ARENA (a_index a)"

definition set_current :: "'s ffi \<Rightarrow> arena \<Rightarrow> ('s process, arena ctl_result) comp" where
  "set_current F a = run_try (set_arena F (a_index a)) (\<lambda>previous. from_index F previous)"

section \<open>Commands and values\<close>

definition arena_select :: "arena \<Rightarrow> key \<Rightarrow> ('s process, key) comp" where
  "arena_select a k = select_key k (a_index a)"

definition arena_notify :: "'s ffi \<Rightarrow> arena \<Rightarrow> key \<Rightarrow> ('s process, unit ctl_result) comp" where
  "arena_notify F a k = run_then (arena_select a k) (\<lambda>key. raw_notify F key)"

definition arena_decay :: "'s ffi \<Rightarrow> arena \<Rightarrow> ('s process, unit ctl_result) comp" where
  "arena_decay F a = run_try (key_arena_decay F) (\<lambda>key. arena_notify F a key)"

definition arena_purge :: "'s ffi \<Rightarrow> arena \<Rightarrow> ('s process, unit ctl_result) comp" where
  "arena_purge F a = run_try (key_arena_purge F) (\<lambda>key. arena_notify F a key)"

definition arena_trim :: "'s ffi \<Rightarrow> arena \<Rightarrow> ('s process, unit ctl_result) comp" where
  "arena_trim F a = run_try (arena_decay F a) (\<lambda>_. arena_purge F a)"

definition arena_reset :: "'s ffi \<Rightarrow> arena \<Rightarrow> ('s process, unit ctl_result) comp" where
  "arena_reset F a =
    (if \<not> a_owned a then fail (invalid_argument F)
     else run_try (key_arena_reset F) (\<lambda>key. arena_notify F a key))"

text \<open>The buffer of the name is a local variable whose address the control writes through.\<close>

definition arena_name_of :: "'s ffi \<Rightarrow> arena \<Rightarrow> ('s process, arena_name ctl_result) comp" where
  "arena_name_of F a =
     run_try (key_arena_name F) (\<lambda>k.
     run_then (arena_select a k) (\<lambda>key.
     with_local F (name_bytes arena_name_default) (\<lambda>buf.
     run_then (get_in_place F ptr_repr key buf) (\<lambda>(r, _). case r of
         Inl e \<Rightarrow> ret (Inl e)
       | Inr _ \<Rightarrow> (\<lambda>p. case bytes_at (mach p) buf of
             None \<Rightarrow> (Undef, p) | Some bs \<Rightarrow> (Done (Inr (ArenaName bs)), p))))))"

definition set_name :: "'s ffi \<Rightarrow> arena \<Rightarrow> usize \<Rightarrow> ('s process, unit ctl_result) comp" where
  "set_name F a name =
     run_try (key_arena_name F) (\<lambda>k.
     run_then (arena_select a k) (\<lambda>key. raw_set F ptr_repr key name))"

definition arena_dss :: "'s ffi \<Rightarrow> arena \<Rightarrow> ('s process, dss ctl_result) comp" where
  "arena_dss F a =
     run_try (key_arena_dss F) (\<lambda>k.
     run_then (arena_select a k) (\<lambda>key.
     run_try (raw_get F ptr_repr key) (\<lambda>ptr. dss_from_ptr F ptr)))"

definition set_dss :: "'s ffi \<Rightarrow> arena \<Rightarrow> dss \<Rightarrow> ('s process, dss ctl_result) comp" where
  "set_dss F a d =
     run_try (key_arena_dss F) (\<lambda>k.
     run_then (arena_select a k) (\<lambda>key.
     run_try (raw_xchg F ptr_repr key (dss_as_ptr F d)) (\<lambda>resulting. dss_from_ptr F resulting)))"

definition dirty_decay :: "'s ffi \<Rightarrow> arena \<Rightarrow> ('s process, isize ctl_result) comp" where
  "dirty_decay F a =
     run_try (key_arena_dirty_decay F) (\<lambda>k.
     run_then (arena_select a k) (\<lambda>key. raw_get F isize_repr key))"

definition set_dirty_decay :: "'s ffi \<Rightarrow> arena \<Rightarrow> isize \<Rightarrow> ('s process, isize ctl_result) comp" where
  "set_dirty_decay F a ms =
     run_try (key_arena_dirty_decay F) (\<lambda>k.
     run_then (arena_select a k) (\<lambda>key. raw_xchg F isize_repr key ms))"

definition muzzy_decay :: "'s ffi \<Rightarrow> arena \<Rightarrow> ('s process, isize ctl_result) comp" where
  "muzzy_decay F a =
     run_try (key_arena_muzzy_decay F) (\<lambda>k.
     run_then (arena_select a k) (\<lambda>key. raw_get F isize_repr key))"

definition set_muzzy_decay :: "'s ffi \<Rightarrow> arena \<Rightarrow> isize \<Rightarrow> ('s process, isize ctl_result) comp" where
  "set_muzzy_decay F a ms =
     run_try (key_arena_muzzy_decay F) (\<lambda>k.
     run_then (arena_select a k) (\<lambda>key. raw_xchg F isize_repr key ms))"

definition retain_grow_limit :: "'s ffi \<Rightarrow> arena \<Rightarrow> ('s process, usize ctl_result) comp" where
  "retain_grow_limit F a =
     run_try (key_arena_retain_grow_limit F) (\<lambda>k.
     run_then (arena_select a k) (\<lambda>key. raw_get F usize_repr key))"

definition set_retain_grow_limit :: "'s ffi \<Rightarrow> arena \<Rightarrow> usize \<Rightarrow> ('s process, usize ctl_result) comp" where
  "set_retain_grow_limit F a limit =
     run_try (key_arena_retain_grow_limit F) (\<lambda>k.
     run_then (arena_select a k) (\<lambda>key. raw_xchg F usize_repr key limit))"

text \<open>\<^verbatim>\<open>NonNull::new(..).ok_or_else(Error::bad_address)\<close>\<close>

definition non_null :: "'s ffi \<Rightarrow> usize \<Rightarrow> ('s process, usize ctl_result) comp" where
  "non_null F ptr = (if ptr = 0 then fail (bad_address F) else ret (Inr ptr))"

definition extent_hooks :: "'s ffi \<Rightarrow> arena \<Rightarrow> ('s process, usize ctl_result) comp" where
  "extent_hooks F a =
     run_try (key_arena_extent_hooks F) (\<lambda>k.
     run_then (arena_select a k) (\<lambda>key.
     run_try (raw_get F ptr_repr key) (\<lambda>hooks. non_null F hooks)))"

definition set_raw_extent_hooks :: "'s ffi \<Rightarrow> arena \<Rightarrow> usize \<Rightarrow> ('s process, usize ctl_result) comp" where
  "set_raw_extent_hooks F a hooks =
     run_then (lacks_alloc hooks) (\<lambda>none.
     if none then fail (invalid_argument F)
     else run_try (key_arena_extent_hooks F) (\<lambda>k.
          run_then (arena_select a k) (\<lambda>key.
          run_try (raw_xchg F ptr_repr key hooks) (\<lambda>previous. non_null F previous))))"

definition set_extent_hooks :: "'s ffi \<Rightarrow> arena \<Rightarrow> usize \<Rightarrow> ('s process, usize ctl_result) comp" where
  "set_extent_hooks F a hooks = set_raw_extent_hooks F a hooks"

section \<open>Destruction\<close>

text \<open>\<^verbatim>\<open>destroy(&mut self)\<close> returns the result and the handle it leaves.\<close>

definition arena_destroy :: "'s ffi \<Rightarrow> arena \<Rightarrow> ('s process, unit ctl_result \<times> arena) comp" where
  "arena_destroy F a =
     run_then
      (if \<not> a_owned a then fail (invalid_argument F)
       else run_try (key_arena_destroy F) (\<lambda>key. arena_notify F a key))
      (\<lambda>r. ret (case r of Inl e \<Rightarrow> (Inl e, a) | Inr _ \<Rightarrow> (Inr (), a\<lparr>a_owned := False\<rparr>)))"

definition arena_drop :: "'s ffi \<Rightarrow> arena \<Rightarrow> ('s process, unit) comp" where
  "arena_drop F a =
    (if a_owned a then run_then (arena_destroy F a) (\<lambda>_. ret ()) else ret ())"

text \<open>\<^verbatim>\<open>ArenaDestroyError\<close>: the status and the handle.\<close>

record arena_destroy_error =
  ade_error :: error
  ade_arena :: arena

definition destroy_error_new :: "error \<Rightarrow> arena \<Rightarrow> arena_destroy_error" where
  [simp]: "destroy_error_new e a = \<lparr>ade_error = e, ade_arena = a\<rparr>"

definition destroy_error_status :: "arena_destroy_error \<Rightarrow> error" where
  "destroy_error_status e = ade_error e"

definition destroy_error_arena :: "arena_destroy_error \<Rightarrow> arena" where
  "destroy_error_arena e = ade_arena e"

definition destroy_error_source :: "arena_destroy_error \<Rightarrow> error option" where
  "destroy_error_source e = Some (ade_error e)"

definition into_parts :: "arena_destroy_error \<Rightarrow> error \<times> arena" where
  "into_parts e = (ade_error e, ade_arena e)"

definition destroy_error_display :: "'s ffi \<Rightarrow> arena_destroy_error \<Rightarrow> string" where
  "destroy_error_display F e = ''failed to destroy arena '' @ show_nat (unat (arena_index (ade_arena e))) @
     '': '' @ error_display F (ade_error e)"

text \<open>On success the consumed handle is dropped, on failure it moves into the error.\<close>

definition arena_try_destroy :: "'s ffi \<Rightarrow> arena \<Rightarrow> ('s process, arena_destroy_error + unit) comp" where
  "arena_try_destroy F a =
     run_then (arena_destroy F a) (\<lambda>(r, a'). case r of
       Inr _ \<Rightarrow> run_then (arena_drop F a') (\<lambda>_. ret (Inr ()))
     | Inl e \<Rightarrow> ret (Inl (destroy_error_new e a')))"

text \<open>\<^verbatim>\<open>into_index(mut self)\<close>: the handle is dropped after it gave up ownership.\<close>

definition into_index :: "'s ffi \<Rightarrow> arena \<Rightarrow> ('s process, usize) comp" where
  "into_index F a =
    (let a' = a\<lparr>a_owned := False\<rparr> in
     run_then (arena_drop F a') (\<lambda>_. ret (a_index a')))"

section \<open>Indices\<close>

lemma arena_validated_index_iff:
  "arena_validated_index F i p = (Done (Inr c), q) \<longleftrightarrow> unat i < 4095 \<and> unat c = unat i \<and> q = p"
proof -
  have lim: "ARENA_INDEX_LIMIT \<le> i \<longleftrightarrow> 4095 \<le> unat i"
    by (simp add: ARENA_INDEX_LIMIT_def word_le_nat_alt)
  show ?thesis
  proof (cases "4095 \<le> unat i")
    case True
    then show ?thesis by (simp add: arena_validated_index_def lim invalid_argument_def)
  next
    case False
    then obtain d where "u32_try_from i = Some d" "unat d = unat i"
      using u32_try_from_small [of i] by auto
    with False show ?thesis
      by (auto simp: arena_validated_index_def lim word_unat_eq_iff)
  qed
qed

lemma arena_validated_index_cases:
  assumes "errno_ok F"
  shows "arena_validated_index F i =
    (if unat i < 4095 then ret (Inr (ucast i)) else ret (Inl (Error (errno F EINVAL))))"
  using assms by (auto simp: arena_validated_index_def ARENA_INDEX_LIMIT_def word_le_nat_alt u32_try_from_def)

lemma usize_of_uint [simp]: "usize_of_uint F c = ret (Inr (ucast c))"
  by (simp add: usize_of_uint_def usize_try_from_def)

lemma from_created_index_Ok:
  "from_created_index F c p = (Done (Inr a), q) \<Longrightarrow>
     unat c < 4095 \<and> a = \<lparr>a_index = ucast c, a_owned = True\<rparr> \<and> q = p"
  by (auto simp: from_created_index_def run_try_Ok_iff arena_validated_index_iff)

section \<open>Ownership\<close>

interpretation arena_handle: owning_handle "arena_destroy F" "arena_drop F" a_owned
  for F :: "'s ffi"
proof unfold_locales
  fix h :: arena and h' and p q :: "'s process" and r e u
  show "(\<exists>e. r = Inl e) \<and> h' = h \<and> q = p" if "\<not> a_owned h" "arena_destroy F h p = (Done (r, h'), q)"
    using that by (auto simp: arena_destroy_def run_then_Done_iff dest!: fail_EINVAL_Done)
  show "\<not> a_owned h'" if "arena_destroy F h p = (Done (Inr u, h'), q)"
    using that by (auto simp: arena_destroy_def run_then_Done_iff settle_iff)
  show "h' = h" if "arena_destroy F h p = (Done (Inl e, h'), q)"
    using that by (auto simp: arena_destroy_def run_then_Done_iff settle_iff)
  show "a_owned h \<Longrightarrow> arena_drop F h = run_then (arena_destroy F h) (\<lambda>_. ret ())"
    by (simp add: arena_drop_def)
  show "\<not> a_owned h \<Longrightarrow> arena_drop F h = ret ()"
    by (simp add: arena_drop_def)
qed

text \<open>A failed explicit destruction returns the handle unchanged, a successful one ends without a
  further attempt.\<close>

lemma arena_try_destroy_eq:
  "arena_try_destroy F a = run_then (arena_destroy F a) (\<lambda>(r, a'). ret (case r of
     Inr _ \<Rightarrow> Inr () | Inl e \<Rightarrow> Inl \<lparr>ade_error = e, ade_arena = a\<rparr>))"
proof (rule ext)
  fix p
  show "arena_try_destroy F a p = run_then (arena_destroy F a) (\<lambda>(r, a'). ret (case r of
     Inr _ \<Rightarrow> Inr () | Inl e \<Rightarrow> Inl \<lparr>ade_error = e, ade_arena = a\<rparr>)) p"
    using arena_handle.released [of F a p] arena_handle.retained [of F a p]
    by (auto simp: arena_try_destroy_def run_then_def arena_handle.drop_other
        split: prod.splits outcome.splits sum.splits)
qed

lemma into_index_quiet: "into_index F a = ret (a_index a)"
  by (simp add: into_index_def Let_def arena_handle.drop_other)

section \<open>Safety\<close>

text \<open>What is documented of the controls the handles use.\<close>

definition arena_controls :: "'s ffi \<Rightarrow> bool" where
  "arena_controls F \<longleftrightarrow> lib_ok F \<and>
     commands F ''arena.0.decay'' \<and> commands F ''arena.0.purge'' \<and>
     reads_as F ''arenas.create'' u32_repr \<and>
     reads_as F ''thread.arena'' u32_repr \<and> updates_as F ''thread.arena'' u32_repr u32_repr \<and>
     reads_as F ''arena.0.dirty_decay_ms'' isize_repr \<and>
     updates_as F ''arena.0.dirty_decay_ms'' isize_repr isize_repr \<and>
     reads_as F ''arena.0.muzzy_decay_ms'' isize_repr \<and>
     updates_as F ''arena.0.muzzy_decay_ms'' isize_repr isize_repr \<and>
     reads_as F ''arena.0.retain_grow_limit'' usize_repr \<and>
     updates_as F ''arena.0.retain_grow_limit'' usize_repr usize_repr \<and>
     reads_as F ''arena.0.extent_hooks'' ptr_repr \<and>
     commands F ''arena.0.reset'' \<and> commands F ''arena.0.destroy'' \<and>
     cstr_control F ''arena.0.dss'' \<and>
     (\<forall>d. \<forall>k \<in> keys_of F ''arena.0.dss''. cstr_xchg_ok F k (dss_as_ptr F d))"

text \<open>
  The controls that are handed addresses: of a NUL-terminated string, of a hook table with an allocation
  callback, of a live allocation (\<open>live\<close>), and of the local buffer of 32 bytes a name is read into.
\<close>

definition hooks_at :: "'s machine \<Rightarrow> usize \<Rightarrow> bool" where
  "hooks_at m a \<longleftrightarrow> (\<exists>t. tables_at m a = Some t \<and> h_alloc t \<noteq> None)"

definition name_reads :: "'s ffi \<Rightarrow> bool" where
  "name_reads F \<longleftrightarrow> (\<forall>k \<in> keys_of F ''arena.0.name''.
     local_call_ok F (replicate ARENA_NAME_LEN 0) (in_place_call ptr_repr k) (\<lambda>rep m a.
       (\<exists>bs v. those (out rep) = Some bs \<and> dec ptr_repr bs = Some v) \<and>
       (status rep = 0 \<longrightarrow> outlen rep = of_nat (rsize ptr_repr) \<and> bytes_at m a \<noteq> None)))"

definition arena_pointers :: "'s ffi \<Rightarrow> ('s machine \<Rightarrow> usize \<Rightarrow> bool) \<Rightarrow> bool" where
  "arena_pointers F live \<longleftrightarrow> accepts_in F ''arena.0.name'' ptr_repr (\<lambda>m a. c_str m a \<noteq> None) \<and> name_reads F \<and>
     updates_in F ''arenas.lookup'' ptr_repr u32_repr live \<and>
     updates_in F ''arenas.create'' ptr_repr u32_repr hooks_at \<and>
     updates_in F ''arena.0.extent_hooks'' ptr_repr ptr_repr hooks_at"

lemma arena_controlsD [simp]:
  assumes "arena_controls F"
  shows "lib_ok F" and "commands F ''arena.0.decay''" and "commands F ''arena.0.purge''"
    and "reads_as F ''arenas.create'' u32_repr"
    and "reads_as F ''thread.arena'' u32_repr" and "updates_as F ''thread.arena'' u32_repr u32_repr"
    and "reads_as F ''arena.0.dirty_decay_ms'' isize_repr"
    and "updates_as F ''arena.0.dirty_decay_ms'' isize_repr isize_repr"
    and "reads_as F ''arena.0.muzzy_decay_ms'' isize_repr"
    and "updates_as F ''arena.0.muzzy_decay_ms'' isize_repr isize_repr"
    and "reads_as F ''arena.0.retain_grow_limit'' usize_repr"
    and "updates_as F ''arena.0.retain_grow_limit'' usize_repr usize_repr"
    and "reads_as F ''arena.0.extent_hooks'' ptr_repr"
    and "commands F ''arena.0.reset''" and "commands F ''arena.0.destroy''"
    and "cstr_control F ''arena.0.dss''"
    and "\<forall>k \<in> keys_of F ''arena.0.dss''. cstr_xchg_ok F k (dss_as_ptr F d)"
  using assms by (simp_all add: arena_controls_def)

lemma index_ctl [ctl_safe]:
  assumes "lib_ok F"
  shows "ctl_ok F (arena_validated_index F i)" and "ctl_ok F (from_index F i)"
    and "ctl_ok F (from_owned_index F i)" and "ctl_ok F (from_created_index F c)"
    and "ctl_ok F (non_null F ptr)"
proof -
  have e: "errno_ok F" using assms by blast
  show v: "ctl_ok F (arena_validated_index F j)" for j
    using e by (auto simp: arena_validated_index_cases intro!: safe_ret simp: error_wf_def)
  show "ctl_ok F (from_index F i)" "ctl_ok F (from_owned_index F i)" "ctl_ok F (from_created_index F c)"
    unfolding from_index_def from_owned_index_def from_created_index_def usize_of_uint run_try_ret_Inr
    by (intro ctl_safe v)+
  show "ctl_ok F (non_null F ptr)"
    using e by (auto simp: non_null_def intro!: safe_ret simp: error_wf_def)
qed

lemmas arena_op_defs = arena_decay_def arena_purge_def arena_trim_def arena_create_def arena_id_def
  set_arena_def arena_current_def set_current_def dirty_decay_def set_dirty_decay_def muzzy_decay_def
  set_muzzy_decay_def retain_grow_limit_def set_retain_grow_limit_def extent_hooks_def arena_dss_def
  set_dss_def arena_notify_def arena_select_def

lemma arena_commands_safe [ctl_safe]:
  assumes "arena_controls F"
  shows "ctl_ok F (arena_decay F a)" and "ctl_ok F (arena_purge F a)" and "ctl_ok F (arena_trim F a)"
  unfolding arena_op_defs key_defs
  using assms by (auto intro!: ctl_ok_try [OF selected_control(3)] selected_control(3))

lemma arena_values_safe [ctl_safe]:
  assumes "arena_controls F"
  shows "ctl_ok F (dirty_decay F a)" and "ctl_ok F (set_dirty_decay F a ms)"
    and "ctl_ok F (muzzy_decay F a)" and "ctl_ok F (set_muzzy_decay F a ms)"
    and "ctl_ok F (retain_grow_limit F a)" and "ctl_ok F (set_retain_grow_limit F a limit)"
  unfolding arena_op_defs key_defs
  using assms by (auto intro!: selected_control)

lemma arena_hooks_safe [ctl_safe]:
  assumes "arena_controls F"
  shows "ctl_ok F (extent_hooks F a)"
  unfolding arena_op_defs key_defs using assms
  by (intro with_selected_key, simp_all)
     (intro ctl_ok_try index_ctl raw_get_ctl [where name = "''arena.0.extent_hooks''"]; simp)

lemma arena_dss_safe [ctl_safe]:
  assumes "arena_controls F"
  shows "ctl_ok F (arena_dss F a)" and "ctl_ok F (set_dss F a d)"
  unfolding arena_op_defs key_defs using assms
  by (auto intro!: with_selected_key dss_from_ptr_safe
      intro: ctl_ok_ptr_get [where name = "''arena.0.dss''"] ctl_ok_ptr_xchg [where name = "''arena.0.dss''"])

lemma arena_thread_safe [ctl_safe]:
  assumes "arena_controls F"
  shows "ctl_ok F (arena_create F)" and "ctl_ok F (arena_id F)" and "ctl_ok F (set_arena F i)"
    and "ctl_ok F (arena_current F)" and "ctl_ok F (set_current F a)"
proof -
  show "ctl_ok F (arena_create F)"
    unfolding arena_op_defs key_defs using assms
    by (intro with_plain_key, simp_all)
       (intro ctl_ok_try index_ctl raw_get_ctl [where name = "''arenas.create''"]; simp)
  show id: "ctl_ok F (arena_id F)"
    unfolding arena_op_defs key_defs usize_of_uint using assms
    by (intro with_plain_key, simp_all)
       (intro ctl_ok_try ctl_ok_ret raw_get_ctl [where name = "''thread.arena''"]; simp)
  show set: "ctl_ok F (set_arena F j)" for j
    unfolding arena_op_defs key_defs usize_of_uint using assms
    by (intro ctl_ok_try [OF index_ctl(1)] with_plain_key, simp_all)
       (intro ctl_ok_try ctl_ok_ret raw_xchg_ctl [where name = "''thread.arena''"]; simp)
  show "ctl_ok F (arena_current F)"
    unfolding arena_current_def using assms by (intro ctl_ok_try id index_ctl) simp
  show "ctl_ok F (set_current F a)"
    unfolding set_current_def using assms by (intro ctl_ok_try set index_ctl) simp
qed

lemma arena_reset_safe [ctl_safe]: "arena_controls F \<Longrightarrow> ctl_ok F (arena_reset F a)"
  unfolding arena_reset_def arena_op_defs key_defs
  by (intro ctl_ok_if selected_control(3) ctl_ok_fail(1)) simp_all

lemma arena_lookup_safe:
  assumes "lib_ok F" and "arena_pointers F live"
  shows "ctl_ok_in F (\<lambda>m. live m ptr) (arena_lookup F ptr)"
proof -
  have up: "updates_in F ''arenas.lookup'' ptr_repr u32_repr live" using assms(2) by (simp add: arena_pointers_def)
  then have keeps: "translation_keeps F (\<lambda>m. live m ptr)" by (simp add: updates_in_def)
  show ?thesis
    unfolding arena_lookup_def key_defs usize_of_uint run_try_ret_Inr
    by (rule with_plain_key_in [OF assms(1) _ keeps], simp,
        rule safe_try [where R = "\<lambda>_. keys_ok F"], rule safe_weaken [OF raw_update_in_ctl [OF up]])
       (auto split: sum.splits intro: index_ctl [OF assms(1)])
qed

lemma set_name_safe:
  assumes "lib_ok F" and "arena_pointers F live"
  shows "ctl_ok_in F (\<lambda>m. c_str m name \<noteq> None) (set_name F a name)"
proof -
  have acc: "accepts_in F ''arena.0.name'' ptr_repr (\<lambda>m a. c_str m a \<noteq> None)"
    using assms(2) by (simp add: arena_pointers_def)
  then have keeps: "translation_keeps F (\<lambda>m. c_str m name \<noteq> None)" by (simp only: accepts_in_def)
  show ?thesis
    unfolding set_name_def arena_select_def key_defs
    by (rule with_selected_key_in [OF assms(1) _ _ keeps], simp, simp, rule raw_set_ctl [OF acc]) simp_all
qed

lemma arena_name_safe:
  assumes "lib_ok F" and "arena_pointers F live"
  shows "ctl_ok F (arena_name_of F a)"
proof -
  have inner: "ctl_ok F (with_local F (name_bytes arena_name_default) (\<lambda>buf.
      run_then (get_in_place F ptr_repr k buf) (\<lambda>(r, _). case r of
         Inl e \<Rightarrow> ret (Inl e)
       | Inr _ \<Rightarrow> (\<lambda>p. case bytes_at (mach p) buf of
             None \<Rightarrow> (Undef, p) | Some bs \<Rightarrow> (Done (Inr (ArenaName bs)), p)))))"
    if "k \<in> keys_of F ''arena.0.name''" for k
  proof -
    have ok: "local_call_ok F (name_bytes arena_name_default) (in_place_call ptr_repr k) (\<lambda>rep m a.
       (\<exists>bs v. those (out rep) = Some bs \<and> dec ptr_repr bs = Some v) \<and>
       (status rep = 0 \<longrightarrow> outlen rep = of_nat (rsize ptr_repr) \<and> bytes_at m a \<noteq> None))"
      using assms(2) that by (simp add: arena_pointers_def name_reads_def arena_name_default_def)
    show ?thesis
      unfolding get_in_place_def run_then_assoc
      by (simp only: u64.size_pos rust_assert_simps run_then_ret, rule with_local_ctl [OF ok])
         (auto simp: run_then_def assume_init_def into_result_def from_code_def error_wf_def split: option.splits)
  qed
  show ?thesis
    unfolding arena_name_of_def arena_select_def key_defs
    by (rule with_selected_key [OF assms(1)], simp, simp, rule inner)
qed

text \<open>Handing over a hook table, which must be there.\<close>

lemma with_hooks_safe:
  assumes "lib_ok F" and "ctl_ok_in F (\<lambda>m. hooks_at m h) f"
  shows "ctl_ok_in F (\<lambda>m. tables_at m h \<noteq> None) (run_then (lacks_alloc h) (\<lambda>none.
    if none then fail (invalid_argument F) else f))"
proof (rule safeI)
  fix p
  assume p: "keys_ok F p \<and> tables_at (mach p) h \<noteq> None"
  then obtain t where t: "tables_at (mach p) h = Some t" by blast
  show "\<exists>x q. run_then (lacks_alloc h) (\<lambda>none. if none then fail (invalid_argument F) else f) p = (Done x, q) \<and> fine F x q"
  proof (cases "h_alloc t")
    case None
    with t p lib_okD(2) [OF assms(1)] show ?thesis by (simp add: lacks_alloc_def run_then_def error_wf_def)
  next
    case (Some g)
    with t p have "keys_ok F p \<and> hooks_at (mach p) h" by (simp add: hooks_at_def)
    from safeD [OF assms(2) this] t Some show ?thesis by (simp add: lacks_alloc_def run_then_def)
  qed
qed

lemma hook_tables_safe:
  assumes "lib_ok F" and "arena_pointers F live"
  shows "ctl_ok_in F (\<lambda>m. tables_at m h \<noteq> None) (create_with_extent_hooks F h)"
    and "ctl_ok_in F (\<lambda>m. tables_at m h \<noteq> None) (set_extent_hooks F a h)"
proof -
  have up: "updates_in F ''arenas.create'' ptr_repr u32_repr hooks_at"
    "updates_in F ''arena.0.extent_hooks'' ptr_repr ptr_repr hooks_at"
    using assms(2) by (simp_all add: arena_pointers_def)
  then have keeps: "translation_keeps F (\<lambda>m. hooks_at m h)" by (simp add: updates_in_def)
  show "ctl_ok_in F (\<lambda>m. tables_at m h \<noteq> None) (create_with_extent_hooks F h)"
    unfolding create_with_extent_hooks_def create_with_raw_extent_hooks_def key_defs
    by (rule with_hooks_safe [OF assms(1)], rule with_plain_key_in [OF assms(1) _ keeps], simp,
        rule safe_try [where R = "\<lambda>_. keys_ok F"], rule safe_weaken [OF raw_update_in_ctl [OF up(1)]])
       (auto split: sum.splits intro: index_ctl [OF assms(1)])
  show "ctl_ok_in F (\<lambda>m. tables_at m h \<noteq> None) (set_extent_hooks F a h)"
    unfolding set_extent_hooks_def set_raw_extent_hooks_def arena_select_def key_defs raw_xchg_def
    by (rule with_hooks_safe [OF assms(1)], rule with_selected_key_in [OF assms(1) _ _ keeps], simp, simp,
        rule safe_try [where R = "\<lambda>_. keys_ok F"], rule safe_weaken [OF raw_update_in_ctl [OF up(2)]])
       (auto split: sum.splits intro: index_ctl [OF assms(1)])
qed

text \<open>Destruction is safe whether or not the handle owns its arena.\<close>

lemma arena_destroy_safe:
  assumes "arena_controls F"
  shows "safe (keys_ok F) (arena_destroy F a) (\<lambda>(r, a'). fine F r)"
proof -
  have "ctl_ok F (if \<not> a_owned a then fail (invalid_argument F)
      else run_try (key_arena_destroy F) (\<lambda>key. arena_notify F a key))"
    unfolding arena_op_defs key_defs using assms
    by (intro ctl_ok_if selected_control(3) ctl_ok_fail(1)) simp_all
  then show ?thesis
    unfolding arena_destroy_def by (rule safe_then) (auto intro!: safe_ret split: sum.splits)
qed

lemma arena_drop_safe:
  assumes "arena_controls F"
  shows "safe (keys_ok F) (arena_drop F a) (\<lambda>_. keys_ok F)"
proof (cases "a_owned a")
  case True
  have "safe (keys_ok F) (arena_destroy F a) (\<lambda>_. keys_ok F)"
    by (rule safe_weaken [OF arena_destroy_safe [OF assms]]) auto
  with True show ?thesis
    by (auto simp: arena_drop_def intro: safe_then safe_ret)
next
  case False
  then show ?thesis by (simp add: arena_drop_def safe_ret)
qed

lemma arena_try_destroy_safe:
  assumes "arena_controls F"
  shows "safe (keys_ok F) (arena_try_destroy F a)
    (\<lambda>r s. keys_ok F s \<and> (case r of Inl e \<Rightarrow> error_wf (ade_error e) \<and> ade_arena e = a | Inr _ \<Rightarrow> True))"
  unfolding arena_try_destroy_eq
  by (rule safe_then [OF arena_destroy_safe [OF assms]]) (auto intro!: safe_ret split: sum.splits)

section \<open>Properties\<close>

text \<open>
  C15. The operations on arenas are safe: when the controls have their documented types, every operation
  below, on any handle and from any state in which the key caches are consistent, returns without panic or
  undefined behaviour, keeps the caches consistent, and reports errors as nonzero codes. An operation that
  is handed an address needs what its documentation asks for: a name must be a NUL-terminated string, an
  address that is looked up a live allocation, and there must be a hook table at the address of one. In
  particular the index substitution never runs past a key, and a failed explicit destruction gives the
  handle back unchanged.
\<close>

theorem arena_operations_safe:
  assumes "arena_controls F" and "arena_pointers F live"
  shows "ctl_ok F (arena_create F) \<and> ctl_ok F (arena_current F) \<and> ctl_ok F (set_current F a) \<and>
    ctl_ok F (from_index F i) \<and> ctl_ok F (from_owned_index F i) \<and>
    ctl_ok F (arena_decay F a) \<and> ctl_ok F (arena_purge F a) \<and> ctl_ok F (arena_trim F a) \<and>
    ctl_ok F (dirty_decay F a) \<and> ctl_ok F (set_dirty_decay F a ms) \<and>
    ctl_ok F (muzzy_decay F a) \<and> ctl_ok F (set_muzzy_decay F a ms) \<and>
    ctl_ok F (retain_grow_limit F a) \<and> ctl_ok F (set_retain_grow_limit F a limit) \<and>
    ctl_ok F (arena_dss F a) \<and> ctl_ok F (set_dss F a d) \<and> ctl_ok F (extent_hooks F a) \<and>
    ctl_ok F (arena_reset F a) \<and> ctl_ok F (arena_name_of F a) \<and>
    ctl_ok_in F (\<lambda>m. live m ptr) (arena_lookup F ptr) \<and>
    ctl_ok_in F (\<lambda>m. c_str m name \<noteq> None) (set_name F a name) \<and>
    ctl_ok_in F (\<lambda>m. tables_at m h \<noteq> None) (create_with_extent_hooks F h) \<and>
    ctl_ok_in F (\<lambda>m. tables_at m h \<noteq> None) (set_extent_hooks F a h) \<and>
    safe (keys_ok F) (arena_drop F a) (\<lambda>_. keys_ok F) \<and>
    safe (keys_ok F) (arena_try_destroy F a)
      (\<lambda>r s. keys_ok F s \<and> (case r of Inl e \<Rightarrow> error_wf (ade_error e) \<and> ade_arena e = a | Inr _ \<Rightarrow> True))"
proof -
  note lib = arena_controlsD(1) [OF assms(1)]
  show ?thesis
    by (intro conjI arena_thread_safe arena_commands_safe arena_values_safe arena_dss_safe
      arena_hooks_safe arena_reset_safe arena_drop_safe arena_try_destroy_safe index_ctl
      arena_name_safe [OF lib assms(2)] arena_lookup_safe [OF lib assms(2)] set_name_safe [OF lib assms(2)]
      hook_tables_safe [OF lib assms(2)] assms(1) lib)
qed

text \<open>
  C7. However often destruction of an arena is attempted through a handle, by \<^verbatim>\<open>try_destroy\<close> or by
  dropping, it succeeds at most once; a handle that never owned the arena succeeds never and makes no
  call; after failures only the handle is the one it was, still owning; after a success a drop makes no
  call.
\<close>

theorem arena_destroyed_at_most_once:
  assumes "attempts (arena_destroy F) n a p = (Done (s, a'), q)"
  shows "s \<le> 1 \<and> (s = 0 \<longrightarrow> a' = a) \<and> (\<not> a_owned a \<longrightarrow> s = 0 \<and> q = p) \<and>
    (s = 1 \<longrightarrow> \<not> a_owned a' \<and> arena_drop F a' q = (Done (), q))"
proof -
  have "s = 1 \<longrightarrow> arena_drop F a' q = (Done (), q)"
    using arena_handle.drop_after_success [of F n a p 0 a' q] assms by auto
  then show ?thesis
    using arena_handle.attempts_at_most_once [OF assms] arena_handle.attempts_not_owned [OF _ assms] by blast
qed

text \<open>
  C23. Trimming issues the decay command of the handle's arena first. When it is answered with a nonzero
  status that status is the error returned and nothing else is issued; otherwise exactly one more call
  follows, the purge command of the same arena, and its status decides the result.
\<close>

theorem arena_trim_order:
  assumes "caches_ok F p" and "cached ''arena_decay'' p = Some kd" and "cached ''arena_purge'' p = Some kp"
    and "arena_trim F a p = (Done r, q)"
  shows "\<exists>rep u. mallctlbymib F (notify_call (kd[1 := a_index a])) p = (Done rep, u) \<and>
    (if status rep \<noteq> 0
     then r = Inl (Error (status rep)) \<and> trace q = trace p @ [Call_bymib (notify_call (kd[1 := a_index a]))]
     else (\<exists>rep'. mallctlbymib F (notify_call (kp[1 := a_index a])) u = (Done rep', q) \<and>
       r = (if status rep' = 0 then Inr () else Inl (Error (status rep'))) \<and>
       trace q = trace p @ [Call_bymib (notify_call (kd[1 := a_index a])),
         Call_bymib (notify_call (kp[1 := a_index a]))]))"
proof -
  have d: "arena_decay F a p = raw_notify F (kd[1 := a_index a]) p"
    unfolding arena_op_defs key_defs
    by (rule selected_hit [OF assms(1) _ assms(2)]) simp_all
  have p: "arena_purge F a u = raw_notify F (kp[1 := a_index a]) u" if "caches u = caches p" for u
    unfolding arena_op_defs key_defs
    by (rule selected_hit) (use that assms(1,3) caches_ok_caches [of u p F] in \<open>simp_all add: cached_def\<close>)
  obtain rep u where c: "mallctlbymib F (notify_call (kd[1 := a_index a])) p = (Done rep, u)"
    using assms(4) unfolding arena_trim_def
    by (auto simp: run_try_eq d raw_notify_def run_then_def split: prod.splits outcome.splits)
  then have u: "caches u = caches p" "trace u = trace p @ [Call_bymib (notify_call (kd[1 := a_index a]))]"
    by (auto simp: mallctlbymib_def foreign_Done_iff)
  have trim: "arena_trim F a p = (if status rep \<noteq> 0 then (Done (Inl (Error (status rep))), u)
      else raw_notify F (kp[1 := a_index a]) u)"
    unfolding arena_trim_def
    by (simp add: run_try_eq d raw_notify_def run_then_def c p [OF u(1)] into_result_def from_code_def
        del: One_nat_def)
  show ?thesis
  proof (cases "status rep = 0")
    case False
    with c trim u assms(4) show ?thesis by auto
  next
    case True
    with trim assms(4) have n: "raw_notify F (kp[1 := a_index a]) u = (Done r, q)" by simp
    then obtain rep' where "mallctlbymib F (notify_call (kp[1 := a_index a])) u = (Done rep', q)"
      "r = (if status rep' = 0 then Inr () else Inl (Error (status rep')))"
      by (auto simp: raw_notify_def run_then_Done_iff into_result_def from_code_def split: if_splits)
    moreover from this(1) have "trace q = trace u @ [Call_bymib (notify_call (kp[1 := a_index a]))]"
      by (auto simp: mallctlbymib_def foreign_Done_iff)
    ultimately show ?thesis using c True u(2) by auto
  qed
qed

end
