(* ===== verification/Thread_Cache.thy ===== *)
theory Thread_Cache
  imports Controls Flags Handle
begin

text \<open>
  \<^verbatim>\<open>jevmalloc/src/thread/cache.rs\<close> and \<^verbatim>\<open>thread/cache/destroy_error.rs\<close>: the owning handle of an
  explicit thread cache. It follows the ownership protocol of the arenas, with the index passed as
  a value rather than in the key.
\<close>

section \<open>Operations\<close>

definition TCACHE_INDEX_LIMIT :: usize where
  "TCACHE_INDEX_LIMIT = 4094"

record thread_cache =
  t_index :: usize
  t_owned :: bool

definition tcache_validated_index :: "'s ffi \<Rightarrow> usize \<Rightarrow> ('p, c_uint ctl_result) comp" where
  "tcache_validated_index F i =
    (if TCACHE_INDEX_LIMIT \<le> i then fail (invalid_argument F)
     else case u32_try_from i of None \<Rightarrow> fail (invalid_argument F) | Some c \<Rightarrow> ret (Inr c))"

text \<open>The keys of the later operations are resolved before the cache exists.\<close>

definition tcache_create :: "'s ffi \<Rightarrow> ('s process, thread_cache ctl_result) comp" where
  "tcache_create F =
     run_try (key_tcache_create F) (\<lambda>create.
     run_try (key_tcache_flush F) (\<lambda>_.
     run_try (key_tcache_destroy F) (\<lambda>_.
     run_try (raw_get F u32_repr create) (\<lambda>c.
     run_try (case usize_try_from c of None \<Rightarrow> fail (invalid_argument F) | Some i \<Rightarrow> ret (Inr i)) (\<lambda>i.
     run_try (tcache_validated_index F i) (\<lambda>_.
     ret (Inr \<lparr>t_index = i, t_owned = True\<rparr>)))))))"

definition tcache_flags :: "thread_cache \<Rightarrow> c_int" where
  "tcache_flags t = MALLOCX_TCACHE (t_index t)"

definition tcache_flush :: "'s ffi \<Rightarrow> thread_cache \<Rightarrow> ('s process, unit ctl_result) comp" where
  "tcache_flush F t =
     run_try (key_tcache_flush F) (\<lambda>key.
     run_try (tcache_validated_index F (t_index t)) (\<lambda>index.
     raw_set F u32_repr key index))"

definition tcache_destroy :: "'s ffi \<Rightarrow> thread_cache \<Rightarrow> ('s process, unit ctl_result \<times> thread_cache) comp" where
  "tcache_destroy F t =
     run_then
      (if \<not> t_owned t then fail (invalid_argument F)
       else run_try (key_tcache_destroy F) (\<lambda>key.
            run_try (tcache_validated_index F (t_index t)) (\<lambda>index.
            raw_set F u32_repr key index)))
      (\<lambda>r. ret (case r of Inl e \<Rightarrow> (Inl e, t) | Inr _ \<Rightarrow> (Inr (), t\<lparr>t_owned := False\<rparr>)))"

definition tcache_drop :: "'s ffi \<Rightarrow> thread_cache \<Rightarrow> ('s process, unit) comp" where
  "tcache_drop F t =
    (if t_owned t then run_then (tcache_destroy F t) (\<lambda>_. ret ()) else ret ())"

record thread_cache_destroy_error =
  tde_error :: error
  tde_cache :: thread_cache

definition tcache_destroy_error_new :: "error \<Rightarrow> thread_cache \<Rightarrow> thread_cache_destroy_error" where
  [simp]: "tcache_destroy_error_new e t = \<lparr>tde_error = e, tde_cache = t\<rparr>"

definition tcache_destroy_error_status :: "thread_cache_destroy_error \<Rightarrow> error" where
  "tcache_destroy_error_status e = tde_error e"

definition tcache_destroy_error_cache :: "thread_cache_destroy_error \<Rightarrow> thread_cache" where
  "tcache_destroy_error_cache e = tde_cache e"

definition tcache_destroy_error_source :: "thread_cache_destroy_error \<Rightarrow> error option" where
  "tcache_destroy_error_source e = Some (tde_error e)"

definition tcache_into_parts :: "thread_cache_destroy_error \<Rightarrow> error \<times> thread_cache" where
  "tcache_into_parts e = (tde_error e, tde_cache e)"

definition tcache_destroy_error_display :: "'s ffi \<Rightarrow> thread_cache_destroy_error \<Rightarrow> string" where
  "tcache_destroy_error_display F e =
     ''failed to destroy explicit thread cache '' @ show_nat (unat (t_index (tde_cache e))) @
     '': '' @ error_display F (tde_error e)"

definition tcache_try_destroy ::
    "'s ffi \<Rightarrow> thread_cache \<Rightarrow> ('s process, thread_cache_destroy_error + unit) comp" where
  "tcache_try_destroy F t =
     run_then (tcache_destroy F t) (\<lambda>(r, t'). case r of
       Inr _ \<Rightarrow> run_then (tcache_drop F t') (\<lambda>_. ret (Inr ()))
     | Inl e \<Rightarrow> ret (Inl (tcache_destroy_error_new e t')))"

section \<open>Ownership\<close>

interpretation tcache_handle: owning_handle "tcache_destroy F" "tcache_drop F" t_owned
  for F :: "'s ffi"
proof unfold_locales
  fix h :: thread_cache and h' and p q :: "'s process" and r e u
  show "(\<exists>e. r = Inl e) \<and> h' = h \<and> q = p" if "\<not> t_owned h" "tcache_destroy F h p = (Done (r, h'), q)"
    using that by (auto simp: tcache_destroy_def run_then_Done_iff dest!: fail_EINVAL_Done)
  show "\<not> t_owned h'" if "tcache_destroy F h p = (Done (Inr u, h'), q)"
    using that by (auto simp: tcache_destroy_def run_then_Done_iff settle_iff)
  show "h' = h" if "tcache_destroy F h p = (Done (Inl e, h'), q)"
    using that by (auto simp: tcache_destroy_def run_then_Done_iff settle_iff)
  show "t_owned h \<Longrightarrow> tcache_drop F h = run_then (tcache_destroy F h) (\<lambda>_. ret ())"
    by (simp add: tcache_drop_def)
  show "\<not> t_owned h \<Longrightarrow> tcache_drop F h = ret ()"
    by (simp add: tcache_drop_def)
qed

section \<open>Indices\<close>

lemma tcache_validated_index_iff:
  "tcache_validated_index F i p = (Done (Inr c), q) \<longleftrightarrow> unat i < 4094 \<and> unat c = unat i \<and> q = p"
proof -
  have lim: "TCACHE_INDEX_LIMIT \<le> i \<longleftrightarrow> 4094 \<le> unat i"
    by (simp add: TCACHE_INDEX_LIMIT_def word_le_nat_alt)
  show ?thesis
  proof (cases "4094 \<le> unat i")
    case True
    then show ?thesis by (simp add: tcache_validated_index_def lim invalid_argument_def)
  next
    case False
    then obtain d where "u32_try_from i = Some d" "unat d = unat i"
      using u32_try_from_small [of i] by auto
    with False show ?thesis
      by (auto simp: tcache_validated_index_def lim word_unat_eq_iff)
  qed
qed

text \<open>A created cache owns an index its flag word can carry, and later operations on it find their
  keys in the caches.\<close>

lemma tcache_create_Ok:
  assumes "keys_ok F p" and "tcache_create F p = (Done (Inr t), q)"
  shows "t_owned t \<and> unat (t_index t) < 4094"
  using assms(2)
  by (auto simp: tcache_create_def run_try_Ok_iff tcache_validated_index_iff usize_try_from_def)

section \<open>Safety\<close>

text \<open>
  What is documented of the controls of explicit caches: an index that is flushed or destroyed must be that
  of a cache that exists (\<open>live\<close>).
\<close>

definition tcache_controls :: "'s ffi \<Rightarrow> ('s machine \<Rightarrow> c_uint \<Rightarrow> bool) \<Rightarrow> bool" where
  "tcache_controls F live \<longleftrightarrow> lib_ok F \<and> reads_as F ''tcache.create'' u32_repr \<and>
     accepts_in F ''tcache.flush'' u32_repr live \<and> accepts_in F ''tcache.destroy'' u32_repr live"

lemma tcache_controlsD [simp]:
  assumes "tcache_controls F live"
  shows "lib_ok F" and "reads_as F ''tcache.create'' u32_repr" and "accepts_in F ''tcache.flush'' u32_repr live"
    and "accepts_in F ''tcache.destroy'' u32_repr live"
  using assms by (simp_all add: tcache_controls_def)

lemma tcache_index_ctl: "lib_ok F \<Longrightarrow> ctl_ok F (tcache_validated_index F i)"
  unfolding tcache_validated_index_def
  by (auto intro!: ctl_ok_fail ctl_ok_ret split: option.split)

lemma tcache_validated_index_cases:
  assumes "errno_ok F"
  shows "tcache_validated_index F i =
    (if unat i < 4094 then ret (Inr (ucast i)) else ret (Inl (Error (errno F EINVAL))))"
  using assms by (auto simp: tcache_validated_index_def TCACHE_INDEX_LIMIT_def word_le_nat_alt u32_try_from_def)

lemma tcache_create_safe: "tcache_controls F live \<Longrightarrow> ctl_ok F (tcache_create F)"
  unfolding tcache_create_def key_defs usize_try_from_def option.case run_try_ret_Inr
  by (intro with_plain_key ctl_ok_try [OF raw_get_ctl [where name = "''tcache.create''"]]
      ctl_ok_try [OF tcache_index_ctl] ctl_ok_ret) simp_all

text \<open>The handle's cache exists.\<close>

definition cache_exists :: "('s machine \<Rightarrow> c_uint \<Rightarrow> bool) \<Rightarrow> thread_cache \<Rightarrow> 's machine \<Rightarrow> bool" where
  "cache_exists live t m \<longleftrightarrow> live m (ucast (t_index t))"

lemma tcache_write_safe:
  assumes "lib_ok F" and "(acc, name) \<in> key_table" and "accepts_in F name u32_repr live"
  shows "ctl_ok_in F (cache_exists live t) (run_try (define_key F acc name) (\<lambda>key.
    run_try (tcache_validated_index F (t_index t)) (\<lambda>index. raw_set F u32_repr key index)))"
proof (rule with_plain_key_in [OF assms(1,2)])
  show "translation_keeps F (cache_exists live t)"
    using assms(3) by (simp add: accepts_in_def cache_exists_def [abs_def])
  fix k
  assume "k \<in> keys_of F name"
  then have "ctl_ok_in F (cache_exists live t) (raw_set F u32_repr k (ucast (t_index t)))"
    unfolding cache_exists_def using raw_set_ctl [OF assms(3)] by simp
  then show "ctl_ok_in F (cache_exists live t)
      (run_try (tcache_validated_index F (t_index t)) (\<lambda>index. raw_set F u32_repr k index))"
    using lib_okD(2) [OF assms(1)] by (auto simp: tcache_validated_index_cases error_wf_def intro!: safe_ret)
qed

lemma tcache_flush_safe: "tcache_controls F live \<Longrightarrow> ctl_ok_in F (cache_exists live t) (tcache_flush F t)"
  unfolding tcache_flush_def key_defs by (rule tcache_write_safe) simp_all

text \<open>A handle that owns needs its cache for a destruction; one that does not makes no call.\<close>

definition cache_owed :: "('s machine \<Rightarrow> c_uint \<Rightarrow> bool) \<Rightarrow> thread_cache \<Rightarrow> 's process \<Rightarrow> bool" where
  "cache_owed live t s \<longleftrightarrow> (t_owned t \<longrightarrow> cache_exists live t (mach s))"

lemma tcache_destroy_safe:
  assumes "tcache_controls F live"
  shows "safe (\<lambda>s. keys_ok F s \<and> cache_owed live t s) (tcache_destroy F t) (\<lambda>(r, t'). fine F r)"
proof -
  have "safe (\<lambda>s. keys_ok F s \<and> cache_owed live t s) (if \<not> t_owned t then fail (invalid_argument F)
      else run_try (key_tcache_destroy F) (\<lambda>key.
        run_try (tcache_validated_index F (t_index t)) (\<lambda>index. raw_set F u32_repr key index))) (fine F)"
  proof (cases "t_owned t")
    case True
    then show ?thesis
      using tcache_write_safe [where name = "''tcache.destroy''" and F = F and live = live and t = t] assms
      unfolding key_defs by (simp add: cache_owed_def)
  next
    case False
    with assms show ?thesis by (simp add: cache_owed_def ctl_ok_fail(1))
  qed
  then show ?thesis
    unfolding tcache_destroy_def by (rule safe_then) (auto intro!: safe_ret split: sum.splits)
qed

lemma tcache_drop_safe:
  assumes "tcache_controls F live"
  shows "safe (\<lambda>s. keys_ok F s \<and> cache_owed live t s) (tcache_drop F t) (\<lambda>_. keys_ok F)"
proof (cases "t_owned t")
  case True
  have "safe (\<lambda>s. keys_ok F s \<and> cache_owed live t s) (tcache_destroy F t) (\<lambda>_. keys_ok F)"
    by (rule safe_weaken [OF tcache_destroy_safe [OF assms]]) auto
  with True show ?thesis
    by (auto simp: tcache_drop_def intro: safe_then safe_ret)
next
  case False
  then show ?thesis by (auto simp: tcache_drop_def intro!: safe_ret)
qed

lemma tcache_try_destroy_eq:
  "tcache_try_destroy F t = run_then (tcache_destroy F t) (\<lambda>(r, t'). ret (case r of
     Inr _ \<Rightarrow> Inr () | Inl e \<Rightarrow> Inl \<lparr>tde_error = e, tde_cache = t\<rparr>))"
proof (rule ext)
  fix p
  show "tcache_try_destroy F t p = run_then (tcache_destroy F t) (\<lambda>(r, t'). ret (case r of
     Inr _ \<Rightarrow> Inr () | Inl e \<Rightarrow> Inl \<lparr>tde_error = e, tde_cache = t\<rparr>)) p"
    using tcache_handle.released [of F t p] tcache_handle.retained [of F t p]
    by (auto simp: tcache_try_destroy_def run_then_def tcache_handle.drop_other
        split: prod.splits outcome.splits sum.splits)
qed

lemma tcache_try_destroy_safe:
  assumes "tcache_controls F live"
  shows "safe (\<lambda>s. keys_ok F s \<and> cache_owed live t s) (tcache_try_destroy F t)
    (\<lambda>r s. keys_ok F s \<and> (case r of Inl e \<Rightarrow> error_wf (tde_error e) \<and> tde_cache e = t | Inr _ \<Rightarrow> True))"
  unfolding tcache_try_destroy_eq
  by (rule safe_then [OF tcache_destroy_safe [OF assms]]) (auto intro!: safe_ret split: sum.splits)

end
