(* ===== verification/Thread_This.thy ===== *)
theory Thread_This
  imports Arena Thread_Cache
begin

text \<open>
  \<^verbatim>\<open>jevmalloc/src/thread/this.rs\<close>, \<^verbatim>\<open>thread/counters.rs\<close> and \<^verbatim>\<open>arenas.rs\<close>: the controls of the calling
  thread, its direct counters, and the allocator-wide arena controls.
\<close>

section \<open>The calling thread\<close>

definition TCACHE_NCACHED_MAX_SETTINGS_LEN :: nat where
  "TCACHE_NCACHED_MAX_SETTINGS_LEN = 1000"

definition this_trim :: "'s ffi \<Rightarrow> ('s process, unit ctl_result) comp" where
  "this_trim F = run_try (arena_current F) (\<lambda>a. arena_trim F a)"

definition this_purge :: "'s ffi \<Rightarrow> ('s process, unit ctl_result) comp" where
  "this_purge F = run_try (arena_current F) (\<lambda>a. arena_purge F a)"

definition this_decay :: "'s ffi \<Rightarrow> ('s process, unit ctl_result) comp" where
  "this_decay F = run_try (arena_current F) (\<lambda>a. arena_decay F a)"

definition this_idle :: "'s ffi \<Rightarrow> ('s process, unit ctl_result) comp" where
  "this_idle F = run_try (key_thread_idle F) (\<lambda>key. raw_notify F key)"

definition this_flush :: "'s ffi \<Rightarrow> ('s process, unit ctl_result) comp" where
  "this_flush F = run_try (key_thread_tcache_flush F) (\<lambda>key. raw_notify F key)"

definition this_set_muzzy_decay :: "'s ffi \<Rightarrow> isize \<Rightarrow> ('s process, isize ctl_result) comp" where
  "this_set_muzzy_decay F ms = run_try (arena_current F) (\<lambda>a. set_muzzy_decay F a ms)"

definition this_get_muzzy_decay :: "'s ffi \<Rightarrow> ('s process, isize ctl_result) comp" where
  "this_get_muzzy_decay F = run_try (arena_current F) (\<lambda>a. muzzy_decay F a)"

definition this_set_dirty_decay :: "'s ffi \<Rightarrow> isize \<Rightarrow> ('s process, isize ctl_result) comp" where
  "this_set_dirty_decay F ms = run_try (arena_current F) (\<lambda>a. set_dirty_decay F a ms)"

definition this_get_dirty_decay :: "'s ffi \<Rightarrow> ('s process, isize ctl_result) comp" where
  "this_get_dirty_decay F = run_try (arena_current F) (\<lambda>a. dirty_decay F a)"

definition cache_enable :: "'s ffi \<Rightarrow> bool \<Rightarrow> ('s process, bool ctl_result) comp" where
  "cache_enable F enable = run_try (key_thread_tcache_enabled F) (\<lambda>key. xchg_bool F key enable)"

definition is_cache_enabled :: "'s ffi \<Rightarrow> ('s process, bool ctl_result) comp" where
  "is_cache_enabled F = run_try (key_thread_tcache_enabled F) (\<lambda>key. get_bool F key)"

definition tcache_max :: "'s ffi \<Rightarrow> ('s process, usize ctl_result) comp" where
  "tcache_max F = run_try (key_thread_tcache_max F) (\<lambda>key. raw_get F usize_repr key)"

definition set_tcache_max :: "'s ffi \<Rightarrow> usize \<Rightarrow> ('s process, usize ctl_result) comp" where
  "set_tcache_max F m = run_try (key_thread_tcache_max F) (\<lambda>key. raw_xchg F usize_repr key m)"

definition tcache_ncached_max :: "'s ffi \<Rightarrow> usize \<Rightarrow> ('s process, usize ctl_result) comp" where
  "tcache_ncached_max F sc =
     run_try (key_thread_tcache_ncached_max_read_sizeclass F) (\<lambda>key.
     raw_update F usize_repr usize_repr key sc)"

text \<open>
  The settings are a C string (its bytes before the NUL); they are copied into a zeroed local buffer
  whose address is the value written.
\<close>

definition set_tcache_ncached_max :: "'s ffi \<Rightarrow> byte list \<Rightarrow> ('s process, unit ctl_result) comp" where
  "set_tcache_ncached_max F settings =
    (let bytes = settings @ [0] in
     if TCACHE_NCACHED_MAX_SETTINGS_LEN < length bytes then fail (invalid_argument F)
     else run_try (key_thread_tcache_ncached_max_write F) (\<lambda>key.
       with_local F (bytes @ replicate (TCACHE_NCACHED_MAX_SETTINGS_LEN - length bytes) 0) (\<lambda>buffer.
       raw_set F ptr_repr key buffer)))"

definition this_prof_enable :: "'s ffi \<Rightarrow> bool \<Rightarrow> ('s process, bool ctl_result) comp" where
  "this_prof_enable F enable = run_try (key_thread_prof_active F) (\<lambda>key. xchg_bool F key enable)"

definition this_is_prof_enabled :: "'s ffi \<Rightarrow> ('s process, bool ctl_result) comp" where
  "this_is_prof_enabled F = run_try (key_thread_prof_active F) (\<lambda>key. get_bool F key)"

definition reset_peak :: "'s ffi \<Rightarrow> ('s process, unit ctl_result) comp" where
  "reset_peak F = run_try (key_thread_peak_reset F) (\<lambda>key. raw_notify F key)"

definition peak :: "'s ffi \<Rightarrow> ('s process, u64 ctl_result) comp" where
  "peak F = run_try (key_thread_peak_read F) (\<lambda>key. raw_get F u64_repr key)"

definition this_allocated :: "'s ffi \<Rightarrow> ('s process, u64 ctl_result) comp" where
  "this_allocated F = run_try (key_thread_allocated F) (\<lambda>key. raw_get F u64_repr key)"

definition this_deallocated :: "'s ffi \<Rightarrow> ('s process, u64 ctl_result) comp" where
  "this_deallocated F = run_try (key_thread_deallocated F) (\<lambda>key. raw_get F u64_repr key)"

section \<open>Direct counters\<close>

record thread_counters =
  tc_allocated :: usize
  tc_deallocated :: usize

definition counters_current :: "'s ffi \<Rightarrow> ('s process, thread_counters ctl_result) comp" where
  "counters_current F =
     run_try (key_thread_allocatedp F) (\<lambda>allocated_key.
     run_try (key_thread_deallocatedp F) (\<lambda>deallocated_key.
     run_try (raw_get F ptr_repr allocated_key) (\<lambda>allocated.
     run_try (raw_get F ptr_repr deallocated_key) (\<lambda>deallocated.
     run_try (non_null F allocated) (\<lambda>allocated.
     run_try (non_null F deallocated) (\<lambda>deallocated.
     ret (Inr \<lparr>tc_allocated = allocated, tc_deallocated = deallocated\<rparr>)))))))"

text \<open>A raw load of a 64-bit counter: undefined unless eight bytes are readable there.\<close>

definition load_u64 :: "usize \<Rightarrow> ('s process, u64) comp" where
  "load_u64 ptr = (\<lambda>p. case bytes_at (mach p) ptr of
      None \<Rightarrow> (Undef, p)
    | Some bs \<Rightarrow> (case dec u64_repr (take 8 bs) of None \<Rightarrow> (Undef, p) | Some v \<Rightarrow> (Done v, p)))"

definition counters_allocated :: "thread_counters \<Rightarrow> ('s process, u64) comp" where
  "counters_allocated c = load_u64 (tc_allocated c)"

definition counters_deallocated :: "thread_counters \<Rightarrow> ('s process, u64) comp" where
  "counters_deallocated c = load_u64 (tc_deallocated c)"

section \<open>All arenas\<close>

definition ALL_ARENAS :: usize where
  "ALL_ARENAS = 4096"

definition arenas_select :: "key \<Rightarrow> ('s process, key) comp" where
  "arenas_select k = select_key k ALL_ARENAS"

definition arenas_notify :: "'s ffi \<Rightarrow> key \<Rightarrow> ('s process, unit ctl_result) comp" where
  "arenas_notify F k = run_then (arenas_select k) (\<lambda>key. raw_notify F key)"

definition arenas_decay :: "'s ffi \<Rightarrow> ('s process, unit ctl_result) comp" where
  "arenas_decay F = run_try (key_arena_decay F) (\<lambda>key. arenas_notify F key)"

definition arenas_purge :: "'s ffi \<Rightarrow> ('s process, unit ctl_result) comp" where
  "arenas_purge F = run_try (key_arena_purge F) (\<lambda>key. arenas_notify F key)"

definition arenas_trim :: "'s ffi \<Rightarrow> ('s process, unit ctl_result) comp" where
  "arenas_trim F = run_try (arenas_decay F) (\<lambda>_. arenas_purge F)"

definition arenas_muzzy_decay :: "'s ffi \<Rightarrow> ('s process, isize ctl_result) comp" where
  "arenas_muzzy_decay F = run_try (key_arenas_muzzy_decay F) (\<lambda>key. raw_get F isize_repr key)"

definition arenas_set_muzzy_decay :: "'s ffi \<Rightarrow> isize \<Rightarrow> ('s process, isize ctl_result) comp" where
  "arenas_set_muzzy_decay F ms = run_try (key_arenas_muzzy_decay F) (\<lambda>key. raw_xchg F isize_repr key ms)"

definition arenas_dirty_decay :: "'s ffi \<Rightarrow> ('s process, isize ctl_result) comp" where
  "arenas_dirty_decay F = run_try (key_arenas_dirty_decay F) (\<lambda>key. raw_get F isize_repr key)"

definition arenas_set_dirty_decay :: "'s ffi \<Rightarrow> isize \<Rightarrow> ('s process, isize ctl_result) comp" where
  "arenas_set_dirty_decay F ms = run_try (key_arenas_dirty_decay F) (\<lambda>key. raw_xchg F isize_repr key ms)"

definition arenas_dss :: "'s ffi \<Rightarrow> ('s process, dss ctl_result) comp" where
  "arenas_dss F =
     run_try (key_arena_dss F) (\<lambda>k.
     run_then (arenas_select k) (\<lambda>key.
     run_try (raw_get F ptr_repr key) (\<lambda>ptr. dss_from_ptr F ptr)))"

definition arenas_set_dss :: "'s ffi \<Rightarrow> dss \<Rightarrow> ('s process, dss ctl_result) comp" where
  "arenas_set_dss F d =
     run_try (key_arena_dss F) (\<lambda>k.
     run_then (arenas_select k) (\<lambda>key.
     run_try (raw_xchg F ptr_repr key (dss_as_ptr F d)) (\<lambda>resulting. dss_from_ptr F resulting)))"

definition arenas_limit :: "'s ffi \<Rightarrow> ('s process, usize ctl_result) comp" where
  "arenas_limit F =
     run_try (key_arenas_limit F) (\<lambda>key.
     run_try (raw_get F u32_repr key) (\<lambda>c. usize_of_uint F c))"

definition arenas_quantum :: "'s ffi \<Rightarrow> ('s process, usize ctl_result) comp" where
  "arenas_quantum F = run_try (key_arenas_quantum F) (\<lambda>key. raw_get F usize_repr key)"

definition percpu_mode :: "'s ffi \<Rightarrow> ('s process, string ctl_result) comp" where
  "percpu_mode F =
     run_try (key_opt_percpu_arena F) (\<lambda>key.
     run_try (raw_get F ptr_repr key) (\<lambda>ptr.
     if ptr = 0 then fail (bad_address F)
     else run_then (read_c_str ptr) (\<lambda>v.
       if v = str_bytes ''disabled'' then ret (Inr ''disabled'')
       else if v = str_bytes ''percpu'' then ret (Inr ''percpu'')
       else if v = str_bytes ''phycpu'' then ret (Inr ''phycpu'')
       else fail (invalid_argument F))))"

text \<open>\<^verbatim>\<open>percpu_mode().is_ok_and(..)\<close>\<close>

definition mode_test :: "'s ffi \<Rightarrow> string list \<Rightarrow> ('s process, bool) comp" where
  "mode_test F modes = run_then (percpu_mode F) (\<lambda>r. ret (case r of Inl _ \<Rightarrow> False | Inr m \<Rightarrow> m \<in> set modes))"

definition is_affine :: "'s ffi \<Rightarrow> ('s process, bool) comp" where
  "is_affine F = mode_test F [''percpu'', ''phycpu'']"

definition is_percpu :: "'s ffi \<Rightarrow> ('s process, bool) comp" where
  "is_percpu F = mode_test F [''percpu'']"

definition is_phycpu :: "'s ffi \<Rightarrow> ('s process, bool) comp" where
  "is_phycpu F = mode_test F [''phycpu'']"

section \<open>Safety\<close>

text \<open>The settings string is handed over in the local buffer, NUL-terminated.\<close>

definition ncached_writes :: "'s ffi \<Rightarrow> bool" where
  "ncached_writes F \<longleftrightarrow> (\<forall>k \<in> keys_of F ''thread.tcache.ncached_max.write''. \<forall>bs.
     length bs = TCACHE_NCACHED_MAX_SETTINGS_LEN \<longrightarrow> 0 \<in> set bs \<longrightarrow>
     local_call_ok F bs (write_call ptr_repr k) (\<lambda>_ _ _. True))"

definition thread_controls :: "'s ffi \<Rightarrow> bool" where
  "thread_controls F \<longleftrightarrow> arena_controls F \<and>
     commands F ''thread.idle'' \<and> commands F ''thread.tcache.flush'' \<and> commands F ''thread.peak.reset'' \<and>
     bool_control F ''thread.tcache.enabled'' \<and> bool_control F ''thread.prof.active'' \<and>
     reads_as F ''thread.tcache.max'' usize_repr \<and> updates_as F ''thread.tcache.max'' usize_repr usize_repr \<and>
     updates_as F ''thread.tcache.ncached_max.read_sizeclass'' usize_repr usize_repr \<and>
     reads_as F ''thread.peak.read'' u64_repr \<and> reads_as F ''thread.allocated'' u64_repr \<and>
     reads_as F ''thread.deallocated'' u64_repr \<and>
     reads_as F ''thread.allocatedp'' ptr_repr \<and> reads_as F ''thread.deallocatedp'' ptr_repr \<and> ncached_writes F"

lemma thread_controlsD [simp]:
  assumes "thread_controls F"
  shows "arena_controls F" and "lib_ok F"
    and "commands F ''thread.idle''" and "commands F ''thread.tcache.flush''" and "commands F ''thread.peak.reset''"
    and "bool_control F ''thread.tcache.enabled''" and "bool_control F ''thread.prof.active''"
    and "reads_as F ''thread.tcache.max'' usize_repr" and "updates_as F ''thread.tcache.max'' usize_repr usize_repr"
    and "updates_as F ''thread.tcache.ncached_max.read_sizeclass'' usize_repr usize_repr"
    and "reads_as F ''thread.peak.read'' u64_repr" and "reads_as F ''thread.allocated'' u64_repr"
    and "reads_as F ''thread.deallocated'' u64_repr"
    and "reads_as F ''thread.allocatedp'' ptr_repr" and "reads_as F ''thread.deallocatedp'' ptr_repr"
    and "ncached_writes F"
  using assms by (simp_all add: thread_controls_def)

lemma this_arena_safe:
  assumes "arena_controls F"
  shows "ctl_ok F (this_trim F)" and "ctl_ok F (this_purge F)" and "ctl_ok F (this_decay F)"
    and "ctl_ok F (this_set_muzzy_decay F ms)" and "ctl_ok F (this_get_muzzy_decay F)"
    and "ctl_ok F (this_set_dirty_decay F ms)" and "ctl_ok F (this_get_dirty_decay F)"
  unfolding this_trim_def this_purge_def this_decay_def this_set_muzzy_decay_def this_get_muzzy_decay_def
    this_set_dirty_decay_def this_get_dirty_decay_def
  using assms by (auto intro!: ctl_ok_try arena_thread_safe arena_commands_safe arena_values_safe)

lemma this_values_safe:
  assumes "thread_controls F"
  shows "ctl_ok F (this_idle F)" and "ctl_ok F (this_flush F)" and "ctl_ok F (cache_enable F b)"
    and "ctl_ok F (is_cache_enabled F)" and "ctl_ok F (tcache_max F)" and "ctl_ok F (set_tcache_max F n)"
    and "ctl_ok F (tcache_ncached_max F n)" and "ctl_ok F (this_prof_enable F b)"
    and "ctl_ok F (this_is_prof_enabled F)" and "ctl_ok F (reset_peak F)" and "ctl_ok F (peak F)"
    and "ctl_ok F (this_allocated F)" and "ctl_ok F (this_deallocated F)"
  unfolding this_idle_def this_flush_def cache_enable_def is_cache_enabled_def tcache_max_def set_tcache_max_def
    tcache_ncached_max_def this_prof_enable_def this_is_prof_enabled_def reset_peak_def peak_def
    this_allocated_def this_deallocated_def key_defs
  using assms by (simp_all add: plain_control)

lemma set_tcache_ncached_max_safe:
  assumes "thread_controls F"
  shows "ctl_ok F (set_tcache_ncached_max F settings)"
proof -
  have inner: "ctl_ok F (with_local F bs (\<lambda>buffer. raw_set F ptr_repr k buffer))"
    if "k \<in> keys_of F ''thread.tcache.ncached_max.write''" "length bs = TCACHE_NCACHED_MAX_SETTINGS_LEN" "0 \<in> set bs"
    for k bs
  proof -
    have "local_call_ok F bs (write_call ptr_repr k) (\<lambda>_ _ _. True)"
      using thread_controlsD(16) [OF assms] that by (simp add: ncached_writes_def)
    then show ?thesis
      unfolding raw_set_eq [OF u64.size_pos]
      by (rule with_local_ctl) (auto simp: into_result_def from_code_def error_wf_def)
  qed
  show ?thesis
    unfolding set_tcache_ncached_max_def Let_def key_defs
    by (intro ctl_ok_if ctl_ok_fail(1) with_plain_key inner) (use assms in simp_all)
qed

lemma counters_current_safe:
  assumes "thread_controls F"
  shows "ctl_ok F (counters_current F)"
  unfolding counters_current_def key_defs using assms
  by (intro with_plain_key ctl_ok_try [OF raw_get_ctl] ctl_ok_try [OF index_ctl(5)] ctl_ok_ret) simp_all

text \<open>The handle never holds a null pointer.\<close>

lemma counters_current_non_null:
  "counters_current F p = (Done (Inr c), q) \<Longrightarrow> tc_allocated c \<noteq> 0 \<and> tc_deallocated c \<noteq> 0"
  by (auto simp: counters_current_def run_try_Ok_iff non_null_def bad_address_def split: if_splits)

definition arenas_controls :: "'s ffi \<Rightarrow> bool" where
  "arenas_controls F \<longleftrightarrow> arena_controls F \<and>
     reads_as F ''arenas.muzzy_decay_ms'' isize_repr \<and> updates_as F ''arenas.muzzy_decay_ms'' isize_repr isize_repr \<and>
     reads_as F ''arenas.dirty_decay_ms'' isize_repr \<and> updates_as F ''arenas.dirty_decay_ms'' isize_repr isize_repr \<and>
     reads_as F ''arenas.narenas'' u32_repr \<and> reads_as F ''arenas.quantum'' usize_repr \<and>
     cstr_control F ''opt.percpu_arena''"

lemmas arenas_defs = arenas_decay_def arenas_purge_def arenas_trim_def arenas_notify_def arenas_select_def
  arenas_muzzy_decay_def arenas_set_muzzy_decay_def arenas_dirty_decay_def arenas_set_dirty_decay_def
  arenas_dss_def arenas_set_dss_def arenas_limit_def arenas_quantum_def

lemma arenas_safe:
  assumes "arenas_controls F"
  shows "ctl_ok F (arenas_decay F)" and "ctl_ok F (arenas_purge F)" and "ctl_ok F (arenas_trim F)"
    and "ctl_ok F (arenas_muzzy_decay F)" and "ctl_ok F (arenas_set_muzzy_decay F ms)"
    and "ctl_ok F (arenas_dirty_decay F)" and "ctl_ok F (arenas_set_dirty_decay F ms)"
    and "ctl_ok F (arenas_quantum F)"
  unfolding arenas_defs key_defs
  using assms unfolding arenas_controls_def
  by (auto simp: plain_control intro!: ctl_ok_try [OF selected_control(3)] selected_control(3))

lemma arenas_dss_safe:
  assumes "arenas_controls F"
  shows "ctl_ok F (arenas_dss F)" and "ctl_ok F (arenas_set_dss F d)"
  unfolding arenas_defs key_defs using assms unfolding arenas_controls_def
  by (auto intro!: with_selected_key dss_from_ptr_safe
      intro: ctl_ok_ptr_get [where name = "''arena.0.dss''"] ctl_ok_ptr_xchg [where name = "''arena.0.dss''"])

lemma arenas_limit_safe: "arenas_controls F \<Longrightarrow> ctl_ok F (arenas_limit F)"
  unfolding arenas_defs key_defs usize_of_uint arenas_controls_def
  by (intro with_plain_key ctl_ok_try [OF raw_get_ctl [where name = "''arenas.narenas''"]] ctl_ok_ret) simp_all

lemma mode_of_string_safe:
  assumes "errno_ok F"
  shows "safe (\<lambda>s. keys_ok F s \<and> string_or_null ptr s)
    (if ptr = 0 then fail (bad_address F)
     else run_then (read_c_str ptr) (\<lambda>v.
       if v = str_bytes ''disabled'' then ret (Inr ''disabled'')
       else if v = str_bytes ''percpu'' then ret (Inr ''percpu'')
       else if v = str_bytes ''phycpu'' then ret (Inr ''phycpu'')
       else fail (invalid_argument F))) (fine F)"
  using assms
  by (auto simp: safe_def string_or_null_def read_c_str_def run_then_def error_wf_def split: option.splits)

lemma percpu_mode_safe:
  assumes "arenas_controls F"
  shows "ctl_ok F (percpu_mode F)"
proof -
  have "lib_ok F" "cstr_control F ''opt.percpu_arena''"
    using assms unfolding arenas_controls_def by simp_all
  then show ?thesis
    unfolding percpu_mode_def key_defs
    by (intro with_plain_key ctl_ok_ptr_get mode_of_string_safe) auto
qed

lemma percpu_mode_cases:
  "percpu_mode F p = (Done (Inr m), q) \<Longrightarrow> m = ''disabled'' \<or> m = ''percpu'' \<or> m = ''phycpu''"
  by (auto simp: percpu_mode_def run_try_Ok_iff run_then_Done_iff bad_address_def invalid_argument_def
      split: if_splits)

lemma processor_mode_exclusive:
  assumes "arenas_controls F"
  shows "keys_ok F p \<longrightarrow> (\<exists>x y z q. is_affine F p = (Done x, q) \<and> is_percpu F p = (Done y, q) \<and>
    is_phycpu F p = (Done z, q) \<and> x = (y \<or> z) \<and> \<not> (y \<and> z))"
proof
  assume ok: "keys_ok F p"
  obtain r q where "percpu_mode F p = (Done r, q)"
    using safeD [OF percpu_mode_safe [OF assms] ok] by blast
  then show "\<exists>x y z q. is_affine F p = (Done x, q) \<and> is_percpu F p = (Done y, q) \<and>
      is_phycpu F p = (Done z, q) \<and> x = (y \<or> z) \<and> \<not> (y \<and> z)"
    by (auto simp: is_affine_def is_percpu_def is_phycpu_def mode_test_def run_then_def split: sum.splits)
qed

section \<open>Properties\<close>

text \<open>
  C31. The controls of the calling thread and of all arenas are safe when they have their documented
  types: they return, keep the key caches consistent and report errors as nonzero codes. So are creation,
  flushing, dropping and explicit destruction of explicit thread caches, as long as the cache of a handle
  that is flushed, or that owns and is destroyed, exists; a failed destruction gives the handle back. A
  counter handle never holds a null pointer, and at most one of the two tests of the processor mode holds.
\<close>

theorem process_operations_safe:
  assumes "thread_controls F" and "tcache_controls F live" and "arenas_controls F"
  shows "ctl_ok F (this_trim F) \<and> ctl_ok F (this_purge F) \<and> ctl_ok F (this_decay F) \<and> ctl_ok F (this_idle F) \<and>
    ctl_ok F (this_flush F) \<and> ctl_ok F (this_set_muzzy_decay F ms) \<and> ctl_ok F (this_get_muzzy_decay F) \<and>
    ctl_ok F (this_set_dirty_decay F ms) \<and> ctl_ok F (this_get_dirty_decay F) \<and> ctl_ok F (cache_enable F b) \<and>
    ctl_ok F (is_cache_enabled F) \<and> ctl_ok F (tcache_max F) \<and> ctl_ok F (set_tcache_max F n) \<and>
    ctl_ok F (tcache_ncached_max F n) \<and> ctl_ok F (set_tcache_ncached_max F settings) \<and>
    ctl_ok F (set_arena F n) \<and> ctl_ok F (arena_id F) \<and>
    ctl_ok F (this_prof_enable F b) \<and> ctl_ok F (this_is_prof_enabled F) \<and> ctl_ok F (reset_peak F) \<and>
    ctl_ok F (peak F) \<and> ctl_ok F (this_allocated F) \<and> ctl_ok F (this_deallocated F) \<and>
    ctl_ok F (counters_current F) \<and>
    ctl_ok F (tcache_create F) \<and> ctl_ok_in F (cache_exists live t) (tcache_flush F t) \<and>
    safe (\<lambda>s. keys_ok F s \<and> cache_owed live t s) (tcache_drop F t) (\<lambda>_. keys_ok F) \<and>
    safe (\<lambda>s. keys_ok F s \<and> cache_owed live t s) (tcache_try_destroy F t)
      (\<lambda>r s. keys_ok F s \<and> (case r of Inl e \<Rightarrow> error_wf (tde_error e) \<and> tde_cache e = t | Inr _ \<Rightarrow> True)) \<and>
    (counters_current F p = (Done (Inr c), q) \<longrightarrow> tc_allocated c \<noteq> 0 \<and> tc_deallocated c \<noteq> 0) \<and>
    ctl_ok F (arenas_trim F) \<and> ctl_ok F (arenas_purge F) \<and> ctl_ok F (arenas_decay F) \<and>
    ctl_ok F (arenas_muzzy_decay F) \<and> ctl_ok F (arenas_set_muzzy_decay F ms) \<and>
    ctl_ok F (arenas_dirty_decay F) \<and> ctl_ok F (arenas_set_dirty_decay F ms) \<and>
    ctl_ok F (arenas_dss F) \<and> ctl_ok F (arenas_set_dss F d) \<and> ctl_ok F (arenas_limit F) \<and>
    ctl_ok F (arenas_quantum F) \<and> ctl_ok F (percpu_mode F) \<and>
    (keys_ok F r \<longrightarrow> (\<exists>x y z q. is_affine F r = (Done x, q) \<and> is_percpu F r = (Done y, q) \<and>
       is_phycpu F r = (Done z, q) \<and> x = (y \<or> z) \<and> \<not> (y \<and> z)))"
  using assms counters_current_non_null [of F p c q] processor_mode_exclusive [OF assms(3), of r]
  by (simp add: this_arena_safe this_values_safe counters_current_safe arena_thread_safe set_tcache_ncached_max_safe
      tcache_create_safe tcache_flush_safe tcache_drop_safe tcache_try_destroy_safe
      arenas_safe arenas_dss_safe arenas_limit_safe percpu_mode_safe)

end
