(* ===== verification/Options.thy ===== *)
theory Options
  imports Controls
begin

text \<open>
  \<^verbatim>\<open>jevmalloc/src/config.rs\<close>, \<^verbatim>\<open>opt.rs\<close>, \<^verbatim>\<open>profiling.rs\<close> and \<^verbatim>\<open>background_thread_enable\<close> of \<^verbatim>\<open>lib.rs\<close>: the
  getters of build-time configuration and startup options and the profiling controls. The three
  getter macros are definitions, applied once per control. Shown: with the documented C type of
  every control, each getter is safe, on both boolean representations.
\<close>

named_theorems option_defs \<open>definitions of the option getters\<close>

section \<open>The getter macros\<close>

definition bool_getter ::
    "'s ffi \<Rightarrow> ('s process, key ctl_result) comp \<Rightarrow> ('s process, bool ctl_result) comp" where
  "bool_getter F key_fn = run_try key_fn (\<lambda>key. get_bool F key)"

definition scalar_getter ::
    "'s ffi \<Rightarrow> 'v crepr \<Rightarrow> ('s process, key ctl_result) comp \<Rightarrow> ('s process, 'v ctl_result) comp" where
  "scalar_getter F T key_fn = run_try key_fn (\<lambda>key. raw_get F T key)"

definition cstr_getter ::
    "'s ffi \<Rightarrow> ('s process, key ctl_result) comp \<Rightarrow> ('s process, byte list ctl_result) comp" where
  "cstr_getter F key_fn = run_try key_fn (\<lambda>key. get_cstr F key)"

text \<open>\<^verbatim>\<open>config.rs\<close> has a macro of its own for its getters.\<close>

definition config_bool_getter ::
    "'s ffi \<Rightarrow> ('s process, key ctl_result) comp \<Rightarrow> ('s process, bool ctl_result) comp" where
  [option_defs]: "config_bool_getter F key_fn = run_try key_fn (\<lambda>key. get_bool F key)"

section \<open>Build-time configuration\<close>

definition config_cache_oblivious :: "'s ffi \<Rightarrow> ('s process, bool ctl_result) comp" where
  [option_defs]: "config_cache_oblivious F = config_bool_getter F (key_config_cache_oblivious F)"

definition config_debug :: "'s ffi \<Rightarrow> ('s process, bool ctl_result) comp" where
  [option_defs]: "config_debug F = config_bool_getter F (key_config_debug F)"

definition config_fill :: "'s ffi \<Rightarrow> ('s process, bool ctl_result) comp" where
  [option_defs]: "config_fill F = config_bool_getter F (key_config_fill F)"

definition config_lazy_lock :: "'s ffi \<Rightarrow> ('s process, bool ctl_result) comp" where
  [option_defs]: "config_lazy_lock F = config_bool_getter F (key_config_lazy_lock F)"

definition config_prof :: "'s ffi \<Rightarrow> ('s process, bool ctl_result) comp" where
  [option_defs]: "config_prof F = config_bool_getter F (key_config_prof F)"

definition config_prof_libgcc :: "'s ffi \<Rightarrow> ('s process, bool ctl_result) comp" where
  [option_defs]: "config_prof_libgcc F = config_bool_getter F (key_config_prof_libgcc F)"

definition config_prof_libunwind :: "'s ffi \<Rightarrow> ('s process, bool ctl_result) comp" where
  [option_defs]: "config_prof_libunwind F = config_bool_getter F (key_config_prof_libunwind F)"

definition config_stats :: "'s ffi \<Rightarrow> ('s process, bool ctl_result) comp" where
  [option_defs]: "config_stats F = config_bool_getter F (key_config_stats F)"

definition config_utrace :: "'s ffi \<Rightarrow> ('s process, bool ctl_result) comp" where
  [option_defs]: "config_utrace F = config_bool_getter F (key_config_utrace F)"

definition config_xmalloc :: "'s ffi \<Rightarrow> ('s process, bool ctl_result) comp" where
  [option_defs]: "config_xmalloc F = config_bool_getter F (key_config_xmalloc F)"

definition config_malloc_conf :: "'s ffi \<Rightarrow> ('s process, byte list ctl_result) comp" where
  [option_defs]: "config_malloc_conf F = cstr_getter F (key_config_malloc_conf F)"

section \<open>Startup options\<close>

definition opt_abort :: "'s ffi \<Rightarrow> ('s process, bool ctl_result) comp" where
  [option_defs]: "opt_abort F = bool_getter F (key_opt_abort F)"

definition opt_confirm_conf :: "'s ffi \<Rightarrow> ('s process, bool ctl_result) comp" where
  [option_defs]: "opt_confirm_conf F = bool_getter F (key_opt_confirm_conf F)"

definition opt_abort_conf :: "'s ffi \<Rightarrow> ('s process, bool ctl_result) comp" where
  [option_defs]: "opt_abort_conf F = bool_getter F (key_opt_abort_conf F)"

definition opt_cache_oblivious :: "'s ffi \<Rightarrow> ('s process, bool ctl_result) comp" where
  [option_defs]: "opt_cache_oblivious F = bool_getter F (key_opt_cache_oblivious F)"

definition opt_metadata_thp :: "'s ffi \<Rightarrow> ('s process, byte list ctl_result) comp" where
  [option_defs]: "opt_metadata_thp F = cstr_getter F (key_opt_metadata_thp F)"

definition opt_trust_madvise :: "'s ffi \<Rightarrow> ('s process, bool ctl_result) comp" where
  [option_defs]: "opt_trust_madvise F = bool_getter F (key_opt_trust_madvise F)"

definition opt_retain :: "'s ffi \<Rightarrow> ('s process, bool ctl_result) comp" where
  [option_defs]: "opt_retain F = bool_getter F (key_opt_retain F)"

definition opt_dss :: "'s ffi \<Rightarrow> ('s process, byte list ctl_result) comp" where
  [option_defs]: "opt_dss F = cstr_getter F (key_opt_dss F)"

definition opt_narenas :: "'s ffi \<Rightarrow> ('s process, c_uint ctl_result) comp" where
  [option_defs]: "opt_narenas F = scalar_getter F u32_repr (key_opt_narenas F)"

definition opt_oversize_threshold :: "'s ffi \<Rightarrow> ('s process, usize ctl_result) comp" where
  [option_defs]: "opt_oversize_threshold F = scalar_getter F usize_repr (key_opt_oversize_threshold F)"

definition opt_percpu_arena :: "'s ffi \<Rightarrow> ('s process, byte list ctl_result) comp" where
  [option_defs]: "opt_percpu_arena F = cstr_getter F (key_opt_percpu_arena F)"

definition opt_background_thread :: "'s ffi \<Rightarrow> ('s process, bool ctl_result) comp" where
  [option_defs]: "opt_background_thread F = bool_getter F (key_opt_background_thread F)"

definition opt_max_background_threads :: "'s ffi \<Rightarrow> ('s process, usize ctl_result) comp" where
  [option_defs]: "opt_max_background_threads F = scalar_getter F usize_repr (key_opt_max_background_threads F)"

definition opt_dirty_decay_ms :: "'s ffi \<Rightarrow> ('s process, isize ctl_result) comp" where
  [option_defs]: "opt_dirty_decay_ms F = scalar_getter F isize_repr (key_opt_dirty_decay_ms F)"

definition opt_muzzy_decay_ms :: "'s ffi \<Rightarrow> ('s process, isize ctl_result) comp" where
  [option_defs]: "opt_muzzy_decay_ms F = scalar_getter F isize_repr (key_opt_muzzy_decay_ms F)"

definition opt_lg_extent_max_active_fit :: "'s ffi \<Rightarrow> ('s process, usize ctl_result) comp" where
  [option_defs]: "opt_lg_extent_max_active_fit F = scalar_getter F usize_repr (key_opt_lg_extent_max_active_fit F)"

definition opt_stats_print :: "'s ffi \<Rightarrow> ('s process, bool ctl_result) comp" where
  [option_defs]: "opt_stats_print F = bool_getter F (key_opt_stats_print F)"

definition opt_stats_print_opts :: "'s ffi \<Rightarrow> ('s process, byte list ctl_result) comp" where
  [option_defs]: "opt_stats_print_opts F = cstr_getter F (key_opt_stats_print_opts F)"

definition opt_stats_interval :: "'s ffi \<Rightarrow> ('s process, u64 ctl_result) comp" where
  [option_defs]: "opt_stats_interval F = scalar_getter F u64_repr (key_opt_stats_interval F)"

definition opt_stats_interval_opts :: "'s ffi \<Rightarrow> ('s process, byte list ctl_result) comp" where
  [option_defs]: "opt_stats_interval_opts F = cstr_getter F (key_opt_stats_interval_opts F)"

definition opt_junk :: "'s ffi \<Rightarrow> ('s process, byte list ctl_result) comp" where
  [option_defs]: "opt_junk F = cstr_getter F (key_opt_junk F)"

definition opt_zero :: "'s ffi \<Rightarrow> ('s process, bool ctl_result) comp" where
  [option_defs]: "opt_zero F = bool_getter F (key_opt_zero F)"

definition opt_utrace :: "'s ffi \<Rightarrow> ('s process, bool ctl_result) comp" where
  [option_defs]: "opt_utrace F = bool_getter F (key_opt_utrace F)"

definition opt_xmalloc :: "'s ffi \<Rightarrow> ('s process, bool ctl_result) comp" where
  [option_defs]: "opt_xmalloc F = bool_getter F (key_opt_xmalloc F)"

definition opt_tcache :: "'s ffi \<Rightarrow> ('s process, bool ctl_result) comp" where
  [option_defs]: "opt_tcache F = bool_getter F (key_opt_tcache F)"

definition opt_tcache_max :: "'s ffi \<Rightarrow> ('s process, usize ctl_result) comp" where
  [option_defs]: "opt_tcache_max F = scalar_getter F usize_repr (key_opt_tcache_max F)"

definition opt_thp :: "'s ffi \<Rightarrow> ('s process, byte list ctl_result) comp" where
  [option_defs]: "opt_thp F = cstr_getter F (key_opt_thp F)"

definition opt_prof_bt_max :: "'s ffi \<Rightarrow> ('s process, c_uint ctl_result) comp" where
  [option_defs]: "opt_prof_bt_max F = scalar_getter F u32_repr (key_opt_prof_bt_max F)"

definition opt_prof :: "'s ffi \<Rightarrow> ('s process, bool ctl_result) comp" where
  [option_defs]: "opt_prof F = bool_getter F (key_opt_prof F)"

definition opt_prof_prefix :: "'s ffi \<Rightarrow> ('s process, byte list ctl_result) comp" where
  [option_defs]: "opt_prof_prefix F = cstr_getter F (key_opt_prof_prefix F)"

definition opt_prof_active :: "'s ffi \<Rightarrow> ('s process, bool ctl_result) comp" where
  [option_defs]: "opt_prof_active F = bool_getter F (key_opt_prof_active F)"

definition opt_prof_thread_active_init :: "'s ffi \<Rightarrow> ('s process, bool ctl_result) comp" where
  [option_defs]: "opt_prof_thread_active_init F = bool_getter F (key_opt_prof_thread_active_init F)"

definition opt_lg_prof_sample :: "'s ffi \<Rightarrow> ('s process, usize ctl_result) comp" where
  [option_defs]: "opt_lg_prof_sample F = scalar_getter F usize_repr (key_opt_lg_prof_sample F)"

definition opt_prof_accum :: "'s ffi \<Rightarrow> ('s process, bool ctl_result) comp" where
  [option_defs]: "opt_prof_accum F = bool_getter F (key_opt_prof_accum F)"

definition opt_prof_pid_namespace :: "'s ffi \<Rightarrow> ('s process, bool ctl_result) comp" where
  [option_defs]: "opt_prof_pid_namespace F = bool_getter F (key_opt_prof_pid_namespace F)"

definition opt_lg_prof_interval :: "'s ffi \<Rightarrow> ('s process, isize ctl_result) comp" where
  [option_defs]: "opt_lg_prof_interval F = scalar_getter F isize_repr (key_opt_lg_prof_interval F)"

definition opt_prof_gdump :: "'s ffi \<Rightarrow> ('s process, bool ctl_result) comp" where
  [option_defs]: "opt_prof_gdump F = bool_getter F (key_opt_prof_gdump F)"

definition opt_prof_final :: "'s ffi \<Rightarrow> ('s process, bool ctl_result) comp" where
  [option_defs]: "opt_prof_final F = bool_getter F (key_opt_prof_final F)"

definition opt_prof_leak :: "'s ffi \<Rightarrow> ('s process, bool ctl_result) comp" where
  [option_defs]: "opt_prof_leak F = bool_getter F (key_opt_prof_leak F)"

definition opt_prof_leak_error :: "'s ffi \<Rightarrow> ('s process, bool ctl_result) comp" where
  [option_defs]: "opt_prof_leak_error F = bool_getter F (key_opt_prof_leak_error F)"

definition opt_zero_realloc :: "'s ffi \<Rightarrow> ('s process, byte list ctl_result) comp" where
  [option_defs]: "opt_zero_realloc F = cstr_getter F (key_opt_zero_realloc F)"

definition opt_debug_double_free_max_scan :: "'s ffi \<Rightarrow> ('s process, c_uint ctl_result) comp" where
  [option_defs]: "opt_debug_double_free_max_scan F = scalar_getter F u32_repr (key_opt_debug_double_free_max_scan F)"

definition opt_disable_large_size_classes :: "'s ffi \<Rightarrow> ('s process, bool ctl_result) comp" where
  [option_defs]: "opt_disable_large_size_classes F = bool_getter F (key_opt_disable_large_size_classes F)"

definition opt_process_madvise_max_batch :: "'s ffi \<Rightarrow> ('s process, usize ctl_result) comp" where
  [option_defs]: "opt_process_madvise_max_batch F = scalar_getter F usize_repr (key_opt_process_madvise_max_batch F)"

section \<open>Profiling and background workers\<close>

definition prof_reset :: "'s ffi \<Rightarrow> ('s process, unit ctl_result) comp" where
  "prof_reset F = run_try (key_prof_reset F) (\<lambda>key. raw_notify F key)"

definition prof_dump :: "'s ffi \<Rightarrow> ('s process, unit ctl_result) comp" where
  "prof_dump F = run_try (key_prof_dump F) (\<lambda>key. raw_notify F key)"

definition prof_gdump :: "'s ffi \<Rightarrow> bool \<Rightarrow> ('s process, bool ctl_result) comp" where
  "prof_gdump F enable = run_try (key_prof_gdump F) (\<lambda>key. xchg_bool F key enable)"

definition prof_enable :: "'s ffi \<Rightarrow> bool \<Rightarrow> ('s process, bool ctl_result) comp" where
  "prof_enable F enable = run_try (key_prof_active F) (\<lambda>key. xchg_bool F key enable)"

definition is_prof_enabled :: "'s ffi \<Rightarrow> ('s process, bool ctl_result) comp" where
  "is_prof_enabled F = run_try (key_prof_active F) (\<lambda>key. get_bool F key)"

definition prof_interval :: "'s ffi \<Rightarrow> ('s process, u64 ctl_result) comp" where
  "prof_interval F = run_try (key_prof_interval F) (\<lambda>key. raw_get F u64_repr key)"

definition background_thread_enable :: "'s ffi \<Rightarrow> bool \<Rightarrow> ('s process, bool ctl_result) comp" where
  "background_thread_enable F enable = run_try (key_background_thread F) (\<lambda>key. xchg_bool F key enable)"

section \<open>Contracts and safety\<close>

text \<open>The documented C type of every control read here.\<close>

definition bool_names :: "string list" where
  "bool_names = [''config.cache_oblivious'', ''config.debug'', ''config.fill'',
   ''config.lazy_lock'', ''config.prof'', ''config.prof_libgcc'',
   ''config.prof_libunwind'', ''config.stats'', ''config.utrace'',
   ''config.xmalloc'', ''opt.abort'', ''opt.confirm_conf'',
   ''opt.abort_conf'', ''opt.cache_oblivious'', ''opt.trust_madvise'',
   ''opt.retain'', ''opt.background_thread'', ''opt.stats_print'',
   ''opt.zero'', ''opt.utrace'', ''opt.xmalloc'',
   ''opt.tcache'', ''opt.prof'', ''opt.prof_active'',
   ''opt.prof_thread_active_init'', ''opt.prof_accum'', ''opt.prof_pid_namespace'',
   ''opt.prof_gdump'', ''opt.prof_final'', ''opt.prof_leak'',
   ''opt.prof_leak_error'', ''opt.disable_large_size_classes'']"

definition cstr_names :: "string list" where
  "cstr_names = [''config.malloc_conf'', ''opt.metadata_thp'', ''opt.dss'',
   ''opt.percpu_arena'', ''opt.stats_print_opts'', ''opt.stats_interval_opts'',
   ''opt.junk'', ''opt.thp'', ''opt.prof_prefix'',
   ''opt.zero_realloc'']"

definition u32_names :: "string list" where
  "u32_names = [''opt.narenas'', ''opt.prof_bt_max'', ''opt.debug_double_free_max_scan'']"

definition u64_names :: "string list" where
  "u64_names = [''opt.oversize_threshold'', ''opt.max_background_threads'', ''opt.dirty_decay_ms'',
   ''opt.muzzy_decay_ms'', ''opt.lg_extent_max_active_fit'', ''opt.stats_interval'',
   ''opt.tcache_max'', ''opt.lg_prof_sample'', ''opt.lg_prof_interval'',
   ''opt.process_madvise_max_batch'']"

text \<open>The getters, by the type of their result.\<close>

definition bool_getters :: "'s ffi \<Rightarrow> ('s process, bool ctl_result) comp list" where
  "bool_getters F = [config_cache_oblivious F, config_debug F, config_fill F,
   config_lazy_lock F, config_prof F, config_prof_libgcc F,
   config_prof_libunwind F, config_stats F, config_utrace F,
   config_xmalloc F, opt_abort F, opt_confirm_conf F,
   opt_abort_conf F, opt_cache_oblivious F, opt_trust_madvise F,
   opt_retain F, opt_background_thread F, opt_stats_print F,
   opt_zero F, opt_utrace F, opt_xmalloc F,
   opt_tcache F, opt_prof F, opt_prof_active F,
   opt_prof_thread_active_init F, opt_prof_accum F, opt_prof_pid_namespace F,
   opt_prof_gdump F, opt_prof_final F, opt_prof_leak F,
   opt_prof_leak_error F, opt_disable_large_size_classes F]"

definition cstr_getters :: "'s ffi \<Rightarrow> ('s process, byte list ctl_result) comp list" where
  "cstr_getters F = [config_malloc_conf F, opt_metadata_thp F, opt_dss F,
   opt_percpu_arena F, opt_stats_print_opts F, opt_stats_interval_opts F,
   opt_junk F, opt_thp F, opt_prof_prefix F,
   opt_zero_realloc F]"

definition u32_getters :: "'s ffi \<Rightarrow> ('s process, c_uint ctl_result) comp list" where
  "u32_getters F = [opt_narenas F, opt_prof_bt_max F, opt_debug_double_free_max_scan F]"

definition u64_getters :: "'s ffi \<Rightarrow> ('s process, u64 ctl_result) comp list" where
  "u64_getters F = [opt_oversize_threshold F, opt_max_background_threads F, opt_dirty_decay_ms F,
   opt_muzzy_decay_ms F, opt_lg_extent_max_active_fit F, opt_stats_interval F,
   opt_tcache_max F, opt_lg_prof_sample F, opt_lg_prof_interval F,
   opt_process_madvise_max_batch F]"

definition options_typed :: "'s ffi \<Rightarrow> bool" where
  "options_typed F \<longleftrightarrow> lib_ok F \<and> list_all (bool_readable F) bool_names \<and>
     list_all (cstr_control F) cstr_names \<and>
     list_all (\<lambda>n. reads_as F n u32_repr) u32_names \<and> list_all (\<lambda>n. reads_as F n u64_repr) u64_names"

lemma bool_getters_safe: "options_typed F \<Longrightarrow> list_all (ctl_ok F) (bool_getters F)"
  unfolding bool_getters_def option_defs key_defs bool_getter_def options_typed_def bool_names_def
  by (simp add: plain_control)

lemma cstr_getters_safe: "options_typed F \<Longrightarrow> list_all (ctl_ok F) (cstr_getters F)"
  unfolding cstr_getters_def option_defs key_defs cstr_getter_def options_typed_def cstr_names_def
  by (simp add: plain_control)

lemma u32_getters_safe: "options_typed F \<Longrightarrow> list_all (ctl_ok F) (u32_getters F)"
  unfolding u32_getters_def option_defs key_defs scalar_getter_def options_typed_def u32_names_def
  by (simp add: plain_control)

lemma u64_getters_safe: "options_typed F \<Longrightarrow> list_all (ctl_ok F) (u64_getters F)"
  unfolding u64_getters_def option_defs key_defs scalar_getter_def options_typed_def u64_names_def
  by (simp add: plain_control)

definition prof_controls :: "'s ffi \<Rightarrow> bool" where
  "prof_controls F \<longleftrightarrow> lib_ok F \<and> commands F ''prof.reset'' \<and> commands F ''prof.dump'' \<and>
     bool_control F ''prof.gdump'' \<and> bool_control F ''prof.active'' \<and>
     bool_control F ''background_thread'' \<and> reads_as F ''prof.interval'' u64_repr"

lemma prof_safe:
  assumes "prof_controls F"
  shows "ctl_ok F (prof_reset F)" and "ctl_ok F (prof_dump F)" and "ctl_ok F (prof_gdump F b)"
    and "ctl_ok F (prof_enable F b)" and "ctl_ok F (is_prof_enabled F)" and "ctl_ok F (prof_interval F)"
    and "ctl_ok F (background_thread_enable F b)"
  using assms
  unfolding prof_reset_def prof_dump_def prof_gdump_def prof_enable_def is_prof_enabled_def
    prof_interval_def background_thread_enable_def key_defs prof_controls_def
  by (simp_all add: plain_control)

end
