(* ===== verification/Stats.thy ===== *)
theory Stats
  imports Arena_Parts
begin

text \<open>
  \<^verbatim>\<open>jevmalloc/src/stats.rs\<close>: the epoch, the statistics report with its option filter and bounded
  output buffer, and the statistics getters. The report is produced by the library as a sequence
  of C strings, each handed to a callback; the callback of \<^verbatim>\<open>print\<close> is the \<^verbatim>\<open>write\<close> of its buffer.

  Shown: the option filter keeps the first occurrence of every recognised letter, never overruns its
  eleven bytes and always yields a C string; the printed text is the concatenation of all fragments or
  an error that says why not, and bytes of the caller's buffer past the text stay as they were.
\<close>

section \<open>Option filter\<close>

definition PRINT_OPTIONS :: "byte list" where
  "PRINT_OPTIONS = str_bytes ''Jgmdablxeh''"

definition PRINT_OPTIONS_CAPACITY :: nat where
  "PRINT_OPTIONS_CAPACITY = length PRINT_OPTIONS + 1"

text \<open>The loop of \<^verbatim>\<open>normalize_options\<close>; an index past the buffer would panic.\<close>

fun normalize_loop :: "'s ffi \<Rightarrow> byte list \<Rightarrow> byte list \<Rightarrow> nat \<Rightarrow> ('p, (byte list \<times> nat) ctl_result) comp" where
  "normalize_loop F [] buf len = ret (Inr (buf, len))"
| "normalize_loop F (option # opts) buf len =
    (if option = 0 then fail (invalid_argument F)
     else if option \<in> set PRINT_OPTIONS \<and> option \<notin> set (take len buf) then
       (if len < length buf then normalize_loop F opts (buf[len := option]) (len + 1) else panic)
     else normalize_loop F opts buf len)"

text \<open>\<^verbatim>\<open>CStr::from_bytes_with_nul_unchecked\<close>: undefined unless the only NUL is the last byte.\<close>

definition from_bytes_with_nul_unchecked :: "byte list \<Rightarrow> ('p, byte list ctl_result) comp" where
  "from_bytes_with_nul_unchecked bs =
    (if bs \<noteq> [] \<and> last bs = 0 \<and> 0 \<notin> set (butlast bs) then ret (Inr (butlast bs)) else undef)"

definition normalize_options :: "'s ffi \<Rightarrow> byte list \<Rightarrow> byte list \<Rightarrow> ('p, byte list ctl_result) comp" where
  "normalize_options F opts buf =
     run_try (normalize_loop F opts buf 0) (\<lambda>(buf, len).
     if length buf \<le> len then panic
     else from_bytes_with_nul_unchecked (take (len + 1) buf))"

section \<open>Output buffer\<close>

record print_buffer =
  pb_buf :: "byte list"
  pb_len :: usize
  pb_overflowed :: bool

definition pb_new :: "byte list \<Rightarrow> print_buffer" where
  "pb_new buf = \<lparr>pb_buf = buf, pb_len = 0, pb_overflowed = False\<rparr>"

text \<open>\<^verbatim>\<open>buf.get_mut(len..end)\<close> is \<^verbatim>\<open>None\<close> when the range is not inside the buffer.\<close>

definition pb_write :: "print_buffer \<Rightarrow> byte list \<Rightarrow> print_buffer" where
  "pb_write b fragment =
    (if pb_overflowed b then b
     else case checked_add (pb_len b) (of_nat (length fragment)) of
       None \<Rightarrow> b\<lparr>pb_overflowed := True\<rparr>
     | Some e \<Rightarrow>
       if unat e \<le> length (pb_buf b) \<and> pb_len b \<le> e then
         b\<lparr>pb_buf := take (unat (pb_len b)) (pb_buf b) @ fragment @ drop (unat e) (pb_buf b), pb_len := e\<rparr>
       else b\<lparr>pb_overflowed := True\<rparr>)"

definition pb_finish :: "'s ffi \<Rightarrow> print_buffer \<Rightarrow> ('p, byte list ctl_result) comp" where
  "pb_finish F b =
    (if pb_overflowed b then fail (insufficient_space F)
     else if length (pb_buf b) < unat (pb_len b) then panic
     else case from_utf8 (take (unat (pb_len b)) (pb_buf b)) of
       Inl _ \<Rightarrow> fail (invalid_utf8 F) | Inr s \<Rightarrow> ret (Inr s))"

section \<open>The report\<close>

text \<open>One callback: the fragment is a C string object, undefined when it has no terminator.\<close>

definition write_fragment :: "('b \<Rightarrow> byte list \<Rightarrow> 'b) \<Rightarrow> byte list \<Rightarrow> 'b \<Rightarrow> ('p, 'b) comp" where
  "write_fragment w fragment st =
    (if 0 \<in> set fragment then ret (w st (takeWhile (\<lambda>b. b \<noteq> 0) fragment)) else undef)"

fun write_fragments :: "('b \<Rightarrow> byte list \<Rightarrow> 'b) \<Rightarrow> byte list list \<Rightarrow> 'b \<Rightarrow> ('p, 'b) comp" where
  "write_fragments w [] st = ret st"
| "write_fragments w (f # fs) st = run_then (write_fragment w f st) (\<lambda>st'. write_fragments w fs st')"

definition print_raw :: "'s ffi \<Rightarrow> byte list \<Rightarrow> ('b \<Rightarrow> byte list \<Rightarrow> 'b) \<Rightarrow> 'b \<Rightarrow> ('s process, 'b) comp" where
  "print_raw F opts w st =
     run_then (malloc_stats_print F (opts @ [0])) (\<lambda>fragments. write_fragments w fragments st)"

text \<open>The result, and the caller's buffer afterwards.\<close>

definition print :: "'s ffi \<Rightarrow> byte list \<Rightarrow> byte list \<Rightarrow> ('s process, byte list ctl_result \<times> byte list) comp" where
  "print F opts buf =
     run_then (normalize_options F opts (replicate PRINT_OPTIONS_CAPACITY 0)) (\<lambda>r. case r of
       Inl e \<Rightarrow> ret (Inl e, buf)
     | Inr opts' \<Rightarrow>
       run_then (print_raw F opts' pb_write (pb_new buf)) (\<lambda>output.
       run_then (pb_finish F output) (\<lambda>res. ret (res, pb_buf output))))"

section \<open>Epoch and getters\<close>

definition epoch :: "'s ffi \<Rightarrow> ('s process, u64 ctl_result) comp" where
  "epoch F = run_try (key_epoch F) (\<lambda>key. raw_get F u64_repr key)"

definition refresh_epoch :: "'s ffi \<Rightarrow> ('s process, u64 ctl_result) comp" where
  "refresh_epoch F = run_try (key_epoch F) (\<lambda>key. raw_xchg F u64_repr key 0)"

definition stats_allocated :: "'s ffi \<Rightarrow> ('s process, usize ctl_result) comp" where
  "stats_allocated F = run_try (key_stats_allocated F) (\<lambda>key. raw_get F usize_repr key)"

definition stats_active :: "'s ffi \<Rightarrow> ('s process, usize ctl_result) comp" where
  "stats_active F = run_try (key_stats_active F) (\<lambda>key. raw_get F usize_repr key)"

definition stats_metadata :: "'s ffi \<Rightarrow> ('s process, usize ctl_result) comp" where
  "stats_metadata F = run_try (key_stats_metadata F) (\<lambda>key. raw_get F usize_repr key)"

definition stats_metadata_thp :: "'s ffi \<Rightarrow> ('s process, usize ctl_result) comp" where
  "stats_metadata_thp F = run_try (key_stats_metadata_thp F) (\<lambda>key. raw_get F usize_repr key)"

definition stats_resident :: "'s ffi \<Rightarrow> ('s process, usize ctl_result) comp" where
  "stats_resident F = run_try (key_stats_resident F) (\<lambda>key. raw_get F usize_repr key)"

definition stats_mapped :: "'s ffi \<Rightarrow> ('s process, usize ctl_result) comp" where
  "stats_mapped F = run_try (key_stats_mapped F) (\<lambda>key. raw_get F usize_repr key)"

definition stats_retained :: "'s ffi \<Rightarrow> ('s process, usize ctl_result) comp" where
  "stats_retained F = run_try (key_stats_retained F) (\<lambda>key. raw_get F usize_repr key)"

definition stats_zero_reallocs :: "'s ffi \<Rightarrow> ('s process, usize ctl_result) comp" where
  "stats_zero_reallocs F = run_try (key_stats_zero_reallocs F) (\<lambda>key. raw_get F usize_repr key)"

definition background_thread_num_threads :: "'s ffi \<Rightarrow> ('s process, usize ctl_result) comp" where
  "background_thread_num_threads F =
     run_try (key_stats_background_thread_num_threads F) (\<lambda>key. raw_get F usize_repr key)"

definition background_thread_num_runs :: "'s ffi \<Rightarrow> ('s process, u64 ctl_result) comp" where
  "background_thread_num_runs F =
     run_try (key_stats_background_thread_num_runs F) (\<lambda>key. raw_get F u64_repr key)"

definition background_thread_run_interval :: "'s ffi \<Rightarrow> ('s process, u64 ctl_result) comp" where
  "background_thread_run_interval F =
     run_try (key_stats_background_thread_run_interval F) (\<lambda>key. raw_get F u64_repr key)"

definition stats_reset :: "'s ffi \<Rightarrow> ('s process, unit ctl_result) comp" where
  "stats_reset F = run_try (key_stats_mutexes_reset F) (\<lambda>key. raw_notify F key)"

section \<open>The filter is correct\<close>

text \<open>The reference: recognised letters in order of first occurrence.\<close>

definition first_occurrences :: "'a list \<Rightarrow> 'a list" where
  "first_occurrences xs = rev (remdups (rev xs))"

definition chosen :: "byte list \<Rightarrow> byte list" where
  "chosen opts = first_occurrences (filter (\<lambda>b. b \<in> set PRINT_OPTIONS) opts)"

lemma first_occurrences_snoc:
  "first_occurrences (xs @ [x]) = (if x \<in> set xs then first_occurrences xs else first_occurrences xs @ [x])"
  by (simp add: first_occurrences_def)

lemma chosen_snoc:
  "chosen (xs @ [x]) =
    (if x \<in> set PRINT_OPTIONS \<and> x \<notin> set (chosen xs) then chosen xs @ [x] else chosen xs)"
  by (auto simp: chosen_def first_occurrences_snoc) (simp_all add: first_occurrences_def)

lemma chosen_Nil [simp]: "chosen [] = []"
  by (simp add: chosen_def first_occurrences_def)

lemma chosen_props:
  "distinct (chosen opts)" "set (chosen opts) \<subseteq> set PRINT_OPTIONS" "length (chosen opts) \<le> length PRINT_OPTIONS"
proof -
  show d: "distinct (chosen opts)" and s: "set (chosen opts) \<subseteq> set PRINT_OPTIONS"
    by (auto simp: chosen_def first_occurrences_def)
  have "card (set (chosen opts)) \<le> card (set PRINT_OPTIONS)"
    using s by (simp add: card_mono)
  also have "\<dots> \<le> length PRINT_OPTIONS" by (rule card_length)
  finally show "length (chosen opts) \<le> length PRINT_OPTIONS"
    using d by (simp add: distinct_card)
qed

lemma zero_not_option: "0 \<notin> set PRINT_OPTIONS"
  by (simp add: PRINT_OPTIONS_def str_bytes_def)

lemma chosen_no_zero: "0 \<notin> set (chosen opts)"
  using chosen_props(2) zero_not_option by blast

text \<open>The loop from a prefix it has already filtered.\<close>

lemma normalize_loop_from:
  assumes "errno_ok F"
  shows "normalize_loop F opts (chosen done @ replicate (PRINT_OPTIONS_CAPACITY - length (chosen done)) 0)
      (length (chosen done)) =
    (if 0 \<in> set opts then ret (Inl (Error (errno F EINVAL)))
     else ret (Inr (chosen (done @ opts) @
       replicate (PRINT_OPTIONS_CAPACITY - length (chosen (done @ opts))) 0, length (chosen (done @ opts)))))"
proof (induction opts arbitrary: "done")
  case (Cons x opts)
  let ?c = "chosen done" and ?n = "PRINT_OPTIONS_CAPACITY - length (chosen done)"
  note IH = Cons.IH [of "done @ [x]"]
  show ?case
  proof (cases "x \<noteq> 0 \<and> x \<in> set PRINT_OPTIONS \<and> x \<notin> set ?c")
    case True
    have lt: "length ?c < PRINT_OPTIONS_CAPACITY"
      using chosen_props(3) [of "done"] by (simp add: PRINT_OPTIONS_CAPACITY_def)
    then have "(?c @ replicate ?n 0)[length ?c := x] =
        chosen (done @ [x]) @ replicate (PRINT_OPTIONS_CAPACITY - length (chosen (done @ [x]))) 0"
      using True by (simp add: chosen_snoc list_update_append Suc_diff_Suc [symmetric])
    moreover have "length (chosen (done @ [x])) = length ?c + 1" using True by (simp add: chosen_snoc)
    ultimately show ?thesis
      using True lt IH by simp
  next
    case False
    then have "x = 0 \<or> chosen (done @ [x]) = ?c" by (auto simp: chosen_snoc)
    with False IH assms show ?thesis by auto
  qed
qed simp

lemmas normalize_loop_start = normalize_loop_from [of F opts "[]" for F opts, simplified]

lemma normalize_options_eq:
  assumes "errno_ok F"
  shows "normalize_options F opts (replicate PRINT_OPTIONS_CAPACITY 0) =
    (if 0 \<in> set opts then ret (Inl (Error (errno F EINVAL))) else ret (Inr (chosen opts)))"
proof -
  have lt: "length (chosen opts) < PRINT_OPTIONS_CAPACITY"
    using chosen_props(3) [of opts] by (simp add: PRINT_OPTIONS_CAPACITY_def)
  then have "take (length (chosen opts) + 1)
      (chosen opts @ replicate (PRINT_OPTIONS_CAPACITY - length (chosen opts)) 0) = chosen opts @ [0]"
    by (simp add: take_Cons' Suc_diff_Suc [symmetric])
  with lt show ?thesis
    by (auto simp: normalize_options_def normalize_loop_start [OF assms] from_bytes_with_nul_unchecked_def
        chosen_no_zero)
qed

section \<open>The buffer is correct\<close>

text \<open>
  The invariant of the buffer after writing \<open>text\<close>: it holds the text and, behind it, the caller's
  bytes; or the text did not fit.
\<close>

definition pb_holds :: "byte list \<Rightarrow> byte list \<Rightarrow> print_buffer \<Rightarrow> bool" where
  "pb_holds buf text b \<longleftrightarrow> length (pb_buf b) = length buf \<and>
    (if pb_overflowed b then length buf < length text
     else length text \<le> length buf \<and> unat (pb_len b) = length text \<and>
       pb_buf b = text @ drop (length text) buf)"

lemma pb_holds_new: "pb_holds buf [] (pb_new buf)"
  by (simp add: pb_holds_def pb_new_def)

lemma pb_holds_write:
  assumes inv: "pb_holds buf text b" and "length buf < 2 ^ 64" and "length fragment < 2 ^ 64"
  shows "pb_holds buf (text @ fragment) (pb_write b fragment)"
proof (cases "pb_overflowed b")
  case True
  with inv show ?thesis by (simp add: pb_holds_def pb_write_def)
next
  case False
  with inv have len: "unat (pb_len b) = length text" "length text \<le> length buf"
    and buf: "pb_buf b = text @ drop (length text) buf" by (simp_all add: pb_holds_def)
  have frag: "unat (of_nat (length fragment) :: usize) = length fragment"
    using assms(3) by (simp add: unat_of_nat)
  show ?thesis
  proof (cases "checked_add (pb_len b) (of_nat (length fragment))")
    case None
    then have "2 ^ 64 \<le> length text + length fragment"
      by (simp add: checked_add_def frag len split: if_splits)
    with None False inv assms(2) show ?thesis
      by (simp add: pb_holds_def pb_write_def)
  next
    case (Some e)
    then have e: "unat e = length text + length fragment"
      using unat_checked_add [OF Some] by (simp add: frag len)
    moreover have "pb_len b \<le> e" using e len by (simp add: word_le_nat_alt)
    ultimately show ?thesis
      using Some False inv len buf by (auto simp: pb_holds_def pb_write_def add.commute)
  qed
qed

abbreviation content :: "byte list \<Rightarrow> byte list" where
  "content \<equiv> takeWhile (\<lambda>b. b \<noteq> 0)"

lemma write_fragments_holds:
  assumes "pb_holds buf text b" and "length buf < 2 ^ 64" and "list_all (\<lambda>f. 0 \<in> set f \<and> length f < 2 ^ 64) fs"
  shows "\<exists>b'. write_fragments pb_write fs b = ret b' \<and> pb_holds buf (text @ concat (map content fs)) b'"
  using assms
proof (induction fs arbitrary: "text" b)
  case Nil
  then show ?case by (intro exI [of _ b]) simp
next
  case (Cons f fs)
  have "length (content f) < 2 ^ 64"
    using Cons.prems(3) length_takeWhile_le [of "\<lambda>b. b \<noteq> 0" f] by (auto simp: order_le_less_trans)
  then have "pb_holds buf (text @ content f) (pb_write b (content f))"
    using Cons.prems(1,2) by (intro pb_holds_write)
  from Cons.IH [OF this] Cons.prems(2,3) show ?case
    by (auto simp: write_fragment_def)
qed

lemma pb_finish_eq:
  assumes "pb_holds buf text b" and "errno_ok F"
  shows "pb_finish F b = ret (if length buf < length text then Inl (Error (errno F ENOSPC))
     else if utf8_valid text then Inr text else Inl (Error (errno F EILSEQ)))"
  using assms by (auto simp: pb_holds_def pb_finish_def from_utf8_def split: if_splits)

section \<open>Getters\<close>

definition stats_controls :: "'s ffi \<Rightarrow> bool" where
  "stats_controls F \<longleftrightarrow> lib_ok F \<and> reads_as F ''epoch'' u64_repr \<and> updates_as F ''epoch'' u64_repr u64_repr \<and>
     list_all (\<lambda>n. reads_as F n u64_repr) [''stats.allocated'', ''stats.active'', ''stats.metadata'',
       ''stats.metadata_thp'', ''stats.resident'', ''stats.mapped'', ''stats.retained'', ''stats.zero_reallocs'',
       ''stats.background_thread.num_threads'', ''stats.background_thread.num_runs'',
       ''stats.background_thread.run_interval''] \<and>
     commands F ''stats.mutexes.reset''"

definition stats_getters :: "'s ffi \<Rightarrow> ('s process, u64 ctl_result) comp list" where
  "stats_getters F = [epoch F, refresh_epoch F, stats_allocated F, stats_active F, stats_metadata F,
     stats_metadata_thp F, stats_resident F, stats_mapped F, stats_retained F, stats_zero_reallocs F,
     background_thread_num_threads F, background_thread_num_runs F, background_thread_run_interval F]"

lemma stats_getters_safe: "stats_controls F \<Longrightarrow> list_all (ctl_ok F) (stats_getters F) \<and> ctl_ok F (stats_reset F)"
  unfolding stats_getters_def epoch_def refresh_epoch_def stats_allocated_def stats_active_def stats_metadata_def
    stats_metadata_thp_def stats_resident_def stats_mapped_def stats_retained_def stats_zero_reallocs_def
    background_thread_num_threads_def background_thread_num_runs_def background_thread_run_interval_def
    stats_reset_def key_defs stats_controls_def
  by (simp add: plain_control)

section \<open>Properties\<close>

text \<open>
  C20. The option filter never fails on a string without NUL, and what it passes on is exactly the
  recognised letters in order of first occurrence, without repetition and at most ten of them; a
  string with a NUL is rejected with \<^verbatim>\<open>EINVAL\<close>.
\<close>

theorem normalize_options_correct:
  assumes "errno_ok F"
  shows "normalize_options F opts (replicate PRINT_OPTIONS_CAPACITY 0) p =
      (Done (if 0 \<in> set opts then Inl (Error (errno F EINVAL)) else Inr (chosen opts)), p) \<and>
    distinct (chosen opts) \<and> set (chosen opts) = set opts \<inter> set PRINT_OPTIONS \<and> length (chosen opts) \<le> 10"
proof -
  have "length PRINT_OPTIONS = 10" by (simp add: PRINT_OPTIONS_def)
  moreover have "set (chosen opts) = set opts \<inter> set PRINT_OPTIONS"
    by (auto simp: chosen_def first_occurrences_def)
  ultimately show ?thesis
    using chosen_props [of opts] by (simp add: normalize_options_eq [OF assms])
qed

text \<open>
  C9. Printing a report is exact. When the library hands out terminated fragments, the result is
  the concatenation of all of them, or \<^verbatim>\<open>ENOSPC\<close> exactly when it is longer than the caller's buffer, or
  \<^verbatim>\<open>EILSEQ\<close> when it is not UTF-8; the buffer keeps its length, and behind a text that fits its bytes are
  untouched.
\<close>

theorem print_correct:
  assumes "errno_ok F" and "0 \<notin> set opts" and "length buf < 2 ^ 64"
    and "c_stats_print F (chosen opts @ [0]) (mach p) = (Done fragments, m)"
    and "list_all (\<lambda>f. 0 \<in> set f \<and> length f < 2 ^ 64) fragments"
  defines "report \<equiv> concat (map (takeWhile (\<lambda>b. b \<noteq> 0)) fragments)"
  shows "\<exists>r buf' q. print F opts buf p = (Done (r, buf'), q) \<and> length buf' = length buf \<and>
    r = (if length buf < length report then Inl (Error (errno F ENOSPC))
         else if utf8_valid report then Inr report else Inl (Error (errno F EILSEQ))) \<and>
    (length report \<le> length buf \<longrightarrow> buf' = report @ drop (length report) buf)"
proof -
  obtain b where b: "write_fragments pb_write fragments (pb_new buf) = (ret b :: ('a process, _) comp)"
    "pb_holds buf report b"
    using write_fragments_holds [OF pb_holds_new assms(3,5)] unfolding report_def by auto
  let ?q = "p\<lparr>mach := m, trace := trace p @ [Call_stats_print (chosen opts @ [0])]\<rparr>"
  have raw: "print_raw F (chosen opts) pb_write (pb_new buf) p = (Done b, ?q)"
    using assms(4) b(1) by (simp add: print_raw_def malloc_stats_print_def run_then_def foreign_def)
  have "print F opts buf p = (Done (if length buf < length report then Inl (Error (errno F ENOSPC))
         else if utf8_valid report then Inr report else Inl (Error (errno F EILSEQ)), pb_buf b), ?q)"
    using assms(2) raw
    by (simp add: print_def normalize_options_eq [OF assms(1)] run_then_def pb_finish_eq [OF b(2) assms(1)])
  then show ?thesis
    using b(2) unfolding pb_holds_def by (auto split: if_splits)
qed

text \<open>A library whose report is two fragments that split a two-byte character.\<close>

definition report_ffi :: "'s ffi \<Rightarrow> 's ffi" where
  "report_ffi F = F\<lparr>c_stats_print := (\<lambda>_. ret [[0xC3, 0], [0xA9, 0]]), errno := (\<lambda>n. case n of
     EPERM \<Rightarrow> 1 | ENOENT \<Rightarrow> 2 | EAGAIN \<Rightarrow> 11 | EFAULT \<Rightarrow> 14 | EINVAL \<Rightarrow> 22 | ENOSPC \<Rightarrow> 28 | EILSEQ \<Rightarrow> 84)\<rparr>"

lemma report_errno_ok: "errno_ok (report_ffi F)"
  by (auto simp: errno_ok_def report_ffi_def inj_def split: errno_name.splits)

theorem normalize_options_correct_witness:
  "\<forall>F. normalize_options (report_ffi F) [120, 63, 74, 120] (replicate PRINT_OPTIONS_CAPACITY 0) () =
     (Done (Inr [120, 74]), ())"
proof
  fix F :: "'s ffi"
  have "chosen [120, 63, 74, 120] = [120, 74]" by code_simp
  with normalize_options_correct [OF report_errno_ok, of F "[120, 63, 74, 120]" "()"]
  show "normalize_options (report_ffi F) [120, 63, 74, 120] (replicate PRINT_OPTIONS_CAPACITY 0) () =
      (Done (Inr [120, 74]), ())"
    by simp
qed

theorem print_correct_witness:
  "\<forall>F p. \<exists>q. print (report_ffi F) [74] [7, 7, 7] p = (Done (Inr [0xC3, 0xA9], [0xC3, 0xA9, 7]), q)"
proof (intro allI)
  fix F :: "'s ffi" and p
  have "utf8_valid [0xC3, 0xA9]" by (simp add: cont_def)
  with print_correct [OF report_errno_ok, of "[74]" "[7, 7, 7]" F p "[[0xC3, 0], [0xA9, 0]]" "mach p"]
  show "\<exists>q. print (report_ffi F) [74] [7, 7, 7] p = (Done (Inr [0xC3, 0xA9], [0xC3, 0xA9, 7]), q)"
    by (auto simp: report_ffi_def)
qed

end
