(* ===== verification/Reference_Controls.thy ===== *)
theory Reference_Controls
  imports Reference_Heap Thread_This Thread_Cache Options Stats
begin

text \<open>
  A small executable control library that satisfies the documented behaviour of name translation and of
  all controls: every name is known, its key has one number per segment, a control of an arena's dirty
  decay time stores what is written to it, and every other control reads as sixteen, which is also the
  address of a C string. The theorems about controls are applied to it.
\<close>

type_synonym store = "key \<Rightarrow> u64"

text \<open>The number of a segment, modulo a prime so that long segments keep their differences.\<close>

definition seg_code :: "byte list \<Rightarrow> usize" where
  "seg_code seg = of_nat (le_dec seg mod 2305843009213693951)"

definition ref_nametomib :: "byte list \<Rightarrow> usize \<Rightarrow> ('s machine, c_int \<times> usize option list \<times> usize) comp" where
  "ref_nametomib buf cap =
    (let segs = split_dot (takeWhile (\<lambda>b. b \<noteq> 0) buf) in
     ret (0, map (\<lambda>s. Some (seg_code s)) segs, of_nat (length segs)))"

definition is_decay :: "key \<Rightarrow> bool" where
  "is_decay k \<longleftrightarrow> length k = 3 \<and> k ! 2 = seg_code (str_bytes ''dirty_decay_ms'')"

definition ref_value :: "store machine \<Rightarrow> key \<Rightarrow> u64" where
  "ref_value m k = (if is_decay k then je m k else 16)"

definition ref_out :: "nat \<Rightarrow> u64 \<Rightarrow> byte list" where
  "ref_out n v = le_enc n (if n = 1 then unat v mod 2 else unat v)"

definition ref_bymib :: "mib_call \<Rightarrow> (store machine, mib_reply) comp" where
  "ref_bymib c = (\<lambda>m.
     (Done \<lparr>status = 0,
        out = (case oldp c of None \<Rightarrow> [] | Some cells \<Rightarrow> map Some (ref_out (length cells) (ref_value m (mib c)))),
        outlen = (case oldlen c of None \<Rightarrow> 0 | Some n \<Rightarrow> n)\<rparr>,
      case newp c of
        None \<Rightarrow> m
      | Some bs \<Rightarrow> if is_decay (mib c) then m\<lparr>je := (je m)(mib c := of_nat (le_dec bs))\<rparr> else m))"

definition ref_inv :: "store machine \<Rightarrow> bool" where
  "ref_inv m \<longleftrightarrow> bytes_at m 16 = Some (str_bytes ''primary'' @ [0])"

definition ref_ffi :: "store ffi" where
  "ref_ffi = bare_ffi\<lparr>c_nametomib := ref_nametomib, c_bymib := ref_bymib, static_str := (\<lambda>_. 16),
     local_at := (\<lambda>_. 32), lib_inv := ref_inv\<rparr>"

definition ref_start :: "store process" where
  "ref_start = \<lparr>mach = \<lparr>bytes_at = [16 \<mapsto> str_bytes ''primary'' @ [0]], tables_at = (\<lambda>_. None), je = (\<lambda>_. 0)\<rparr>,
     caches = (\<lambda>_. cache_new), trace = []\<rparr>"

section \<open>It satisfies the documented behaviour\<close>

lemma ref_simps [simp]:
  "c_nametomib ref_ffi = ref_nametomib" "c_bymib ref_ffi = ref_bymib" "lib_inv ref_ffi = ref_inv"
  "errno ref_ffi = linux_errno" "target_msvc ref_ffi = False" "static_str ref_ffi = (\<lambda>_. 16)"
  "local_at ref_ffi = (\<lambda>_. 32)"
  by (simp_all add: ref_ffi_def bare_ffi_def)

lemma linux_errno_ok: "inj linux_errno" "linux_errno n \<noteq> 0"
proof -
  show "inj linux_errno"
  proof (rule injI)
    fix a b show "linux_errno a = linux_errno b \<Longrightarrow> a = b"
      by (cases a; cases b) simp_all
  qed
  show "linux_errno n \<noteq> 0" by (cases n) simp_all
qed

text \<open>Any library with this translation and these constants.\<close>

lemma translating_lib_ok:
  assumes "c_nametomib F = ref_nametomib" and "errno F = linux_errno"
  shows "lib_ok F"
proof -
  have "\<exists>st slots len m'. ref_nametomib (name_buf name) (of_nat KEY_SEGS) m = (Done (st, slots, len), m') \<and>
      lib_inv F m' \<and> (st = 0 \<longrightarrow> unat len = min (segments name) KEY_SEGS \<and> unat len \<le> length slots \<and>
        (\<forall>x \<in> set (take (unat len) slots). x \<noteq> None))"
    if "\<not> name_rejected name" "lib_inv F m" for name m
  proof -
    have "segments name \<le> KEY_SEGS" using that(1) by (simp add: name_rejected_def)
    moreover from this have "unat (of_nat (segments name) :: usize) = segments name"
      by (rule unat_of_nat_KEY_SEGS)
    ultimately show ?thesis
      using that by (auto simp: ref_nametomib_def name_buf_content Let_def segments_def)
  qed
  then have "nametomib_ok F" by (simp add: nametomib_ok_def assms(1))
  then show ?thesis
    using linux_errno_ok by (simp add: lib_ok_def errno_ok_def assms(2))
qed

lemma ref_lib_ok: "lib_ok ref_ffi"
  by (rule translating_lib_ok) simp_all

text \<open>Every call is answered, keeps the invariant, and leaves a value of the requested width.\<close>

lemma ref_call_ok:
  assumes "\<And>m. ref_inv m \<Longrightarrow> Q (case ref_bymib c m of (Done rep, _) \<Rightarrow> rep)"
  shows "call_ok ref_ffi c Q"
  unfolding call_ok_def ref_simps
proof (intro allI impI)
  fix m assume inv: "ref_inv m"
  obtain rep m' where run: "ref_bymib c m = (Done rep, m')" by (auto simp: ref_bymib_def)
  with inv have "ref_inv m'"
    by (auto simp: ref_bymib_def ref_inv_def split: option.splits if_splits)
  with run assms [OF inv] show "\<exists>rep m'. ref_bymib c m = (Done rep, m') \<and> ref_inv m' \<and> Q rep" by simp
qed

lemma ref_out_length [simp]: "length (ref_out n v) = n"
  by (simp add: ref_out_def)

lemma ref_out_bool: "ref_out 1 v = [0] \<or> ref_out 1 v = [1]"
  by (cases "even (unat v)") (simp_all add: ref_out_def even_iff_mod_2_eq_zero odd_iff_mod_2_eq_one)

lemma ref_valid:
  assumes "oldp c = Some (replicate (rsize T) None)" and "oldlen c = Some (of_nat (rsize T))"
    and "\<And>v. \<exists>x. dec T (ref_out (rsize T) v) = Some x"
  shows "call_ok ref_ffi c (reply_valid T)"
  using assms by (intro ref_call_ok) (auto simp: ref_bymib_def reply_valid_def)

lemma ref_dec:
  "\<exists>x. dec u32_repr (ref_out (rsize u32_repr) v) = Some x"
  "\<exists>x. dec u64_repr (ref_out (rsize u64_repr) v) = Some x"
  "\<exists>x. dec bool_repr (ref_out (rsize bool_repr) v) = Some x"
  using ref_out_bool [of v] by (auto simp: u32_repr_def u64_repr_def bool_repr_def)

lemma ref_typed:
  "reads_as ref_ffi name u32_repr" "reads_as ref_ffi name u64_repr"
  "updates_as ref_ffi name u32_repr u32_repr" "updates_as ref_ffi name u64_repr u64_repr"
  "updates_as ref_ffi name u64_repr u32_repr" "bool_control ref_ffi name" "bool_readable ref_ffi name"
  unfolding reads_as_def updates_as_def bool_control_def bool_readable_def bool_read_ok_def bool_xchg_ok_def
  by (auto intro!: ref_valid ref_dec simp: read_call_def update_call_def)

lemma ref_commands: "commands ref_ffi name"
  by (simp add: commands_def ref_call_ok)

text \<open>It accepts every operand, good or not, and translating a name leaves the machine alone.\<close>

lemma ref_keeps: "translation_keeps ref_ffi P"
  by (auto simp: translation_keeps_def ref_nametomib_def Let_def)

lemma call_ok_weaken: "call_ok F c Q \<Longrightarrow> call_ok_in F P c Q"
  unfolding call_ok_def call_ok_in_def by blast

lemma ref_accepts: "accepts_in ref_ffi name I good"
  by (simp add: accepts_in_def ref_keeps call_ok_weaken ref_call_ok)

lemma ref_updates_in:
  assumes "updates_as ref_ffi name I T"
  shows "updates_in ref_ffi name I T good"
  using assms by (simp add: updates_in_def updates_as_def ref_keeps call_ok_weaken)

text \<open>A local variable is put next to the string and left alone.\<close>

lemma ref_local_call:
  assumes "\<And>m rep m'. ref_bymib (c 32) m = (Done rep, m') \<Longrightarrow> bytes_at m' 32 \<noteq> None \<Longrightarrow> Q rep m' 32"
  shows "local_call_ok ref_ffi bs c Q"
  unfolding local_call_ok_def ref_simps
proof (intro allI impI)
  fix m assume inv: "ref_inv m"
  let ?m = "m\<lparr>bytes_at := (bytes_at m)(32 \<mapsto> bs)\<rparr>"
  obtain rep m' where run: "ref_bymib (c 32) ?m = (Done rep, m')" by (auto simp: ref_bymib_def)
  then have "bytes_at m' = bytes_at ?m"
    by (auto simp: ref_bymib_def split: option.splits if_splits)
  with inv run assms [OF run] show "\<exists>rep m'. ref_bymib (c 32) ?m = (Done rep, m') \<and>
      ref_inv (m'\<lparr>bytes_at := (bytes_at m')(32 := None)\<rparr>) \<and> Q rep m' 32"
    by (auto simp: ref_inv_def)
qed

lemma ref_ncached_writes: "ncached_writes ref_ffi"
  by (simp add: ncached_writes_def ref_local_call)

lemma ref_name_reads: "name_reads ref_ffi"
  unfolding name_reads_def
proof (intro ballI ref_local_call)
  fix k m rep m'
  assume run: "ref_bymib (in_place_call ptr_repr k 32) m = (Done rep, m')" and left: "bytes_at m' 32 \<noteq> None"
  then have "those (out rep) = Some (ref_out (rsize ptr_repr) (ref_value m k))" "outlen rep = of_nat (rsize ptr_repr)"
    by (auto simp: ref_bymib_def in_place_call_def u64_repr_def)
  with left ref_dec(2) [of "ref_value m k"] show "(\<exists>bs v. those (out rep) = Some bs \<and> dec ptr_repr bs = Some v) \<and>
      (status rep = 0 \<longrightarrow> outlen rep = of_nat (rsize ptr_repr) \<and> bytes_at m' 32 \<noteq> None)"
    by simp
qed

section \<open>String controls\<close>

lemma translating_resolves:
  assumes "c_nametomib F = ref_nametomib" and "resolves F name k" and "\<not> name_rejected name"
  shows "k = map seg_code (split_dot name)"
proof -
  have "unat (of_nat (length (split_dot name)) :: usize) = length (split_dot name)"
    using assms(3) unat_of_nat_KEY_SEGS by (auto simp: name_rejected_def segments_def)
  moreover have "those (map (\<lambda>s. Some (seg_code s)) xs) = Some (map seg_code xs)" for xs
    by (induction xs) auto
  ultimately show ?thesis
    using assms by (auto simp: resolves_def ref_nametomib_def name_buf_content Let_def)
qed

lemma ref_resolves:
  "resolves ref_ffi name k \<Longrightarrow> \<not> name_rejected name \<Longrightarrow> k = map seg_code (split_dot name)"
  by (rule translating_resolves) simp_all

lemma ref_cstr_call:
  assumes "\<not> is_decay (mib c)" and "oldp c = Some (replicate 8 None)" and "oldlen c = Some 8"
  shows "cstr_call_ok ref_ffi c"
  unfolding cstr_call_ok_def ref_simps
proof (intro allI impI)
  fix m assume inv: "ref_inv m"
  obtain rep m' where run: "ref_bymib c m = (Done rep, m')" by (auto simp: ref_bymib_def)
  with inv assms(1) have m': "ref_inv m'"
    by (auto simp: ref_bymib_def ref_inv_def split: option.splits if_splits)
  have out: "those (out rep) = Some (le_enc 8 16)" "outlen rep = 8" "status rep = 0"
    using run assms by (auto simp: ref_bymib_def ref_value_def ref_out_def)
  have "a = 16" if "delivers ptr_repr rep a" for a
    using that out by (auto simp: delivers_def u64_repr_def le_dec_enc)
  moreover have "c_str m' 16 \<noteq> None"
    using m' by (simp add: c_str_def ref_inv_def)
  moreover have "reply_valid ptr_repr rep"
    using out by (simp add: reply_valid_def u64_repr_def)
  ultimately show "\<exists>rep m'. ref_bymib c m = (Done rep, m') \<and> ref_inv m' \<and> reply_valid ptr_repr rep \<and>
      (\<forall>a. delivers ptr_repr rep a \<longrightarrow> a = 0 \<or> c_str m' a \<noteq> None)"
    using run m' by auto
qed

lemma ref_no_decay_short:
  assumes "k \<in> keys_of ref_ffi name" and "(acc, name) \<in> key_table" and "segments (str_bytes name) = 2"
  shows "\<not> is_decay k"
proof -
  have "\<not> name_rejected (str_bytes name)"
    using assms(2) builtin_name_valid by (simp add: key_table_def)
  with assms(1,3) show ?thesis
    by (auto simp: keys_of_def is_decay_def segments_def dest!: ref_resolves)
qed

lemma ref_no_decay_dss: "k \<in> keys_of ref_ffi ''arena.0.dss'' \<Longrightarrow> \<not> is_decay k"
proof -
  have "\<not> name_rejected (str_bytes ''arena.0.dss'')"
    using builtin_name_valid [of "''arena_dss''"] key_table_member by (simp add: key_table_def)
  moreover have "map seg_code (split_dot (str_bytes ''arena.0.dss'')) ! 2 \<noteq> seg_code (str_bytes ''dirty_decay_ms'')"
    by (simp add: str_bytes_def seg_code_def)
  moreover assume "k \<in> keys_of ref_ffi ''arena.0.dss''"
  ultimately show ?thesis
    by (auto simp: keys_of_def is_decay_def dest!: ref_resolves)
qed

lemma ref_cstr_calls:
  "\<not> is_decay k \<Longrightarrow> cstr_read_ok ref_ffi k" "\<not> is_decay k \<Longrightarrow> cstr_xchg_ok ref_ffi k v"
  by (auto intro!: ref_cstr_call simp: read_call_def update_call_def u64_repr_def)

lemma ref_cstr_short: "(acc, name) \<in> key_table \<Longrightarrow> segments (str_bytes name) = 2 \<Longrightarrow> cstr_control ref_ffi name"
  by (auto simp: cstr_control_def intro!: ref_cstr_calls dest: ref_no_decay_short)

lemma ref_cstr_dss: "cstr_control ref_ffi ''arena.0.dss''"
  by (auto simp: cstr_control_def intro!: ref_cstr_calls dest: ref_no_decay_dss)

section \<open>All contracts\<close>

lemma ref_arena_controls: "arena_controls ref_ffi"
  unfolding arena_controls_def
  by (auto simp: ref_lib_ok ref_typed ref_commands ref_accepts ref_cstr_dss dest: ref_no_decay_dss intro!: ref_cstr_calls)

lemma ref_arena_pointers: "arena_pointers ref_ffi live"
  by (simp add: arena_pointers_def ref_accepts ref_name_reads ref_updates_in ref_typed)

lemma ref_thread_controls: "thread_controls ref_ffi"
  by (simp add: thread_controls_def ref_arena_controls ref_typed ref_commands ref_ncached_writes)

lemma ref_tcache_controls: "tcache_controls ref_ffi live"
  by (simp add: tcache_controls_def ref_lib_ok ref_typed ref_accepts)

lemma ref_arenas_controls: "arenas_controls ref_ffi"
  by (auto simp: arenas_controls_def ref_arena_controls ref_typed ref_commands segments_str
      intro!: ref_cstr_short [of "''opt_percpu_arena''"])

lemma ref_cstr_names: "list_all (cstr_control ref_ffi) cstr_names"
  unfolding cstr_names_def
  by (auto simp: segments_str intro: ref_cstr_short [of "''config_malloc_conf''"]
      ref_cstr_short [of "''opt_metadata_thp''"]
      ref_cstr_short [of "''opt_dss''"]
      ref_cstr_short [of "''opt_percpu_arena''"]
      ref_cstr_short [of "''opt_stats_print_opts''"]
      ref_cstr_short [of "''opt_stats_interval_opts''"]
      ref_cstr_short [of "''opt_junk''"]
      ref_cstr_short [of "''opt_thp''"]
      ref_cstr_short [of "''opt_prof_prefix''"]
      ref_cstr_short [of "''opt_zero_realloc''"])

lemma ref_options_typed: "options_typed ref_ffi"
  using ref_cstr_names by (simp add: options_typed_def ref_lib_ok ref_typed list_all_iff)

lemma ref_prof_controls: "prof_controls ref_ffi"
  by (simp add: prof_controls_def ref_lib_ok ref_typed ref_commands)

lemma ref_stats_controls: "stats_controls ref_ffi"
  by (simp add: stats_controls_def ref_lib_ok ref_typed ref_commands)

lemma ref_start_ok: "keys_ok ref_ffi ref_start"
  by (rule keys_ok_startup) (simp_all add: ref_start_def ref_inv_def)

section \<open>The theorems at this library\<close>

text \<open>Every accessor succeeds here; the machine is as before and the key is in the cache.\<close>

lemma translating_mibs:
  assumes "c_nametomib F = ref_nametomib" and "\<not> name_rejected name"
  shows "\<exists>t. mibs F name p = (Done (Inr (map seg_code (split_dot name))), p\<lparr>trace := t\<rparr>)"
proof -
  have len: "length (split_dot name) \<le> KEY_SEGS" using assms(2) by (simp add: name_rejected_def segments_def)
  then have "unat (of_nat (length (split_dot name)) :: usize) = length (split_dot name)"
    by (rule unat_of_nat_KEY_SEGS)
  moreover have "those (map (\<lambda>s. Some (seg_code s)) xs) = Some (map seg_code xs)" for xs
    by (induction xs) auto
  ultimately show ?thesis
    using assms len
    by (auto simp: mibs_def mallctlnametomib_def foreign_def ref_nametomib_def name_buf_content Let_def
        run_then_def run_try_eq into_result_def set_len_def segments_def)
qed

lemma translating_fetch:
  assumes tr: "c_nametomib F = ref_nametomib" and "keys_ok F p" and mem: "(acc, name) \<in> key_table"
  shows "\<exists>k q. define_key F acc name p = (Done (Inr k), q) \<and> keys_ok F q \<and>
    cached acc q = Some k \<and> mach q = mach p \<and> (\<forall>acc'. acc' \<noteq> acc \<longrightarrow> cached acc' q = cached acc' p)"
proof -
  let ?n = "str_bytes name"
  have wf: "cache_wf_at acc ?n p"
    using assms by (auto simp: keys_ok_def key_ok_def dest: caches_okD)
  have "\<not> name_rejected ?n" using mem builtin_name_valid by (simp add: key_table_def)
  from translating_mibs [OF tr this, of p] obtain t where
    m: "mibs F ?n p = (Done (Inr (map seg_code (split_dot ?n))), p\<lparr>trace := t\<rparr>)" ..
  have "\<exists>k q. define_key F acc name p = (Done (Inr k), q) \<and> mach q = mach p"
    using wf m by (cases "cached acc p") (auto simp: define_key_def cache_get_hit cache_get_miss publish_def)
  then obtain k q where run: "define_key F acc name p = (Done (Inr k), q)" "mach q = mach p" by blast
  then have get: "cache_get F acc ?n p = (Done (Inr k), q)" by (simp add: define_key_def)
  have "cached acc q = Some k" by (rule cell.filled [OF wf get])
  moreover have "\<forall>acc'. acc' \<noteq> acc \<longrightarrow> cached acc' q = cached acc' p"
    using cache_get_frame [OF get wf] by (simp add: cached_def)
  moreover have "keys_ok F q"
    using define_key_caches_ok [OF _ mem run(1)] run(2) assms(2) by (simp add: keys_ok_def)
  ultimately show ?thesis using run by blast
qed

lemma ref_fetch:
  assumes "keys_ok ref_ffi p" and mem: "(acc, name) \<in> key_table"
  shows "\<exists>k q. define_key ref_ffi acc name p = (Done (Inr k), q) \<and> keys_ok ref_ffi q \<and>
    cached acc q = Some k \<and> mach q = mach p \<and> (\<forall>acc'. acc' \<noteq> acc \<longrightarrow> cached acc' q = cached acc' p)"
  by (rule translating_fetch [OF _ assms]) simp

theorem mibs_correct_witness:
  "\<exists>r q. mibs ref_ffi (str_bytes ''opt.dss'') ref_start = (Done r, q) \<and>
     trace q = [Call_nametomib (name_buf (str_bytes ''opt.dss''))]"
proof -
  have "count_list (str_bytes ''opt.dss'') 46 = 1" "0 \<notin> set (str_bytes ''opt.dss'')"
    by (simp_all add: str_bytes_def)
  moreover have "nametomib_ok ref_ffi" "errno_ok ref_ffi" "lib_inv ref_ffi (mach ref_start)" "trace ref_start = []"
    using ref_lib_ok ref_start_ok by (auto simp: keys_ok_def ref_start_def)
  ultimately show ?thesis
    using mibs_correct [of ref_ffi ref_start "str_bytes ''opt.dss''"] by (auto simp: str_bytes_def)
qed

theorem raw_get_exact_witness:
  "\<exists>q. raw_get ref_ffi u32_repr [1, 2] ref_start = (Done (Inr 16), q)"
proof -
  have "mallctlbymib ref_ffi (read_call u32_repr [1, 2]) ref_start =
      (Done \<lparr>status = 0, out = map Some (le_enc 4 16), outlen = 4\<rparr>,
       ref_start\<lparr>mach := mach ref_start, trace := trace ref_start @ [Call_bymib (read_call u32_repr [1, 2])]\<rparr>)"
    by (simp add: mallctlbymib_def foreign_def ref_bymib_def read_call_def u32_repr_def ref_value_def is_decay_def
        ref_out_def)
  moreover have "dec u32_repr (le_enc 4 16) = Some 16" "outlen \<lparr>status = 0, out = map Some (le_enc 4 16), outlen = 4\<rparr> = 4"
    by (simp_all add: u32_repr_def le_dec_enc)
  moreover have "(of_nat (rsize u32_repr) :: usize) = 4" "0 < rsize u32_repr" by (simp_all add: u32_repr_def)
  ultimately show ?thesis
    using raw_get_exact [of u32_repr ref_ffi "[1, 2]" ref_start 16] by fastforce
qed

theorem key_accessor_correct_witness:
  "\<exists>r q. define_key ref_ffi ''epoch'' ''epoch'' ref_start = (Done r, q) \<and> keys_ok ref_ffi q"
proof -
  have "(''epoch'', ''epoch'') \<in> set builtin_keys"
    using key_table_member by (simp add: key_table_def)
  from key_accessor_correct [OF _ _ this ref_start_ok] show ?thesis
    using ref_lib_ok by blast
qed

lemma ctl_ok_runs: "ctl_ok F m \<Longrightarrow> keys_ok F p \<Longrightarrow> \<exists>r q. m p = (Done r, q) \<and> keys_ok F q"
  unfolding safe_def by blast

lemma ctl_ok_in_runs: "ctl_ok_in F P m \<Longrightarrow> keys_ok F p \<and> P (mach p) \<Longrightarrow> \<exists>r q. m p = (Done r, q) \<and> keys_ok F q"
  unfolding safe_def by blast

theorem arena_operations_safe_witness:
  "(\<exists>a q. arena_create ref_ffi ref_start = (Done a, q) \<and> keys_ok ref_ffi q) \<and>
   (\<exists>r q. set_name ref_ffi \<lparr>a_index = 7, a_owned = False\<rparr> 16 ref_start = (Done r, q) \<and> keys_ok ref_ffi q)"
proof -
  let ?a = "\<lparr>a_index = 7, a_owned = False\<rparr>"
  note all = arena_operations_safe [OF ref_arena_controls ref_arena_pointers, where a = ?a and name = 16]
  have 1: "ctl_ok ref_ffi (arena_create ref_ffi)" by (simp only: all)
  have 2: "ctl_ok_in ref_ffi (\<lambda>m. c_str m 16 \<noteq> None) (set_name ref_ffi ?a 16)" by (simp only: all)
  have 3: "keys_ok ref_ffi ref_start \<and> c_str (mach ref_start) 16 \<noteq> None"
    by (simp add: ref_start_ok) (simp add: ref_start_def c_str_def)
  show ?thesis
    by (rule conjI [OF ctl_ok_runs [OF 1 ref_start_ok] ctl_ok_in_runs [OF 2 3]])
qed

theorem arena_trim_order_witness:
  "\<exists>p kd kp r q. cached ''arena_decay'' p = Some kd \<and> cached ''arena_purge'' p = Some kp \<and>
     arena_trim ref_ffi \<lparr>a_index = 7, a_owned = False\<rparr> p = (Done r, q) \<and>
     trace q = trace p @ [Call_bymib (notify_call (kd[1 := 7])), Call_bymib (notify_call (kp[1 := 7]))]"
proof -
  let ?a = "\<lparr>a_index = 7, a_owned = False\<rparr>"
  obtain kd p1 where p1: "keys_ok ref_ffi p1" "cached ''arena_decay'' p1 = Some kd"
    using ref_fetch [OF ref_start_ok, of "''arena_decay''" "''arena.0.decay''"] key_table_member by blast
  obtain kp p where p: "keys_ok ref_ffi p" "cached ''arena_purge'' p = Some kp" "cached ''arena_decay'' p = Some kd"
    using ref_fetch [OF p1(1), of "''arena_purge''" "''arena.0.purge''"] p1(2) by (auto simp: key_table_member)
  obtain r q where run: "arena_trim ref_ffi ?a p = (Done r, q)"
    using ctl_ok_runs [OF arena_commands_safe(3) [OF ref_arena_controls] p(1)] by blast
  have ok: "caches_ok ref_ffi p" using p(1) by (simp add: keys_ok_def)
  have "status rep = 0" if "mallctlbymib ref_ffi c x = (Done rep, y)" for c x rep y
    using that by (auto simp: mallctlbymib_def foreign_def ref_bymib_def)
  with arena_trim_order [OF ok p(3,2) run]
  have "trace q = trace p @ [Call_bymib (notify_call (kd[1 := 7])), Call_bymib (notify_call (kp[1 := 7]))]"
    by (auto split: if_splits)
  with p run show ?thesis by blast
qed

theorem arena_destroyed_at_most_once_witness:
  "\<exists>s a' q. attempts (arena_destroy ref_ffi) 2 \<lparr>a_index = 7, a_owned = False\<rparr> ref_start = (Done (s, a'), q) \<and>
     s = 0 \<and> q = ref_start"
proof -
  let ?a = "\<lparr>a_index = 7, a_owned = False\<rparr>"
  have "errno_ok ref_ffi" using ref_lib_ok by blast
  then have "arena_destroy ref_ffi ?a p = (Done (Inl (Error 22), ?a), p)" for p
    by (simp add: arena_destroy_def)
  then have run: "attempts (arena_destroy ref_ffi) 2 ?a ref_start = (Done (0, ?a), ref_start)"
    by (simp add: numeral_2_eq_2 run_then_def)
  from arena_destroyed_at_most_once [OF this] run show ?thesis by simp
qed

theorem process_operations_safe_witness:
  "(\<exists>r q. this_trim ref_ffi ref_start = (Done r, q) \<and> keys_ok ref_ffi q) \<and>
   (\<exists>r q. tcache_flush ref_ffi \<lparr>t_index = 5, t_owned = True\<rparr> ref_start = (Done r, q) \<and> keys_ok ref_ffi q)"
proof -
  let ?t = "\<lparr>t_index = 5, t_owned = True\<rparr>" and ?live = "\<lambda>_ i. i = 5"
  note all = process_operations_safe [OF ref_thread_controls ref_tcache_controls [of ?live] ref_arenas_controls,
    where t = ?t]
  have 1: "ctl_ok ref_ffi (this_trim ref_ffi)" by (simp only: all)
  have 2: "ctl_ok_in ref_ffi (cache_exists ?live ?t) (tcache_flush ref_ffi ?t)" by (simp only: all)
  have 3: "keys_ok ref_ffi ref_start \<and> cache_exists ?live ?t (mach ref_start)"
    by (simp add: ref_start_ok cache_exists_def)
  show ?thesis
    by (rule conjI [OF ctl_ok_runs [OF 1 ref_start_ok] ctl_ok_in_runs [OF 2 3]])
qed

end
