(* ===== verification/Extent_Hooks.thy ===== *)
theory Extent_Hooks
  imports Ctl_Value
begin

text \<open>
  \<^verbatim>\<open>jevmalloc/src/arena/extent_hooks.rs\<close>: hook tables with Rust callbacks, and the trampolines through
  which the C library calls them.

  A callback is application code: a parameter, run in the machine with the table's state and a
  decoded request. A table in static storage is found at its address by the parameter \<open>statics\<close>; its
  raw header is its first field, so both have the same address. The C boolean of the target is the
  record \<open>cbool\<close>, with one value for each of the two conditionally compiled representations. An
  unwinding panic cannot leave an \<^verbatim>\<open>extern "C"\<close> function: \<open>Panicked\<close> is then an abort.

  Shown here: on both targets a hook reached through its slot hands the callback exactly the request
  the library encoded and reports success exactly when the callback does; a table fills exactly the
  slots that have a callback; the allocation hook touches the two state flags only on success.
\<close>

section \<open>Requests and results\<close>

record ExtentAlloc =
  al_address :: "usize option"
  al_size :: usize
  al_alignment :: usize
  al_zeroed :: bool
  al_committed :: bool
  al_arena :: c_uint

record ExtentAllocation =
  got_address :: usize
  got_zeroed :: bool
  got_committed :: bool

record Extent =
  ex_address :: usize
  ex_size :: usize
  ex_committed :: bool
  ex_arena :: c_uint

record ExtentRange =
  rg_address :: usize
  rg_size :: usize
  rg_offset :: usize
  rg_length :: usize
  rg_arena :: c_uint

record ExtentSplit =
  sp_address :: usize
  sp_size :: usize
  sp_first_size :: usize
  sp_second_size :: usize
  sp_committed :: bool
  sp_arena :: c_uint

record ExtentMerge =
  mg_first_address :: usize
  mg_first_size :: usize
  mg_second_address :: usize
  mg_second_size :: usize
  mg_committed :: bool
  mg_arena :: c_uint

datatype ExtentHookResult = Success | Failure

section \<open>Callback sets and tables\<close>

type_synonym ('st, 's, 'req, 'res) callback = "'st \<Rightarrow> 'req \<Rightarrow> ('s machine, 'res) comp"

record ('st, 's) ExtentCallbacks =
  cb_alloc :: "('st, 's, ExtentAlloc, ExtentAllocation option) callback option"
  cb_dalloc :: "('st, 's, Extent, ExtentHookResult) callback option"
  cb_destroy :: "('st, 's, Extent, unit) callback option"
  cb_commit :: "('st, 's, ExtentRange, ExtentHookResult) callback option"
  cb_decommit :: "('st, 's, ExtentRange, ExtentHookResult) callback option"
  cb_purge_lazy :: "('st, 's, ExtentRange, ExtentHookResult) callback option"
  cb_purge_forced :: "('st, 's, ExtentRange, ExtentHookResult) callback option"
  cb_split :: "('st, 's, ExtentSplit, ExtentHookResult) callback option"
  cb_merge :: "('st, 's, ExtentMerge, ExtentHookResult) callback option"

definition EMPTY_RAW_EXTENT_HOOKS :: extent_hooks_s where
  "EMPTY_RAW_EXTENT_HOOKS = \<lparr>h_alloc = None, h_dalloc = None, h_destroy = None, h_commit = None,
     h_decommit = None, h_purge_lazy = None, h_purge_forced = None, h_split = None, h_merge = None\<rparr>"

definition EMPTY_callbacks :: "('st, 's) ExtentCallbacks" where
  "EMPTY_callbacks = \<lparr>cb_alloc = None, cb_dalloc = None, cb_destroy = None, cb_commit = None,
     cb_decommit = None, cb_purge_lazy = None, cb_purge_forced = None, cb_split = None, cb_merge = None\<rparr>"

definition default_callbacks :: "('st, 's) ExtentCallbacks" where
  "default_callbacks = EMPTY_callbacks"

record ('st, 's) ExtentHooks =
  raw_header :: extent_hooks_s
  hook_callbacks :: "('st, 's) ExtentCallbacks"
  hook_state :: 'st

definition ExtentHooks_new :: "'st \<Rightarrow> ('st, 's) ExtentCallbacks \<Rightarrow> ('st, 's) ExtentHooks" where
  "ExtentHooks_new st cbs =
    (let header = \<lparr>
       h_alloc = (case cb_alloc cbs of Some _ \<Rightarrow> Some (Trampoline Hook_alloc) | None \<Rightarrow> None),
       h_dalloc = (case cb_dalloc cbs of Some _ \<Rightarrow> Some (Trampoline Hook_dalloc) | None \<Rightarrow> None),
       h_destroy = (case cb_destroy cbs of Some _ \<Rightarrow> Some (Trampoline Hook_destroy) | None \<Rightarrow> None),
       h_commit = (case cb_commit cbs of Some _ \<Rightarrow> Some (Trampoline Hook_commit) | None \<Rightarrow> None),
       h_decommit = (case cb_decommit cbs of Some _ \<Rightarrow> Some (Trampoline Hook_decommit) | None \<Rightarrow> None),
       h_purge_lazy = (case cb_purge_lazy cbs of Some _ \<Rightarrow> Some (Trampoline Hook_purge_lazy) | None \<Rightarrow> None),
       h_purge_forced =
         (case cb_purge_forced cbs of Some _ \<Rightarrow> Some (Trampoline Hook_purge_forced) | None \<Rightarrow> None),
       h_split = (case cb_split cbs of Some _ \<Rightarrow> Some (Trampoline Hook_split) | None \<Rightarrow> None),
       h_merge = (case cb_merge cbs of Some _ \<Rightarrow> Some (Trampoline Hook_merge) | None \<Rightarrow> None)\<rparr>
     in \<lparr>raw_header = header, hook_callbacks = cbs, hook_state = st\<rparr>)"

definition ExtentHooks_state :: "('st, 's) ExtentHooks \<Rightarrow> 'st" where
  "ExtentHooks_state hooks = hook_state hooks"

definition ExtentHooks_callbacks :: "('st, 's) ExtentHooks \<Rightarrow> ('st, 's) ExtentCallbacks" where
  "ExtentHooks_callbacks hooks = hook_callbacks hooks"

definition ExtentHooks_raw :: "('st, 's) ExtentHooks \<Rightarrow> extent_hooks_s" where
  "ExtentHooks_raw hooks = raw_header hooks"

text \<open>The tables of the program's static storage, by address.\<close>

type_synonym ('st, 's) statics = "usize \<Rightarrow> ('st, 's) ExtentHooks option"

text \<open>\<^verbatim>\<open>as_raw\<close> casts a reference to the table, which is never null, to a pointer to its first field:
  the address stays.\<close>

definition as_raw :: "usize \<Rightarrow> usize" where
  "as_raw table = table"

definition from_raw :: "('st, 's) statics \<Rightarrow> usize \<Rightarrow> ('s machine, ('st, 's) ExtentHooks) comp" where
  "from_raw statics raw =
    (if raw = 0 then undef else case statics raw of None \<Rightarrow> undef | Some hooks \<Rightarrow> ret hooks)"

definition address :: "usize \<Rightarrow> ('s machine, usize) comp" where
  "address a = (if a = 0 then undef else ret a)"

section \<open>C booleans\<close>

record 'c cbool =
  cb_repr :: "'c crepr"
  from_bool :: "'c \<Rightarrow> bool"
  to_bool :: "bool \<Rightarrow> 'c"

definition msvc_cbool :: "c_int cbool" where
  "msvc_cbool = \<lparr>cb_repr = u32_repr, from_bool = (\<lambda>value. value \<noteq> 0),
     to_bool = (\<lambda>value. case value of True \<Rightarrow> 1 | False \<Rightarrow> 0)\<rparr>"

definition native_cbool :: "bool cbool" where
  "native_cbool = \<lparr>cb_repr = bool_repr, from_bool = (\<lambda>value. value), to_bool = (\<lambda>value. value)\<rparr>"

text \<open>
  Loads and stores of bytes in the machine. A store changes every view of the bytes it writes, in
  whichever object view they are seen.
\<close>

definition load_bytes :: "'s machine \<Rightarrow> usize \<Rightarrow> nat \<Rightarrow> byte list option" where
  "load_bytes m p n = (if p = 0 then None else case bytes_at m p of
      None \<Rightarrow> None
    | Some bs \<Rightarrow> if n \<le> length bs then Some (take n bs) else None)"

definition overwrite :: "usize \<Rightarrow> byte list \<Rightarrow> usize \<Rightarrow> byte list \<Rightarrow> byte list" where
  "overwrite p bs a xs = map (\<lambda>i. let d = unat (a + word_of_nat i - p)
     in if d < length bs then bs ! d else xs ! i) [0..<length xs]"

definition store_bytes :: "'s machine \<Rightarrow> usize \<Rightarrow> byte list \<Rightarrow> 's machine" where
  "store_bytes m p bs = m\<lparr>bytes_at := (\<lambda>a. map_option (overwrite p bs a) (bytes_at m a))\<rparr>"

text \<open>A pointer is aligned for a C boolean when its address is a multiple of the size.\<close>

definition aligned :: "'c cbool \<Rightarrow> usize \<Rightarrow> bool" where
  "aligned C p \<longleftrightarrow> unat p mod rsize (cb_repr C) = 0"

definition read_bool :: "'c cbool \<Rightarrow> usize \<Rightarrow> ('s machine, bool) comp" where
  "read_bool C p = (\<lambda>m.
     case (if aligned C p then load_bytes m p (rsize (cb_repr C)) else None) of
       None \<Rightarrow> (Undef, m)
     | Some bs \<Rightarrow> (case dec (cb_repr C) bs of
           None \<Rightarrow> (Undef, m)
         | Some v \<Rightarrow> (Done (from_bool C v), m)))"

definition write_bool :: "'c cbool \<Rightarrow> usize \<Rightarrow> bool \<Rightarrow> ('s machine, unit) comp" where
  "write_bool C p v = (\<lambda>m.
     case (if aligned C p then load_bytes m p (rsize (cb_repr C)) else None) of
       None \<Rightarrow> (Undef, m)
     | Some _ \<Rightarrow> (Done (), store_bytes m p (enc (cb_repr C) (to_bool C v))))"

definition failure :: "'c cbool \<Rightarrow> 'c" where
  "failure C = to_bool C True"

section \<open>Trampolines\<close>

text \<open>
  \<^verbatim>\<open>jevmalloc-sys/src/extent.rs\<close>: the C function types of the slots, over the representation \<open>'c\<close> of the C
  boolean. The first argument is the address of the table.
\<close>

type_synonym 's extent_alloc_t =
  "usize \<Rightarrow> usize \<Rightarrow> usize \<Rightarrow> usize \<Rightarrow> usize \<Rightarrow> usize \<Rightarrow> c_uint \<Rightarrow> ('s machine, usize) comp"

type_synonym ('c, 's) extent_dalloc_t = "usize \<Rightarrow> usize \<Rightarrow> usize \<Rightarrow> 'c \<Rightarrow> c_uint \<Rightarrow> ('s machine, 'c) comp"

type_synonym ('c, 's) extent_destroy_t = "usize \<Rightarrow> usize \<Rightarrow> usize \<Rightarrow> 'c \<Rightarrow> c_uint \<Rightarrow> ('s machine, unit) comp"

type_synonym ('c, 's) extent_commit_t =
  "usize \<Rightarrow> usize \<Rightarrow> usize \<Rightarrow> usize \<Rightarrow> usize \<Rightarrow> c_uint \<Rightarrow> ('s machine, 'c) comp"

type_synonym ('c, 's) extent_decommit_t =
  "usize \<Rightarrow> usize \<Rightarrow> usize \<Rightarrow> usize \<Rightarrow> usize \<Rightarrow> c_uint \<Rightarrow> ('s machine, 'c) comp"

type_synonym ('c, 's) extent_purge_t =
  "usize \<Rightarrow> usize \<Rightarrow> usize \<Rightarrow> usize \<Rightarrow> usize \<Rightarrow> c_uint \<Rightarrow> ('s machine, 'c) comp"

type_synonym ('c, 's) extent_split_t =
  "usize \<Rightarrow> usize \<Rightarrow> usize \<Rightarrow> usize \<Rightarrow> usize \<Rightarrow> 'c \<Rightarrow> c_uint \<Rightarrow> ('s machine, 'c) comp"

type_synonym ('c, 's) extent_merge_t =
  "usize \<Rightarrow> usize \<Rightarrow> usize \<Rightarrow> usize \<Rightarrow> usize \<Rightarrow> 'c \<Rightarrow> c_uint \<Rightarrow> ('s machine, 'c) comp"

definition alloc_hook :: "'s ffi \<Rightarrow> 'c cbool \<Rightarrow> ('st, 's) statics \<Rightarrow> 's extent_alloc_t" where
  "alloc_hook F C statics raw new_address sz alignment zeroed committed arena =
     run_then (from_raw statics raw) (\<lambda>hooks.
     case cb_alloc (hook_callbacks hooks) of
       None \<Rightarrow> ret 0
     | Some cb \<Rightarrow>
         run_then (read_bool C zeroed) (\<lambda>z.
         run_then (read_bool C committed) (\<lambda>c.
         let request = \<lparr>al_address = (if new_address = 0 then None else Some new_address),
               al_size = sz, al_alignment = alignment, al_zeroed = z, al_committed = c,
               al_arena = arena\<rparr> in
         run_then (cb (hook_state hooks) request) (\<lambda>result.
         case result of
           None \<Rightarrow> ret 0
         | Some allocation \<Rightarrow>
             run_then (rust_assert (\<not> debug_assertions F \<or>
               (case al_address request of None \<Rightarrow> True | Some a \<Rightarrow> a = got_address allocation))) (\<lambda>_.
             run_then (rust_assert (\<not> debug_assertions F \<or>
               (\<not> al_zeroed request \<or> got_zeroed allocation))) (\<lambda>_.
             run_then (rust_assert (\<not> debug_assertions F \<or>
               (\<not> al_committed request \<or> got_committed allocation))) (\<lambda>_.
             run_then (write_bool C zeroed (got_zeroed allocation)) (\<lambda>_.
             run_then (write_bool C committed (got_committed allocation)) (\<lambda>_.
             ret (got_address allocation))))))))))"

definition dalloc_hook :: "'c cbool \<Rightarrow> ('st, 's) statics \<Rightarrow> ('c, 's) extent_dalloc_t" where
  "dalloc_hook C statics raw addr sz committed arena =
     run_then (from_raw statics raw) (\<lambda>hooks.
     case cb_dalloc (hook_callbacks hooks) of
       None \<Rightarrow> ret (failure C)
     | Some cb \<Rightarrow>
         run_then (address addr) (\<lambda>a.
         let extent = \<lparr>ex_address = a, ex_size = sz, ex_committed = from_bool C committed,
               ex_arena = arena\<rparr> in
         run_then (cb (hook_state hooks) extent) (\<lambda>result.
         ret (to_bool C (result = Failure)))))"

definition destroy_hook :: "'c cbool \<Rightarrow> ('st, 's) statics \<Rightarrow> ('c, 's) extent_destroy_t" where
  "destroy_hook C statics raw addr sz committed arena =
     run_then (from_raw statics raw) (\<lambda>hooks.
     case cb_destroy (hook_callbacks hooks) of
       None \<Rightarrow> ret ()
     | Some cb \<Rightarrow>
         run_then (address addr) (\<lambda>a.
         let extent = \<lparr>ex_address = a, ex_size = sz, ex_committed = from_bool C committed,
               ex_arena = arena\<rparr> in
         cb (hook_state hooks) extent))"

datatype RangeKind = Commit | Decommit | PurgeLazy | PurgeForced

definition range_hook :: "'c cbool \<Rightarrow> ('st, 's) statics \<Rightarrow> usize \<Rightarrow> usize \<Rightarrow> usize \<Rightarrow> usize \<Rightarrow> usize
    \<Rightarrow> c_uint \<Rightarrow> RangeKind \<Rightarrow> ('s machine, 'c) comp" where
  "range_hook C statics raw addr sz offset len arena kind =
     run_then (from_raw statics raw) (\<lambda>hooks.
     let cb = (case kind of
           Commit \<Rightarrow> cb_commit (hook_callbacks hooks)
         | Decommit \<Rightarrow> cb_decommit (hook_callbacks hooks)
         | PurgeLazy \<Rightarrow> cb_purge_lazy (hook_callbacks hooks)
         | PurgeForced \<Rightarrow> cb_purge_forced (hook_callbacks hooks)) in
     case cb of
       None \<Rightarrow> ret (failure C)
     | Some cb \<Rightarrow>
         run_then (address addr) (\<lambda>a.
         let range = \<lparr>rg_address = a, rg_size = sz, rg_offset = offset, rg_length = len,
               rg_arena = arena\<rparr> in
         run_then (cb (hook_state hooks) range) (\<lambda>result.
         ret (to_bool C (result = Failure)))))"

definition commit_hook :: "'c cbool \<Rightarrow> ('st, 's) statics \<Rightarrow> ('c, 's) extent_commit_t" where
  "commit_hook C statics raw addr sz offset len arena =
     range_hook C statics raw addr sz offset len arena Commit"

definition decommit_hook :: "'c cbool \<Rightarrow> ('st, 's) statics \<Rightarrow> ('c, 's) extent_decommit_t" where
  "decommit_hook C statics raw addr sz offset len arena =
     range_hook C statics raw addr sz offset len arena Decommit"

definition purge_lazy_hook :: "'c cbool \<Rightarrow> ('st, 's) statics \<Rightarrow> ('c, 's) extent_purge_t" where
  "purge_lazy_hook C statics raw addr sz offset len arena =
     range_hook C statics raw addr sz offset len arena PurgeLazy"

definition purge_forced_hook :: "'c cbool \<Rightarrow> ('st, 's) statics \<Rightarrow> ('c, 's) extent_purge_t" where
  "purge_forced_hook C statics raw addr sz offset len arena =
     range_hook C statics raw addr sz offset len arena PurgeForced"

definition split_hook :: "'c cbool \<Rightarrow> ('st, 's) statics \<Rightarrow> ('c, 's) extent_split_t" where
  "split_hook C statics raw addr sz first_size second_size committed arena =
     run_then (from_raw statics raw) (\<lambda>hooks.
     case cb_split (hook_callbacks hooks) of
       None \<Rightarrow> ret (failure C)
     | Some cb \<Rightarrow>
         run_then (address addr) (\<lambda>a.
         let split = \<lparr>sp_address = a, sp_size = sz, sp_first_size = first_size,
               sp_second_size = second_size, sp_committed = from_bool C committed, sp_arena = arena\<rparr> in
         run_then (cb (hook_state hooks) split) (\<lambda>result.
         ret (to_bool C (result = Failure)))))"

definition merge_hook :: "'c cbool \<Rightarrow> ('st, 's) statics \<Rightarrow> ('c, 's) extent_merge_t" where
  "merge_hook C statics raw first_address first_size second_address second_size committed arena =
     run_then (from_raw statics raw) (\<lambda>hooks.
     case cb_merge (hook_callbacks hooks) of
       None \<Rightarrow> ret (failure C)
     | Some cb \<Rightarrow>
         run_then (address first_address) (\<lambda>a.
         run_then (address second_address) (\<lambda>b.
         let merge = \<lparr>mg_first_address = a, mg_first_size = first_size, mg_second_address = b,
               mg_second_size = second_size, mg_committed = from_bool C committed, mg_arena = arena\<rparr> in
         run_then (cb (hook_state hooks) merge) (\<lambda>result.
         ret (to_bool C (result = Failure))))))"

section \<open>The laws of the two representations\<close>

locale cbool_laws = c_bool "cb_repr C" "to_bool C" "from_bool C" for C :: "'c cbool"
begin

text \<open>What the library makes of an answer: it takes \<open>False\<close> for success.\<close>

lemma observe_answer:
  "run_then m (\<lambda>r. ret (if from_bool C (to_bool C (r = Failure)) then Failure else Success)) = m"
proof (rule ext)
  fix s
  have "(if r = Failure then Failure else Success) = r" for r
    by (cases r) simp_all
  then show "run_then m (\<lambda>r. ret (if from_bool C (to_bool C (r = Failure)) then Failure else Success)) s = m s"
    by (simp add: decode_encode run_then_def split: prod.splits outcome.splits)
qed

lemma failure_observed [simp]: "from_bool C (failure C)"
  by (simp add: failure_def decode_encode)

end

interpretation msvc_laws: cbool_laws msvc_cbool
  by unfold_locales
     (simp_all add: msvc_cbool_def u32.size_pos u32.length_enc u32.dec_enc split: bool.splits)

interpretation native_laws: cbool_laws native_cbool
  by unfold_locales
     (simp_all add: native_cbool_def boolean.size_pos boolean.length_enc boolean.dec_enc)

section \<open>The contract of a fallible hook\<close>

text \<open>
  The specification of one hook: the callback selected from the table, run once on the request, with
  its verdict as the answer; without a callback the answer is failure. A hook is the C entry point
  applied to a request whose boolean is encoded for the target.
\<close>

definition verdict :: "'st \<Rightarrow> 'req \<Rightarrow> ('st, 's, 'req, ExtentHookResult) callback option
    \<Rightarrow> ('s machine, ExtentHookResult) comp" where
  "verdict st req cb = (case cb of None \<Rightarrow> ret Failure | Some f \<Rightarrow> f st req)"

definition observe :: "'c cbool \<Rightarrow> ('s machine, 'c) comp \<Rightarrow> ('s machine, ExtentHookResult) comp" where
  "observe C m = run_then m (\<lambda>b. ret (if from_bool C b then Failure else Success))"

locale fallible_hook = cbool_laws C for C :: "'c cbool" +
  fixes entry :: "('st, 's) statics \<Rightarrow> usize \<Rightarrow> 'req \<Rightarrow> ('s machine, 'c) comp"
    and select :: "('st, 's) ExtentCallbacks \<Rightarrow> ('st, 's, 'req, ExtentHookResult) callback option"
    and valid :: "'req \<Rightarrow> bool"
  assumes absent: "raw \<noteq> 0 \<Longrightarrow> statics raw = Some hooks \<Longrightarrow> select (hook_callbacks hooks) = None \<Longrightarrow>
      entry statics raw req = ret (failure C)"
    and present: "raw \<noteq> 0 \<Longrightarrow> statics raw = Some hooks \<Longrightarrow> select (hook_callbacks hooks) = Some f \<Longrightarrow>
      valid req \<Longrightarrow> entry statics raw req =
        run_then (f (hook_state hooks) req) (\<lambda>r. ret (to_bool C (r = Failure)))"
begin

lemma reports_verdict:
  assumes "raw \<noteq> 0" and "statics raw = Some hooks" and "valid req"
  shows "observe C (entry statics raw req) = verdict (hook_state hooks) req (select (hook_callbacks hooks))"
proof (cases "select (hook_callbacks hooks)")
  case None
  then show ?thesis
    using absent [of raw statics hooks req] assms by (simp add: observe_def verdict_def)
next
  case (Some f)
  then show ?thesis
    using present [of raw statics hooks f req] assms
    by (simp add: observe_def verdict_def run_then_assoc observe_answer)
qed

text \<open>A hook without a callback declines and touches nothing.\<close>

lemma declines:
  assumes "raw \<noteq> 0" and "statics raw = Some hooks" and "select (hook_callbacks hooks) = None"
  shows "\<exists>b. entry statics raw req m = (Done b, m) \<and> from_bool C b"
  using absent [of raw statics hooks req] assms by simp

end

text \<open>The entry points as functions of a request, as the library calls them.\<close>

definition dalloc_entry :: "'c cbool \<Rightarrow> ('st, 's) statics \<Rightarrow> usize \<Rightarrow> Extent \<Rightarrow> ('s machine, 'c) comp" where
  "dalloc_entry C statics raw e =
     dalloc_hook C statics raw (ex_address e) (ex_size e) (to_bool C (ex_committed e)) (ex_arena e)"

fun range_entry :: "hook_kind \<Rightarrow> 'c cbool \<Rightarrow> ('st, 's) statics \<Rightarrow> usize \<Rightarrow> ExtentRange \<Rightarrow> ('s machine, 'c) comp" where
  "range_entry Hook_commit C statics raw g =
     commit_hook C statics raw (rg_address g) (rg_size g) (rg_offset g) (rg_length g) (rg_arena g)"
| "range_entry Hook_decommit C statics raw g =
     decommit_hook C statics raw (rg_address g) (rg_size g) (rg_offset g) (rg_length g) (rg_arena g)"
| "range_entry Hook_purge_lazy C statics raw g =
     purge_lazy_hook C statics raw (rg_address g) (rg_size g) (rg_offset g) (rg_length g) (rg_arena g)"
| "range_entry Hook_purge_forced C statics raw g =
     purge_forced_hook C statics raw (rg_address g) (rg_size g) (rg_offset g) (rg_length g) (rg_arena g)"
| "range_entry _ C statics raw g = undef"

definition split_entry :: "'c cbool \<Rightarrow> ('st, 's) statics \<Rightarrow> usize \<Rightarrow> ExtentSplit \<Rightarrow> ('s machine, 'c) comp" where
  "split_entry C statics raw e = split_hook C statics raw (sp_address e) (sp_size e) (sp_first_size e)
     (sp_second_size e) (to_bool C (sp_committed e)) (sp_arena e)"

definition merge_entry :: "'c cbool \<Rightarrow> ('st, 's) statics \<Rightarrow> usize \<Rightarrow> ExtentMerge \<Rightarrow> ('s machine, 'c) comp" where
  "merge_entry C statics raw e = merge_hook C statics raw (mg_first_address e) (mg_first_size e)
     (mg_second_address e) (mg_second_size e) (to_bool C (mg_committed e)) (mg_arena e)"

fun range_slot :: "RangeKind \<Rightarrow> hook_kind" where
  "range_slot Commit = Hook_commit"
| "range_slot Decommit = Hook_decommit"
| "range_slot PurgeLazy = Hook_purge_lazy"
| "range_slot PurgeForced = Hook_purge_forced"

fun range_callback :: "RangeKind \<Rightarrow> ('st, 's) ExtentCallbacks
    \<Rightarrow> ('st, 's, ExtentRange, ExtentHookResult) callback option" where
  "range_callback Commit cbs = cb_commit cbs"
| "range_callback Decommit cbs = cb_decommit cbs"
| "range_callback PurgeLazy cbs = cb_purge_lazy cbs"
| "range_callback PurgeForced cbs = cb_purge_forced cbs"

lemmas hook_defs = from_raw_def address_def dalloc_entry_def dalloc_hook_def range_hook_def
  commit_hook_def decommit_hook_def purge_lazy_hook_def purge_forced_hook_def
  split_entry_def split_hook_def merge_entry_def merge_hook_def

lemma request_eta [simp]:
  "\<lparr>ex_address = ex_address e, ex_size = ex_size e, ex_committed = ex_committed e,
     ex_arena = ex_arena e\<rparr> = e"
  "\<lparr>rg_address = rg_address g, rg_size = rg_size g, rg_offset = rg_offset g, rg_length = rg_length g,
     rg_arena = rg_arena g\<rparr> = g"
  "\<lparr>sp_address = sp_address p, sp_size = sp_size p, sp_first_size = sp_first_size p,
     sp_second_size = sp_second_size p, sp_committed = sp_committed p, sp_arena = sp_arena p\<rparr> = p"
  "\<lparr>mg_first_address = mg_first_address q, mg_first_size = mg_first_size q,
     mg_second_address = mg_second_address q, mg_second_size = mg_second_size q,
     mg_committed = mg_committed q, mg_arena = mg_arena q\<rparr> = q"
  by simp_all

text \<open>Every fallible hook satisfies the contract, for any representation that satisfies the laws.\<close>

context cbool_laws
begin

lemma dalloc_contract: "fallible_hook C (dalloc_entry C) cb_dalloc (\<lambda>e. ex_address e \<noteq> 0)"
  by unfold_locales (simp_all add: hook_defs decode_encode)

lemma range_contract:
  "fallible_hook C (range_entry (range_slot k) C) (range_callback k) (\<lambda>g. rg_address g \<noteq> 0)"
  by (cases k; unfold_locales; simp add: hook_defs)

lemma split_contract: "fallible_hook C (split_entry C) cb_split (\<lambda>e. sp_address e \<noteq> 0)"
  by unfold_locales (simp_all add: hook_defs decode_encode)

lemma merge_contract:
  "fallible_hook C (merge_entry C) cb_merge (\<lambda>e. mg_first_address e \<noteq> 0 \<and> mg_second_address e \<noteq> 0)"
  by unfold_locales (simp_all add: hook_defs decode_encode)

end

interpretation msvc_dalloc: fallible_hook msvc_cbool "dalloc_entry msvc_cbool" cb_dalloc
    "\<lambda>e. ex_address e \<noteq> 0"
  by (rule msvc_laws.dalloc_contract)

interpretation msvc_range: fallible_hook msvc_cbool "range_entry (range_slot k) msvc_cbool"
    "range_callback k" "\<lambda>g. rg_address g \<noteq> 0" for k
  by (rule msvc_laws.range_contract)

interpretation msvc_split: fallible_hook msvc_cbool "split_entry msvc_cbool" cb_split
    "\<lambda>e. sp_address e \<noteq> 0"
  by (rule msvc_laws.split_contract)

interpretation msvc_merge: fallible_hook msvc_cbool "merge_entry msvc_cbool" cb_merge
    "\<lambda>e. mg_first_address e \<noteq> 0 \<and> mg_second_address e \<noteq> 0"
  by (rule msvc_laws.merge_contract)

interpretation native_dalloc: fallible_hook native_cbool "dalloc_entry native_cbool" cb_dalloc
    "\<lambda>e. ex_address e \<noteq> 0"
  by (rule native_laws.dalloc_contract)

interpretation native_range: fallible_hook native_cbool "range_entry (range_slot k) native_cbool"
    "range_callback k" "\<lambda>g. rg_address g \<noteq> 0" for k
  by (rule native_laws.range_contract)

interpretation native_split: fallible_hook native_cbool "split_entry native_cbool" cb_split
    "\<lambda>e. sp_address e \<noteq> 0"
  by (rule native_laws.split_contract)

interpretation native_merge: fallible_hook native_cbool "merge_entry native_cbool" cb_merge
    "\<lambda>e. mg_first_address e \<noteq> 0 \<and> mg_second_address e \<noteq> 0"
  by (rule native_laws.merge_contract)

section \<open>Calls through the slots of an installed table\<close>

text \<open>A fallible request of the library, the slot it goes through, and the call of that slot's function.\<close>

datatype hook_request =
    Req_dalloc Extent | Req_range RangeKind ExtentRange | Req_split ExtentSplit | Req_merge ExtentMerge

fun request_valid :: "hook_request \<Rightarrow> bool" where
  "request_valid (Req_dalloc e) \<longleftrightarrow> ex_address e \<noteq> 0"
| "request_valid (Req_range k g) \<longleftrightarrow> rg_address g \<noteq> 0"
| "request_valid (Req_split e) \<longleftrightarrow> sp_address e \<noteq> 0"
| "request_valid (Req_merge e) \<longleftrightarrow> mg_first_address e \<noteq> 0 \<and> mg_second_address e \<noteq> 0"

fun slot :: "hook_kind \<Rightarrow> extent_hooks_s \<Rightarrow> hook_fn option" where
  "slot Hook_alloc t = h_alloc t"
| "slot Hook_dalloc t = h_dalloc t"
| "slot Hook_destroy t = h_destroy t"
| "slot Hook_commit t = h_commit t"
| "slot Hook_decommit t = h_decommit t"
| "slot Hook_purge_lazy t = h_purge_lazy t"
| "slot Hook_purge_forced t = h_purge_forced t"
| "slot Hook_split t = h_split t"
| "slot Hook_merge t = h_merge t"

fun request_slot :: "hook_request \<Rightarrow> hook_kind" where
  "request_slot (Req_dalloc e) = Hook_dalloc"
| "request_slot (Req_range k g) = range_slot k"
| "request_slot (Req_split e) = Hook_split"
| "request_slot (Req_merge e) = Hook_merge"

text \<open>Calling a trampoline with the arguments of a request of another signature is undefined.\<close>

fun call_fn :: "hook_fn \<Rightarrow> 'c cbool \<Rightarrow> ('st, 's) statics \<Rightarrow> usize \<Rightarrow> hook_request \<Rightarrow> ('s machine, 'c) comp" where
  "call_fn (Trampoline Hook_dalloc) C statics raw (Req_dalloc e) = dalloc_entry C statics raw e"
| "call_fn (Trampoline k) C statics raw (Req_range _ g) = range_entry k C statics raw g"
| "call_fn (Trampoline Hook_split) C statics raw (Req_split e) = split_entry C statics raw e"
| "call_fn (Trampoline Hook_merge) C statics raw (Req_merge e) = merge_entry C statics raw e"
| "call_fn _ C statics raw _ = undef"

definition call_slot :: "'c cbool \<Rightarrow> ('st, 's) statics \<Rightarrow> usize \<Rightarrow> ('st, 's) ExtentHooks \<Rightarrow> hook_request
    \<Rightarrow> ('s machine, 'c) comp option" where
  "call_slot C statics raw hooks req =
     map_option (\<lambda>f. call_fn f C statics raw req) (slot (request_slot req) (ExtentHooks_raw hooks))"

fun run_callback :: "hook_request \<Rightarrow> ('st, 's) ExtentCallbacks \<Rightarrow> 'st
    \<Rightarrow> ('s machine, ExtentHookResult) comp option" where
  "run_callback (Req_dalloc e) cbs st = map_option (\<lambda>f. f st e) (cb_dalloc cbs)"
| "run_callback (Req_range k g) cbs st = map_option (\<lambda>f. f st g) (range_callback k cbs)"
| "run_callback (Req_split e) cbs st = map_option (\<lambda>f. f st e) (cb_split cbs)"
| "run_callback (Req_merge e) cbs st = map_option (\<lambda>f. f st e) (cb_merge cbs)"

lemma new_fields [simp]:
  "hook_callbacks (ExtentHooks_new st cbs) = cbs" "hook_state (ExtentHooks_new st cbs) = st"
  by (simp_all add: ExtentHooks_new_def)

definition provided :: "('st, 's) ExtentCallbacks \<Rightarrow> hook_kind set" where
  "provided cbs =
     {k. case k of Hook_alloc \<Rightarrow> cb_alloc cbs \<noteq> None | Hook_dalloc \<Rightarrow> cb_dalloc cbs \<noteq> None
       | Hook_destroy \<Rightarrow> cb_destroy cbs \<noteq> None | Hook_commit \<Rightarrow> cb_commit cbs \<noteq> None
       | Hook_decommit \<Rightarrow> cb_decommit cbs \<noteq> None | Hook_purge_lazy \<Rightarrow> cb_purge_lazy cbs \<noteq> None
       | Hook_purge_forced \<Rightarrow> cb_purge_forced cbs \<noteq> None | Hook_split \<Rightarrow> cb_split cbs \<noteq> None
       | Hook_merge \<Rightarrow> cb_merge cbs \<noteq> None}"

lemma slot_new:
  "slot k (ExtentHooks_raw (ExtentHooks_new st cbs)) =
     (if k \<in> provided cbs then Some (Trampoline k) else None)"
  by (cases k) (auto simp: ExtentHooks_new_def ExtentHooks_raw_def provided_def Let_def split: option.splits)

lemma range_provided: "range_slot k \<in> provided cbs \<longleftrightarrow> range_callback k cbs \<noteq> None"
  by (cases k) (auto simp: provided_def)

lemma call_fn_range: "call_fn (Trampoline h) C statics raw (Req_range k g) = range_entry h C statics raw g"
  by (cases h) simp_all

text \<open>
  The argument for one representation: both targets take it through their own interpretations.
\<close>

context cbool_laws
begin

lemma destroy_runs_callback:
  assumes "raw \<noteq> 0" and "statics raw = Some (ExtentHooks_new st cbs)" and "cb_destroy cbs = Some f"
    and "ex_address e \<noteq> 0"
  shows "destroy_hook C statics raw (ex_address e) (ex_size e) (to_bool C (ex_committed e)) (ex_arena e) = f st e"
  using assms by (simp add: destroy_hook_def from_raw_def address_def decode_encode)

lemma slot_runs_callback:
  assumes raw: "raw \<noteq> 0" and here: "statics raw = Some (ExtentHooks_new st cbs)"
    and valid: "request_valid req"
  shows "map_option (observe C) (call_slot C statics raw (ExtentHooks_new st cbs) req)
    = run_callback req cbs st"
proof (cases req)
  case (Req_dalloc e)
  then show ?thesis
    using fallible_hook.reports_verdict [OF dalloc_contract, of raw statics _ e] raw here valid
    by (auto simp: call_slot_def slot_new provided_def verdict_def)
next
  case (Req_range k g)
  then show ?thesis
    using fallible_hook.reports_verdict [OF range_contract, of raw statics _ g k] raw here valid
    by (auto simp: call_slot_def slot_new range_provided call_fn_range verdict_def)
next
  case (Req_split e)
  then show ?thesis
    using fallible_hook.reports_verdict [OF split_contract, of raw statics _ e] raw here valid
    by (auto simp: call_slot_def slot_new provided_def verdict_def)
next
  case (Req_merge e)
  then show ?thesis
    using fallible_hook.reports_verdict [OF merge_contract, of raw statics _ e] raw here valid
    by (auto simp: call_slot_def slot_new provided_def verdict_def)
qed

end

section \<open>The allocation hook\<close>

text \<open>Two booleans at different places: neither overlaps the other.\<close>

definition separate :: "nat \<Rightarrow> usize \<Rightarrow> usize \<Rightarrow> bool" where
  "separate n p q \<longleftrightarrow> n \<le> unat (q - p) \<and> n \<le> unat (p - q)"

lemma separate_sym: "separate n p q \<longleftrightarrow> separate n q p"
  by (auto simp: separate_def)

lemma separate_index:
  assumes "separate n p q" and "i < n"
  shows "n \<le> unat (q + word_of_nat i - p)"
proof -
  have d: "n \<le> unat (q - p)" "n \<le> unat (p - q)"
    using assms(1) by (simp_all add: separate_def)
  then have "p \<noteq> q"
    using assms(2) by auto
  then have sum: "unat (q - p) + unat (p - q) = 2 ^ 64"
    using unsigned_less [of p, where 'a = nat] unsigned_less [of q, where 'a = nat]
    by (auto simp: unat_sub_if' word_le_nat_alt word_unat_eq_iff)
  then have small: "unat (word_of_nat i :: usize) = i"
    using d assms(2) by (simp add: unat_of_nat)
  have "unat (q - p + word_of_nat i) = unat (q - p) + i"
    using d sum small assms(2) by (simp add: unat_word_ariths)
  moreover have "q + word_of_nat i - p = q - p + word_of_nat i"
    by simp
  ultimately show ?thesis
    using d(1) by (metis trans_le_add1)
qed

lemma load_store_same:
  assumes "load_bytes m p (length bs) = Some old" and "length bs < 2 ^ 64"
  shows "load_bytes (store_bytes m p bs) p (length bs) = Some bs"
proof -
  obtain xs where xs: "p \<noteq> 0" "bytes_at m p = Some xs" "length bs \<le> length xs"
    using assms(1) by (auto simp: load_bytes_def split: if_splits option.splits)
  have "unat (word_of_nat i :: usize) = i" if "i < length bs" for i
    using that assms(2) by (simp add: unat_of_nat)
  then have "take (length bs) (overwrite p bs p xs) = bs"
    using xs(3) by (intro nth_equalityI) (auto simp: overwrite_def)
  then show ?thesis
    using xs by (simp add: load_bytes_def store_bytes_def overwrite_def)
qed

lemma load_store_other:
  assumes "separate (length bs) p q" and "n \<le> length bs"
  shows "load_bytes (store_bytes m p bs) q n = load_bytes m q n"
proof -
  have "take n (overwrite p bs q xs) = take n xs" if "n \<le> length xs" for xs
  proof (rule nth_equalityI)
    show "length (take n (overwrite p bs q xs)) = length (take n xs)"
      by (simp add: overwrite_def)
  next
    fix i
    assume i: "i < length (take n (overwrite p bs q xs))"
    then have "i < n" "i < length xs"
      by (simp_all add: overwrite_def)
    moreover have "length bs \<le> unat (q + word_of_nat i - p)"
      using separate_index [OF assms(1)] \<open>i < n\<close> assms(2) by simp
    ultimately show "take n (overwrite p bs q xs) ! i = take n xs ! i"
      by (simp add: overwrite_def Let_def)
  qed
  then show ?thesis
    by (auto simp: load_bytes_def store_bytes_def overwrite_def split: option.splits)
qed

lemma store_bytes_rest [simp]:
  "tables_at (store_bytes m p bs) = tables_at m" "je (store_bytes m p bs) = je m"
  by (simp_all add: store_bytes_def)

text \<open>A flag is live at an address, and which boolean it holds.\<close>

definition flag_live :: "'c cbool \<Rightarrow> 's machine \<Rightarrow> usize \<Rightarrow> bool" where
  "flag_live C m p \<longleftrightarrow> aligned C p \<and> load_bytes m p (rsize (cb_repr C)) \<noteq> None"

definition flag_holds :: "'c cbool \<Rightarrow> 's machine \<Rightarrow> usize \<Rightarrow> bool \<Rightarrow> bool" where
  "flag_holds C m p b \<longleftrightarrow> aligned C p \<and> (\<exists>bs v. load_bytes m p (rsize (cb_repr C)) = Some bs \<and>
     dec (cb_repr C) bs = Some v \<and> from_bool C v = b)"

lemma flag_holds_live: "flag_holds C m p b \<Longrightarrow> flag_live C m p"
  by (auto simp: flag_holds_def flag_live_def)

lemma read_bool_holds: "flag_holds C m p b \<Longrightarrow> read_bool C p m = (Done b, m)"
  by (auto simp: flag_holds_def read_bool_def)

lemma write_bool_live:
  "flag_live C m p \<Longrightarrow> write_bool C p b m = (Done (), store_bytes m p (enc (cb_repr C) (to_bool C b)))"
  by (auto simp: flag_live_def write_bool_def)

context cbool_laws
begin

lemma flag_written:
  assumes "flag_live C m p" and "rsize (cb_repr C) < 2 ^ 64"
  shows "flag_holds C (store_bytes m p (enc (cb_repr C) (to_bool C b))) p b"
  using assms load_store_same [of m p "enc (cb_repr C) (to_bool C b)"]
  by (auto simp: flag_live_def flag_holds_def length_enc dec_enc decode_encode)

lemma flag_kept:
  assumes "separate (rsize (cb_repr C)) p q"
  shows "flag_holds C (store_bytes m p (enc (cb_repr C) v)) q c \<longleftrightarrow> flag_holds C m q c"
    and "flag_live C (store_bytes m p (enc (cb_repr C) v)) q \<longleftrightarrow> flag_live C m q"
  using load_store_other [of "enc (cb_repr C) v" p q "rsize (cb_repr C)" m] assms
  by (simp_all add: flag_holds_def flag_live_def length_enc)

end

text \<open>What a callback's answer owes the request.\<close>

definition honours :: "ExtentAlloc \<Rightarrow> ExtentAllocation \<Rightarrow> bool" where
  "honours req al \<longleftrightarrow>
     (case al_address req of None \<Rightarrow> True | Some a \<Rightarrow> a = got_address al) \<and>
     (al_zeroed req \<longrightarrow> got_zeroed al) \<and> (al_committed req \<longrightarrow> got_committed al)"

text \<open>The machine after both flags are written.\<close>

definition flags_written :: "'c cbool \<Rightarrow> usize \<Rightarrow> usize \<Rightarrow> ExtentAllocation \<Rightarrow> 's machine \<Rightarrow> 's machine" where
  "flags_written C zp cp al m =
     store_bytes (store_bytes m zp (enc (cb_repr C) (to_bool C (got_zeroed al))))
       cp (enc (cb_repr C) (to_bool C (got_committed al)))"

lemma flags_written_rest [simp]:
  "tables_at (flags_written C zp cp al m) = tables_at m" "je (flags_written C zp cp al m) = je m"
  by (simp_all add: flags_written_def)

definition decoded :: "usize \<Rightarrow> usize \<Rightarrow> usize \<Rightarrow> bool \<Rightarrow> bool \<Rightarrow> c_uint \<Rightarrow> ExtentAlloc" where
  "decoded new sz align z c arena = \<lparr>al_address = (if new = 0 then None else Some new), al_size = sz,
     al_alignment = align, al_zeroed = z, al_committed = c, al_arena = arena\<rparr>"

context cbool_laws
begin

lemma alloc_outcome:
  assumes "raw \<noteq> 0" and "statics raw = Some (ExtentHooks_new st cbs)" and "cb_alloc cbs = Some f"
    and "flag_holds C m zp z" and "flag_holds C m cp c"
    and ran: "f st (decoded new sz align z c arena) m = (Done res, m')"
    and live: "flag_live C m' zp" "flag_live C m' cp" and "separate (rsize (cb_repr C)) zp cp"
  shows "alloc_hook F C statics raw new sz align zp cp arena m =
    (case res of
       None \<Rightarrow> (Done 0, m')
     | Some al \<Rightarrow>
         if debug_assertions F \<and> \<not> honours (decoded new sz align z c arena) al then (Panicked, m')
         else (Done (got_address al), flags_written C zp cp al m'))"
proof -
  note reads = assms(4,5) [THEN read_bool_holds]
  have "write_bool C cp b (store_bytes m' zp (enc (cb_repr C) v)) =
      (Done (), store_bytes (store_bytes m' zp (enc (cb_repr C) v)) cp (enc (cb_repr C) (to_bool C b)))" for b v
    by (rule write_bool_live) (simp add: flag_kept [OF assms(9)] live)
  then show ?thesis
    using assms(1-3) reads ran write_bool_live [OF live(1)]
    by (auto simp: alloc_hook_def from_raw_def run_then_def decoded_def honours_def flags_written_def
        rust_assert_def Let_def split: option.splits)
qed

lemma flags_written_hold:
  assumes "flag_live C m zp" "flag_live C m cp" and sep: "separate (rsize (cb_repr C)) zp cp"
    and "rsize (cb_repr C) < 2 ^ 64"
  shows "flag_holds C (flags_written C zp cp al m) zp (got_zeroed al)"
    and "flag_holds C (flags_written C zp cp al m) cp (got_committed al)"
    and "separate (rsize (cb_repr C)) zp q \<Longrightarrow> separate (rsize (cb_repr C)) cp q \<Longrightarrow>
      flag_holds C (flags_written C zp cp al m) q b \<longleftrightarrow> flag_holds C m q b"
proof -
  have sep': "separate (rsize (cb_repr C)) cp zp"
    using sep by (simp add: separate_sym [of _ cp])
  show "flag_holds C (flags_written C zp cp al m) zp (got_zeroed al)"
    using assms by (simp add: flags_written_def flag_kept [OF sep'] flag_written)
  show "flag_holds C (flags_written C zp cp al m) cp (got_committed al)"
    using assms by (simp add: flags_written_def flag_written flag_kept [OF sep])
  show "flag_holds C (flags_written C zp cp al m) q b \<longleftrightarrow> flag_holds C m q b"
    if "separate (rsize (cb_repr C)) zp q" "separate (rsize (cb_repr C)) cp q"
    by (simp add: flags_written_def flag_kept [OF that(1)] flag_kept [OF that(2)])
qed

end

text \<open>The contract of the allocation hook of one table, in one place.\<close>

definition alloc_contract :: "'s ffi \<Rightarrow> 'c cbool \<Rightarrow> ('st, 's) statics \<Rightarrow> usize \<Rightarrow> 'st
    \<Rightarrow> ('st, 's) ExtentCallbacks \<Rightarrow> bool" where
  "alloc_contract F C statics raw st cbs \<longleftrightarrow>
    (\<forall>new sz align zp cp arena m. case cb_alloc cbs of
       None \<Rightarrow> alloc_hook F C statics raw new sz align zp cp arena m = (Done 0, m)
     | Some f \<Rightarrow> (\<forall>z c res m'.
         flag_holds C m zp z \<longrightarrow> flag_holds C m cp c \<longrightarrow> separate (rsize (cb_repr C)) zp cp \<longrightarrow>
         f st (decoded new sz align z c arena) m = (Done res, m') \<longrightarrow>
         flag_live C m' zp \<longrightarrow> flag_live C m' cp \<longrightarrow>
         (case res of
            None \<Rightarrow> alloc_hook F C statics raw new sz align zp cp arena m = (Done 0, m')
          | Some al \<Rightarrow>
              if debug_assertions F \<and> \<not> honours (decoded new sz align z c arena) al
              then alloc_hook F C statics raw new sz align zp cp arena m = (Panicked, m')
              else \<exists>m2. alloc_hook F C statics raw new sz align zp cp arena m = (Done (got_address al), m2) \<and>
                flag_holds C m2 zp (got_zeroed al) \<and> flag_holds C m2 cp (got_committed al) \<and>
                tables_at m2 = tables_at m' \<and> je m2 = je m' \<and>
                (\<forall>q b. separate (rsize (cb_repr C)) zp q \<longrightarrow> separate (rsize (cb_repr C)) cp q \<longrightarrow>
                   flag_holds C m2 q b = flag_holds C m' q b))))"

context cbool_laws
begin

lemma alloc_contract_holds:
  assumes raw: "raw \<noteq> 0" and here: "statics raw = Some (ExtentHooks_new st cbs)"
    and small: "rsize (cb_repr C) < 2 ^ 64"
  shows "alloc_contract F C statics raw st cbs"
proof (cases "cb_alloc cbs")
  case None
  then show ?thesis
    using raw here by (simp add: alloc_contract_def alloc_hook_def from_raw_def)
next
  case (Some f)
  have "case res of
      None \<Rightarrow> alloc_hook F C statics raw new sz align zp cp arena m = (Done 0, m')
    | Some al \<Rightarrow>
        if debug_assertions F \<and> \<not> honours (decoded new sz align z c arena) al
        then alloc_hook F C statics raw new sz align zp cp arena m = (Panicked, m')
        else \<exists>m2. alloc_hook F C statics raw new sz align zp cp arena m = (Done (got_address al), m2) \<and>
          flag_holds C m2 zp (got_zeroed al) \<and> flag_holds C m2 cp (got_committed al) \<and>
          tables_at m2 = tables_at m' \<and> je m2 = je m' \<and>
          (\<forall>q b. separate (rsize (cb_repr C)) zp q \<longrightarrow> separate (rsize (cb_repr C)) cp q \<longrightarrow>
             flag_holds C m2 q b = flag_holds C m' q b)"
    if hyps: "flag_holds C m zp z" "flag_holds C m cp c" "f st (decoded new sz align z c arena) m = (Done res, m')"
      "flag_live C m' zp" "flag_live C m' cp" "separate (rsize (cb_repr C)) zp cp"
    for new sz align zp cp arena m z c res m'
    using alloc_outcome [where statics = statics and f = f and res = res and F = F, OF raw here Some hyps] flags_written_hold [OF hyps(4-6) small]
    by (auto split: option.splits)
  then show ?thesis
    unfolding alloc_contract_def by (simp add: Some)
qed

end

section \<open>Properties\<close>

text \<open>
  C3. A call of the C library through a slot of an installed Rust table hands the callback of that
  slot the request the library encoded, once, with the table's state, and the library takes the call
  for a success exactly when the callback returns \<open>Success\<close>; a slot is empty exactly when its callback
  is absent. This holds for deallocation, commit, decommit, both purges, split and merge, and for
  both C booleans. The destruction callback runs in the same way and reports nothing.
\<close>

theorem hook_calls_exact:
  assumes "raw \<noteq> 0" and "statics raw = Some (ExtentHooks_new st cbs)" and "request_valid req"
  shows "map_option (observe msvc_cbool) (call_slot msvc_cbool statics raw (ExtentHooks_new st cbs) req)
      = run_callback req cbs st \<and>
    map_option (observe native_cbool) (call_slot native_cbool statics raw (ExtentHooks_new st cbs) req)
      = run_callback req cbs st \<and>
    (\<forall>f e. cb_destroy cbs = Some f \<longrightarrow> ex_address e \<noteq> 0 \<longrightarrow>
      slot Hook_destroy (ExtentHooks_raw (ExtentHooks_new st cbs)) = Some (Trampoline Hook_destroy) \<and>
      destroy_hook msvc_cbool statics raw (ex_address e) (ex_size e) (to_bool msvc_cbool (ex_committed e)) (ex_arena e)
        = f st e \<and>
      destroy_hook native_cbool statics raw (ex_address e) (ex_size e) (to_bool native_cbool (ex_committed e)) (ex_arena e)
        = f st e)"
  using msvc_laws.destroy_runs_callback [of raw statics st cbs] native_laws.destroy_runs_callback [of raw statics st cbs]
    slot_new [of Hook_destroy st cbs] msvc_laws.slot_runs_callback [of raw statics st cbs req]
    native_laws.slot_runs_callback [of raw statics st cbs req] assms by (simp add: provided_def)

text \<open>
  C8. The allocation hook. Without a callback, and when the callback declines, the library gets a
  null pointer and both state flags stay as they were. When the callback returns a mapping, the
  library gets its address and finds the mapping's state in the two flags, and no other boolean
  in memory changes; a mapping that breaks the request aborts in a debug build. The callback sees
  the flags the library set. For both C booleans.
\<close>

theorem alloc_hook_exact:
  assumes "raw \<noteq> 0" and "statics raw = Some (ExtentHooks_new st cbs)"
  shows "alloc_contract F msvc_cbool statics raw st cbs \<and> alloc_contract F native_cbool statics raw st cbs"
  using assms by (intro conjI msvc_laws.alloc_contract_holds native_laws.alloc_contract_holds)
    (simp_all add: msvc_cbool_def native_cbool_def u32_repr_def bool_repr_def)

text \<open>
  A trampoline whose callback is absent, whatever the header of its table says, declines: it
  returns the null pointer or the C value of failure, or nothing for destruction, and leaves the
  machine untouched, even for a null mapping address.
\<close>

lemma absent_hooks_decline:
  assumes "raw \<noteq> 0" and "statics raw = Some hooks" and "hook_callbacks hooks = default_callbacks"
  shows "alloc_hook F msvc_cbool statics raw new sz align zp cp arena m = (Done 0, m) \<and>
    alloc_hook F native_cbool statics raw new sz align zp cp arena m = (Done 0, m) \<and>
    destroy_hook msvc_cbool statics raw addr sz ci arena m = (Done (), m) \<and>
    destroy_hook native_cbool statics raw addr sz cb arena m = (Done (), m) \<and>
    dalloc_hook msvc_cbool statics raw addr sz ci arena m = (Done 1, m) \<and>
    dalloc_hook native_cbool statics raw addr sz cb arena m = (Done True, m) \<and>
    range_hook msvc_cbool statics raw addr sz off len arena kind m = (Done 1, m) \<and>
    range_hook native_cbool statics raw addr sz off len arena kind m = (Done True, m) \<and>
    split_hook msvc_cbool statics raw addr sz s1 s2 ci arena m = (Done 1, m) \<and>
    split_hook native_cbool statics raw addr sz s1 s2 cb arena m = (Done True, m) \<and>
    merge_hook msvc_cbool statics raw addr s1 addr2 s2 ci arena m = (Done 1, m) \<and>
    merge_hook native_cbool statics raw addr s1 addr2 s2 cb arena m = (Done True, m)"
  using assms
  by (simp add: alloc_hook_def destroy_hook_def hook_defs default_callbacks_def EMPTY_callbacks_def
      failure_def msvc_cbool_def native_cbool_def split: RangeKind.split)

section \<open>Witnesses\<close>

text \<open>
  A pool of sixteen pages as callback state: it serves pages at a fixed base, zero-filled and
  uncommitted, counts served pages in the allocator state, and refuses to split.
\<close>

definition pages_alloc :: "(usize, nat, ExtentAlloc, ExtentAllocation option) callback" where
  "pages_alloc base req = (\<lambda>m. if je m < 16 \<and> al_address req = None
     then (Done (Some \<lparr>got_address = base + 4096 * word_of_nat (je m), got_zeroed = True,
             got_committed = al_committed req\<rparr>), m\<lparr>je := je m + 1\<rparr>)
     else (Done None, m))"

definition pages_callbacks :: "(usize, nat) ExtentCallbacks" where
  "pages_callbacks = EMPTY_callbacks\<lparr>cb_alloc := Some pages_alloc,
     cb_split := Some (\<lambda>_ req. ret Failure), cb_purge_lazy := Some (\<lambda>_ req. ret Success)\<rparr>"

definition pages_table :: "(usize, nat) ExtentHooks" where
  "pages_table = ExtentHooks_new 65536 pages_callbacks"

definition pages_statics :: "(usize, nat) statics" where
  "pages_statics a = (if a = 4096 then Some pages_table else None)"

definition pages_machine :: "nat machine" where
  "pages_machine = \<lparr>bytes_at = (\<lambda>a. if a = 8 \<or> a = 16 then Some [0, 0, 0, 0] else None),
     tables_at = (\<lambda>_. None), je = 0\<rparr>"

theorem hook_calls_exact_witness:
  "map_option (observe native_cbool) (call_slot native_cbool pages_statics 4096 pages_table
      (Req_range PurgeLazy \<lparr>rg_address = 65536, rg_size = 8192, rg_offset = 0, rg_length = 4096, rg_arena = 3\<rparr>))
    = Some (ret Success)"
proof -
  have "pages_statics 4096 = Some (ExtentHooks_new 65536 pages_callbacks)"
    by (simp add: pages_statics_def pages_table_def)
  then show ?thesis
    using hook_calls_exact [of 4096 pages_statics 65536 pages_callbacks "Req_range PurgeLazy
        \<lparr>rg_address = 65536, rg_size = 8192, rg_offset = 0, rg_length = 4096, rg_arena = 3\<rparr>"]
    by (simp add: pages_table_def) (simp add: pages_callbacks_def)
qed

lemma pages_flags:
  "flag_holds native_cbool (pages_machine\<lparr>je := n\<rparr>) 8 False"
  "flag_holds native_cbool (pages_machine\<lparr>je := n\<rparr>) 16 False"
  by (simp_all add: flag_holds_def pages_machine_def native_cbool_def bool_repr_def aligned_def
      load_bytes_def ex_bool_eq)

theorem alloc_hook_exact_witness:
  "\<forall>F. \<exists>m2. alloc_hook F native_cbool pages_statics 4096 0 4096 4096 8 16 3 pages_machine = (Done 65536, m2) \<and>
     flag_holds native_cbool m2 8 True \<and> flag_holds native_cbool m2 16 False"
proof
  fix F
  let ?al = "\<lparr>got_address = 65536, got_zeroed = True, got_committed = False\<rparr>"
  have here: "pages_statics 4096 = Some (ExtentHooks_new 65536 pages_callbacks)"
    by (simp add: pages_statics_def pages_table_def)
  have cb: "cb_alloc pages_callbacks = Some pages_alloc"
    by (simp add: pages_callbacks_def)
  have ran: "pages_alloc 65536 (decoded 0 4096 4096 False False 3) pages_machine
      = (Done (Some ?al), pages_machine\<lparr>je := 1\<rparr>)"
    by (simp add: pages_alloc_def decoded_def pages_machine_def)
  have sep: "separate (rsize (cb_repr native_cbool)) 8 16"
    by (simp add: separate_def native_cbool_def bool_repr_def)
  have ok: "honours (decoded 0 4096 4096 False False 3) ?al"
    by (simp add: honours_def decoded_def)
  have start: "flag_holds native_cbool pages_machine 8 False" "flag_holds native_cbool pages_machine 16 False"
    using pages_flags [of "je pages_machine"] by simp_all
  note all = alloc_hook_exact [of 4096 pages_statics 65536 pages_callbacks F, OF _ here,
      THEN conjunct2, unfolded alloc_contract_def cb option.case, rule_format]
  show "\<exists>m2. alloc_hook F native_cbool pages_statics 4096 0 4096 4096 8 16 3 pages_machine = (Done 65536, m2) \<and>
     flag_holds native_cbool m2 8 True \<and> flag_holds native_cbool m2 16 False"
    using all [OF _ start sep ran pages_flags [THEN flag_holds_live]] ok by auto
qed

definition empty_table :: "(unit, nat) ExtentHooks" where
  "empty_table = \<lparr>raw_header = EMPTY_RAW_EXTENT_HOOKS, hook_callbacks = default_callbacks, hook_state = ()\<rparr>"

end
