(* ===== verification/Composed.thy ===== *)
theory Composed
  imports Reference_Controls Extent_Hooks
begin

text \<open>
  Properties of operations that compose several components: installing a hook table in an arena,
  handing an arena index over between handles, the buffer of the thread-cache limits, destroying an
  explicit thread cache right after its creation, the precedence strings, and how a status of the
  library reaches the caller. Each is applied to the reference control library.
\<close>

section \<open>Status codes\<close>

text \<open>The library answers a call with a nonzero status.\<close>

definition refuses :: "'s ffi \<Rightarrow> mib_call \<Rightarrow> c_int \<Rightarrow> 's process \<Rightarrow> 's process \<Rightarrow> bool" where
  "refuses F c st p q \<longleftrightarrow> st \<noteq> 0 \<and> (\<exists>rep. mallctlbymib F c p = (Done rep, q) \<and> status rep = st)"

text \<open>The library refuses to translate a name with a nonzero status.\<close>

definition refuses_name :: "'s ffi \<Rightarrow> byte list \<Rightarrow> c_int \<Rightarrow> 's process \<Rightarrow> 's process \<Rightarrow> bool" where
  "refuses_name F name st p q \<longleftrightarrow> st \<noteq> 0 \<and>
     (\<exists>slots len. mallctlnametomib F (name_buf name) (of_nat KEY_SEGS) p = (Done (st, slots, len), q))"

text \<open>
  C25. Every nonzero status is reported: whichever raw operation gets it, a read, a read into the caller's
  storage, a write, an exchange, a command or the translation of a name, the caller receives an error with
  exactly that code and no further call is made. No value is read from the result buffer of a refused
  read or exchange; a read into the caller's storage, which starts initialised, leaves there what the library
  left.
\<close>

theorem nonzero_status_reported:
  assumes "0 < rsize I" and "0 < rsize T"
  shows "(refuses F (read_call T k) st p q \<longrightarrow> raw_get F T k p = (Done (Inl (Error st)), q)) \<and>
    (refuses F (write_call I k v) st p q \<longrightarrow> raw_set F I k v p = (Done (Inl (Error st)), q)) \<and>
    (refuses F (update_call I T k v) st p q \<longrightarrow> raw_update F I T k v p = (Done (Inl (Error st)), q)) \<and>
    (refuses F (notify_call k) st p q \<longrightarrow> raw_notify F k p = (Done (Inl (Error st)), q)) \<and>
    (refuses_name F name st p q \<and> \<not> name_rejected name \<longrightarrow> mibs F name p = (Done (Inl (Error st)), q)) \<and>
    (st \<noteq> 0 \<and> mallctlbymib F (in_place_call T k w) p = (Done rep, q) \<and> status rep = st \<and>
      those (out rep) = Some bs \<and> dec T bs = Some left \<longrightarrow>
      get_in_place F T k w p = (Done (Inl (Error st), left), q))"
  using assms
  by (auto simp: refuses_def refuses_name_def raw_get_def raw_set_def raw_update_def raw_notify_def get_in_place_def
      mibs_def assume_init_def run_then_def run_try_eq into_result_def from_code_def)

section \<open>Precedence strings\<close>

text \<open>
  A precedence survives the round trip through its C string: where the static strings are in
  memory, the pointer of a precedence reads back as that precedence. Any other string is rejected with
  \<^verbatim>\<open>EINVAL\<close> and a null pointer with \<^verbatim>\<open>EFAULT\<close>; nothing is changed.
\<close>

lemma dss_roundtrip:
  assumes "errno_ok F" and "c_str (mach p) (dss_as_ptr F d) = Some (dss_bytes d)"
    and "c_str (mach p) ptr = Some bs"
  shows "dss_from_ptr F (dss_as_ptr F d) p = (Done (Inr d), p) \<and>
    dss_from_ptr F 0 p = (Done (Inl (Error (errno F EFAULT))), p) \<and>
    (\<forall>e. dss_from_ptr F ptr p = (Done (Inr e), p) \<longleftrightarrow> bs = dss_bytes e) \<and>
    (bs \<notin> range dss_bytes \<longrightarrow> dss_from_ptr F ptr p = (Done (Inl (Error (errno F EINVAL))), p))"
proof -
  have nz: "dss_as_ptr F d \<noteq> 0" "ptr \<noteq> 0"
    using assms(2,3) by (auto simp: c_str_def)
  have "dss_from_ptr F (dss_as_ptr F d) p = (Done (Inr d), p)"
    using dss_from_ptr_eq [OF assms(1) nz(1) assms(2)] by (cases d) simp_all
  moreover have "dss_from_ptr F ptr p = (Done (Inr e), p) \<longleftrightarrow> bs = dss_bytes e" for e
    using dss_from_ptr_eq [OF assms(1) nz(2) assms(3)] by (cases e) auto
  moreover have "dss_from_ptr F ptr p = (Done (Inl (Error (errno F EINVAL))), p)" if "bs \<notin> range dss_bytes"
  proof -
    have "bs \<noteq> dss_bytes e" for e using that by blast
    from this [of Disabled] this [of Primary] this [of Secondary] show ?thesis
      using dss_from_ptr_eq [OF assms(1) nz(2) assms(3)] by simp
  qed
  ultimately show ?thesis
    using assms(1) by (simp add: dss_from_ptr_def)
qed

section \<open>Handing an arena over\<close>

lemma arena_valid_eq:
  "arena_validated_index F i =
     (if i < ARENA_INDEX_LIMIT then ret (Inr (ucast i)) else fail (from_code (errno F EINVAL)))"
proof (cases "i < ARENA_INDEX_LIMIT")
  case True
  then have "unat i < 4095" by (simp add: ARENA_INDEX_LIMIT_def word_less_nat_alt)
  with True show ?thesis by (auto simp: arena_validated_index_def u32_try_from_def dest: leD)
next
  case False
  then show ?thesis by (auto simp: arena_validated_index_def invalid_argument_def not_less dest: leD)
qed

lemma run_try_fail: "run_try (fail (from_code c)) f = fail (from_code c)"
  by (simp add: run_try_def fail_def from_code_def rust_assert_def)

text \<open>
  An index leaves a handle and enters another without a call to the library: \<^verbatim>\<open>into_index\<close> returns
  the index and its destructor destroys nothing, \<^verbatim>\<open>from_owned_index\<close> and \<^verbatim>\<open>from_index\<close> take every index
  below the limit back, with and without ownership, and reject every other one with \<^verbatim>\<open>EINVAL\<close>.
\<close>

lemma index_handover:
  "into_index F a p = (Done (a_index a), p) \<and>
   from_owned_index F i p = (if i < ARENA_INDEX_LIMIT then (Done (Inr \<lparr>a_index = i, a_owned = True\<rparr>), p)
     else fail (from_code (errno F EINVAL)) p) \<and>
   from_index F i p = (if i < ARENA_INDEX_LIMIT then (Done (Inr \<lparr>a_index = i, a_owned = False\<rparr>), p)
     else fail (from_code (errno F EINVAL)) p) \<and>
   arena_drop F \<lparr>a_index = i, a_owned = False\<rparr> p = (Done (), p)"
  by (simp add: into_index_quiet from_owned_index_def from_index_def arena_handle.drop_other arena_valid_eq
      run_try_fail)

section \<open>The limits of the calling thread's cache\<close>

text \<open>
  C29. The settings string of the thread-cache limits is bounded: a string of a thousand bytes or more
  is rejected with \<^verbatim>\<open>EINVAL\<close> and nothing is done. Otherwise the library is called once, with the address
  of a buffer of a thousand bytes that it reads as exactly that string; its status decides the result,
  and afterwards the buffer is gone.
\<close>

theorem ncached_max_settings:
  assumes "errno_ok F" and "caches_ok F p" and "cached ''thread_tcache_ncached_max_write'' p = Some k"
    and "0 \<notin> set settings" and "local_at F (mach p) \<noteq> 0"
  shows "if 1000 \<le> length settings
    then set_tcache_ncached_max F settings p = (Done (Inl (Error (errno F EINVAL))), p)
    else \<exists>enter buf. buf = local_at F (mach p) \<and> c_str (mach enter) buf = Some settings \<and>
      map_option length (bytes_at (mach enter) buf) = Some 1000 \<and>
      trace enter = trace p \<and> caches enter = caches p \<and>
      (\<forall>rep q. mallctlbymib F (write_call ptr_repr k buf) enter = (Done rep, q) \<longrightarrow>
        (\<exists>q'. set_tcache_ncached_max F settings p =
            (Done (if status rep = 0 then Inr () else Inl (Error (status rep))), q') \<and>
          bytes_at (mach q') buf = None \<and>
          trace q' = trace p @ [Call_bymib (write_call ptr_repr k buf)]))"
proof (cases "1000 \<le> length settings")
  case True
  with assms(1) show ?thesis
    by (simp add: set_tcache_ncached_max_def TCACHE_NCACHED_MAX_SETTINGS_LEN_def Let_def)
next
  case False
  let ?buf = "local_at F (mach p)"
  let ?bytes = "settings @ 0 # replicate (999 - length settings) 0"
  let ?enter = "p\<lparr>mach := (mach p)\<lparr>bytes_at := (bytes_at (mach p))(?buf \<mapsto> ?bytes)\<rparr>\<rparr>"
  have hit: "define_key F ''thread_tcache_ncached_max_write'' ''thread.tcache.ncached_max.write'' p = (Done (Inr k), p)"
    by (rule define_key_hit [OF assms(2) _ assms(3)]) simp
  have run: "set_tcache_ncached_max F settings p =
      with_local F ?bytes (\<lambda>buf. raw_set F ptr_repr k buf) p"
    using False unfolding set_tcache_ncached_max_def key_defs TCACHE_NCACHED_MAX_SETTINGS_LEN_def
    by (simp add: run_try_eq hit)
  have "c_str (mach ?enter) ?buf = Some settings"
    using assms(4,5) by (simp add: c_str_def takeWhile_nul_prefix)
  moreover have "map_option length (bytes_at (mach ?enter) ?buf) = Some 1000"
    using False by simp
  moreover have "\<exists>q'. set_tcache_ncached_max F settings p =
      (Done (if status rep = 0 then Inr () else Inl (Error (status rep))), q') \<and> bytes_at (mach q') ?buf = None \<and>
      trace q' = trace p @ [Call_bymib (write_call ptr_repr k ?buf)]"
    if "mallctlbymib F (write_call ptr_repr k ?buf) ?enter = (Done rep, q)" for rep q
  proof -
    have "raw_set F ptr_repr k ?buf ?enter =
        (Done (if status rep = 0 then Inr () else Inl (Error (status rep))), q)"
      using that by (simp add: raw_set_eq run_then_def into_result_def from_code_def)
    moreover have "trace q = trace p @ [Call_bymib (write_call ptr_repr k ?buf)]"
      using that by (auto simp: mallctlbymib_def foreign_Done_iff)
    ultimately show ?thesis
      by (simp add: run with_local_def Let_def)
  qed
  moreover have "trace ?enter = trace p" "caches ?enter = caches p"
    by simp_all
  ultimately show ?thesis
    unfolding if_not_P [OF False] by blast
qed

section \<open>A fresh explicit thread cache\<close>

text \<open>What a successful accessor leaves: its key is cached, and the other caches are as they were.\<close>

lemma define_key_step:
  assumes "caches_ok F p" and "(acc, name) \<in> key_table" and "define_key F acc name p = (Done (Inr k), q)"
  shows "caches_ok F q" and "cached acc q = Some k" and "acc' \<noteq> acc \<Longrightarrow> cached acc' q = cached acc' p"
proof -
  have wf: "cache_wf_at acc (str_bytes name) p"
    using assms(1,2) by (auto simp: key_ok_def dest: caches_okD)
  have get: "cache_get F acc (str_bytes name) p = (Done (Inr k), q)"
    using assms(3) by (simp add: define_key_def)
  show "caches_ok F q"
    by (rule define_key_caches_ok [OF assms])
  show "cached acc q = Some k"
    by (rule cell.filled [OF wf get])
  show "acc' \<noteq> acc \<Longrightarrow> cached acc' q = cached acc' p"
    using cache_get_frame [OF get wf] by (simp add: cached_def)
qed

lemma raw_get_caches: "raw_get F T k p = (Done (Inr v), q) \<Longrightarrow> caches q = caches p"
  by (auto simp: raw_get_Ok_iff mallctlbymib_def foreign_Done_iff)

lemma tcache_valid_small: "unat i < 4094 \<Longrightarrow> tcache_validated_index F i = ret (Inr (ucast i))"
  by (simp add: tcache_validated_index_def TCACHE_INDEX_LIMIT_def word_le_nat_alt u32_try_from_def)

text \<open>
  C22. Creating an explicit thread cache resolves the names of its later operations first: right after
  a successful creation the handle owns an index below the limit, and flushing it or dropping it is one
  write of that index with no name translation.
\<close>

theorem fresh_tcache_one_call:
  assumes "keys_ok F p" and "tcache_create F p = (Done (Inr t), q)"
  shows "t_owned t \<and> unat (t_index t) < 4094 \<and>
    (\<exists>kf kd. cached ''tcache_flush'' q = Some kf \<and> cached ''tcache_destroy'' q = Some kd \<and>
      tcache_flush F t q = raw_set F u32_repr kf (ucast (t_index t)) q \<and>
      tcache_drop F t q = run_then (raw_set F u32_repr kd (ucast (t_index t))) (\<lambda>_. ret ()) q)"
proof -
  note create = assms(2) [unfolded tcache_create_def key_defs run_try_Ok_iff]
  from create obtain kc kf kd c u1 u2 u3 where
    k1: "define_key F ''tcache_create'' ''tcache.create'' p = (Done (Inr kc), u1)" and
    k2: "define_key F ''tcache_flush'' ''tcache.flush'' u1 = (Done (Inr kf), u2)" and
    k3: "define_key F ''tcache_destroy'' ''tcache.destroy'' u2 = (Done (Inr kd), u3)" and
    get: "raw_get F u32_repr kc u3 = (Done (Inr c), q)" and
    t: "unat c < 4094" "t = \<lparr>t_index = ucast c, t_owned = True\<rparr>"
    by (auto simp: usize_try_from_def tcache_validated_index_iff)
  have ok: "caches_ok F p" using assms(1) by (simp add: keys_ok_def)
  note s1 = define_key_step [OF ok _ k1] and s2 = define_key_step [OF _ _ k2] and s3 = define_key_step [OF _ _ k3]
  have "caches q = caches u3" by (rule raw_get_caches [OF get])
  then have q: "caches_ok F q" "cached ''tcache_flush'' q = Some kf" "cached ''tcache_destroy'' q = Some kd"
    using s1(1) s2(1,2) s3 caches_ok_caches [of q u3 F] by (simp_all add: cached_def)
  have flush: "define_key F ''tcache_flush'' ''tcache.flush'' q = (Done (Inr kf), q)"
    and destroy: "define_key F ''tcache_destroy'' ''tcache.destroy'' q = (Done (Inr kd), q)"
    using define_key_hit(1) [OF q(1)] q(2,3) by simp_all
  have "tcache_flush F t q = raw_set F u32_repr kf (ucast (t_index t)) q"
    using t by (simp add: tcache_flush_def key_defs run_try_eq flush tcache_valid_small)
  moreover have "tcache_drop F t q = run_then (raw_set F u32_repr kd (ucast (t_index t))) (\<lambda>_. ret ()) q"
    using t by (simp add: tcache_drop_def tcache_destroy_def key_defs run_then_assoc run_then_def run_try_eq
        destroy tcache_valid_small split: prod.splits outcome.splits)
  ultimately show ?thesis
    using t q by simp
qed

section \<open>Installing a hook table\<close>

text \<open>
  C13. A Rust hook table is installed only with an allocation callback. Without one, creating an arena
  with the table and setting it on an arena both fail with \<^verbatim>\<open>EINVAL\<close> and call nothing. With one, each
  is a single call that passes the table's address, as the value of \<^verbatim>\<open>arenas.create\<close> or of the hooks
  control of the handle's arena; the created handle owns the returned index, if that is below the limit,
  and a null previous table is reported as \<^verbatim>\<open>EFAULT\<close>.
\<close>

theorem hook_installation:
  assumes "errno_ok F" and "caches_ok F p"
    and "tables_at (mach p) (as_raw table) = Some (ExtentHooks_raw (ExtentHooks_new st cbs))"
    and "cached ''arenas_create'' p = Some kc" and "cached ''arena_extent_hooks'' p = Some kh"
  shows "if cb_alloc cbs = None
    then create_with_extent_hooks F (as_raw table) p = (Done (Inl (Error (errno F EINVAL))), p) \<and>
      set_extent_hooks F a (as_raw table) p = (Done (Inl (Error (errno F EINVAL))), p)
    else (\<forall>rep q c. mallctlbymib F (update_call ptr_repr u32_repr kc table) p = (Done rep, q) \<longrightarrow>
        delivers u32_repr rep c \<longrightarrow> create_with_extent_hooks F (as_raw table) p =
          (Done (if unat c < 4095 then Inr \<lparr>a_index = ucast c, a_owned = True\<rparr>
                 else Inl (Error (errno F EINVAL))), q)) \<and>
      (\<forall>rep q old. mallctlbymib F (update_call ptr_repr ptr_repr (kh[1 := a_index a]) table) p = (Done rep, q) \<longrightarrow>
        delivers ptr_repr rep old \<longrightarrow> set_extent_hooks F a (as_raw table) p =
          (Done (if old = 0 then Inl (Error (errno F EFAULT)) else Inr old), q))"
proof -
  have "h_alloc (ExtentHooks_raw (ExtentHooks_new st cbs)) = None \<longleftrightarrow> cb_alloc cbs = None"
    using slot_new [of Hook_alloc st cbs] by (simp add: provided_def split: if_splits)
  then have lacks: "lacks_alloc (as_raw table) p = (Done (cb_alloc cbs = None), p)"
    using assms(3) by (simp add: lacks_alloc_def)
  have create: "define_key F ''arenas_create'' ''arenas.create'' p = (Done (Inr kc), p)"
    by (rule define_key_hit [OF assms(2) _ assms(4)]) simp
  show ?thesis
  proof (cases "cb_alloc cbs = None")
    case True
    with lacks assms(1) show ?thesis
      by (simp add: create_with_extent_hooks_def create_with_raw_extent_hooks_def set_extent_hooks_def
          set_raw_extent_hooks_def run_then_def)
  next
    case False
    then obtain f where f: "cb_alloc cbs = Some f" by blast
    have "create_with_extent_hooks F (as_raw table) p =
        (Done (if unat c < 4095 then Inr \<lparr>a_index = ucast c, a_owned = True\<rparr>
               else Inl (Error (errno F EINVAL))), q)"
      if "mallctlbymib F (update_call ptr_repr u32_repr kc table) p = (Done rep, q)" "delivers u32_repr rep c"
      for rep q c
    proof -
      have "raw_update F ptr_repr u32_repr kc table p = (Done (Inr c), q)"
        using that by (auto simp: raw_update_Ok_iff)
      then show ?thesis
        using f lacks assms(1)
        by (simp add: create_with_extent_hooks_def create_with_raw_extent_hooks_def key_defs run_then_def
            run_try_eq create as_raw_def from_created_index_def arena_validated_index_cases)
    qed
    moreover have "set_extent_hooks F a (as_raw table) p =
        (Done (if old = 0 then Inl (Error (errno F EFAULT)) else Inr old), q)"
      if "mallctlbymib F (update_call ptr_repr ptr_repr (kh[1 := a_index a]) table) p = (Done rep, q)"
        "delivers ptr_repr rep old" for rep q old
    proof -
      have x: "raw_xchg F ptr_repr (kh[1 := a_index a]) table p = (Done (Inr old), q)"
        unfolding raw_xchg_def using that by (auto simp: raw_update_Ok_iff)
      have "set_extent_hooks F a (as_raw table) p =
          run_try (raw_xchg F ptr_repr (kh[1 := a_index a]) table) (non_null F) p"
        using f lacks
        unfolding set_extent_hooks_def set_raw_extent_hooks_def key_defs arena_select_def as_raw_def
        by (simp add: run_then_def [of "lacks_alloc _"] selected_hit(1) [OF assms(2) _ assms(5)]
            del: One_nat_def)
      then show ?thesis
        using assms(1) by (simp add: run_try_eq x non_null_def del: One_nat_def)
    qed
    ultimately show ?thesis
      unfolding if_not_P [OF False] by blast
  qed
qed

section \<open>Witnesses\<close>

definition refusing_ffi :: "store ffi" where
  "refusing_ffi = ref_ffi\<lparr>c_bymib := (\<lambda>c. ret \<lparr>status = 2, out = case oldp c of None \<Rightarrow> [] | Some cells \<Rightarrow> cells,
     outlen = 0\<rparr>)\<rparr>"

theorem nonzero_status_reported_witness:
  "\<exists>q q'. raw_get refusing_ffi u32_repr [1, 2] ref_start = (Done (Inl (Error 2)), q) \<and>
     get_in_place refusing_ffi u32_repr [1, 2] 5 ref_start = (Done (Inl (Error 2), 5), q')"
proof -
  let ?q = "\<lambda>c. ref_start\<lparr>mach := mach ref_start, trace := trace ref_start @ [Call_bymib c]\<rparr>"
  note all = nonzero_status_reported [of u32_repr u32_repr refusing_ffi "[1, 2]" 2 ref_start]
  have "refuses refusing_ffi (read_call u32_repr [1, 2]) 2 ref_start (?q (read_call u32_repr [1, 2]))"
    by (simp add: refuses_def refusing_ffi_def mallctlbymib_def foreign_def)
  then have "raw_get refusing_ffi u32_repr [1, 2] ref_start = (Done (Inl (Error 2)), ?q (read_call u32_repr [1, 2]))"
    using all by auto
  moreover
  let ?c = "in_place_call u32_repr [1, 2] 5"
  have "\<exists>rep. mallctlbymib refusing_ffi ?c ref_start = (Done rep, ?q ?c) \<and> status rep = 2 \<and>
      those (out rep) = Some (enc u32_repr 5)"
    by (simp add: refusing_ffi_def mallctlbymib_def foreign_def in_place_call_def)
  then have "get_in_place refusing_ffi u32_repr [1, 2] 5 ref_start = (Done (Inl (Error 2), 5), ?q ?c)"
    using all u32.dec_enc [of 5] by auto
  ultimately show ?thesis by blast
qed

theorem ncached_max_settings_witness:
  "\<exists>p q. keys_ok ref_ffi p \<and> set_tcache_ncached_max ref_ffi (str_bytes ''8:10'') p = (Done (Inr ()), q)"
proof -
  obtain k p where p: "keys_ok ref_ffi p" "cached ''thread_tcache_ncached_max_write'' p = Some k"
    using ref_fetch [OF ref_start_ok, of "''thread_tcache_ncached_max_write''" "''thread.tcache.ncached_max.write''"]
      key_table_member by blast
  have ok: "errno_ok ref_ffi" "caches_ok ref_ffi p" "0 \<notin> set (str_bytes ''8:10'')"
    using ref_lib_ok p(1) by (auto simp: keys_ok_def str_bytes_def)
  have len: "\<not> 1000 \<le> length (str_bytes ''8:10'')" by simp
  have loc: "local_at ref_ffi (mach p) \<noteq> 0" by simp
  obtain enter where enter: "\<forall>rep q. mallctlbymib ref_ffi (write_call ptr_repr k 32) enter = (Done rep, q) \<longrightarrow>
      (\<exists>q'. set_tcache_ncached_max ref_ffi (str_bytes ''8:10'') p =
          (Done (if status rep = 0 then Inr () else Inl (Error (status rep))), q') \<and>
        bytes_at (mach q') 32 = None \<and> trace q' = trace p @ [Call_bymib (write_call ptr_repr k 32)])"
    using ncached_max_settings [OF ok(1,2) p(2) ok(3) loc, unfolded if_not_P [OF len] ref_simps] by blast
  obtain rep q where "mallctlbymib ref_ffi (write_call ptr_repr k 32) enter = (Done rep, q)" "status rep = 0"
    by (simp add: mallctlbymib_def foreign_def ref_bymib_def)
  then have "\<exists>q'. set_tcache_ncached_max ref_ffi (str_bytes ''8:10'') p = (Done (Inr ()), q')"
    using enter by fastforce
  then show ?thesis
    using p(1) by blast
qed

lemma ref_raw_get:
  assumes "\<not> is_decay k"
  shows "raw_get ref_ffi u32_repr k p = (Done (Inr 16), p\<lparr>trace := trace p @ [Call_bymib (read_call u32_repr k)]\<rparr>)"
  using assms
  by (simp add: raw_get_Ok_iff delivers_def mallctlbymib_def foreign_def ref_bymib_def read_call_def u32_repr_def
      ref_value_def ref_out_def le_dec_enc)

theorem fresh_tcache_one_call_witness:
  "\<exists>t q. tcache_create ref_ffi ref_start = (Done (Inr t), q) \<and> t_owned t \<and> cached ''tcache_destroy'' q \<noteq> None"
proof -
  obtain kc u1 where u1: "define_key ref_ffi ''tcache_create'' ''tcache.create'' ref_start = (Done (Inr kc), u1)"
    "keys_ok ref_ffi u1" "cached ''tcache_create'' u1 = Some kc"
    using ref_fetch [OF ref_start_ok, of "''tcache_create''" "''tcache.create''"] key_table_member by blast
  obtain kf u2 where u2: "define_key ref_ffi ''tcache_flush'' ''tcache.flush'' u1 = (Done (Inr kf), u2)" "keys_ok ref_ffi u2"
    using ref_fetch [OF u1(2), of "''tcache_flush''" "''tcache.flush''"] key_table_member by blast
  obtain kd u3 where u3: "define_key ref_ffi ''tcache_destroy'' ''tcache.destroy'' u2 = (Done (Inr kd), u3)"
    using ref_fetch [OF u2(2), of "''tcache_destroy''" "''tcache.destroy''"] key_table_member by blast
  have "caches_ok ref_ffi u1" using u1(2) by (simp add: keys_ok_def)
  then have "kc \<in> keys_of ref_ffi ''tcache.create''"
    using define_key_hit(2) [of ref_ffi u1 "''tcache_create''" "''tcache.create''" kc] u1(3) by (auto simp: keys_of_def)
  then have nd: "\<not> is_decay kc"
    by (rule ref_no_decay_short [where acc = "''tcache_create''"]) (simp_all add: segments_str)
  have "tcache_create ref_ffi ref_start = (Done (Inr \<lparr>t_index = 16, t_owned = True\<rparr>),
      u3\<lparr>trace := trace u3 @ [Call_bymib (read_call u32_repr kc)]\<rparr>)"
    unfolding tcache_create_def key_defs
    by (simp add: run_try_eq u1(1) u2(1) u3 ref_raw_get [OF nd] usize_try_from_def tcache_valid_small)
  from fresh_tcache_one_call [OF ref_start_ok this] this show ?thesis by auto
qed

text \<open>The machine of the reference library with two tables in it, one without an allocation callback.\<close>

definition hook_start :: "store process" where
  "hook_start = ref_start\<lparr>mach := (mach ref_start)\<lparr>tables_at :=
     [4096 \<mapsto> ExtentHooks_raw pages_table, 64 \<mapsto> ExtentHooks_raw empty_table]\<rparr>\<rparr>"

theorem hook_installation_witness:
  "\<exists>p q. create_with_extent_hooks ref_ffi (as_raw 4096) p = (Done (Inr \<lparr>a_index = 16, a_owned = True\<rparr>), q)"
proof -
  have start: "keys_ok ref_ffi hook_start"
    by (rule keys_ok_startup) (simp_all add: hook_start_def ref_start_def ref_inv_def)
  obtain kc u where u: "keys_ok ref_ffi u" "cached ''arenas_create'' u = Some kc" "mach u = mach hook_start"
    using ref_fetch [OF start, of "''arenas_create''" "''arenas.create''"] key_table_member by blast
  obtain kh p where p: "keys_ok ref_ffi p" "cached ''arena_extent_hooks'' p = Some kh"
    "cached ''arenas_create'' p = Some kc" "mach p = mach hook_start"
    using ref_fetch [OF u(1), of "''arena_extent_hooks''" "''arena.0.extent_hooks''"] u key_table_member by auto
  have ok: "errno_ok ref_ffi" "caches_ok ref_ffi p"
    using ref_lib_ok p(1) by (auto simp: keys_ok_def)
  have tab: "tables_at (mach p) (as_raw 4096) = Some (ExtentHooks_raw (ExtentHooks_new 65536 pages_callbacks))"
    by (simp add: p(4) hook_start_def as_raw_def pages_table_def)
  have some: "\<not> cb_alloc pages_callbacks = None" by (simp add: pages_callbacks_def)
  have "kc \<in> keys_of ref_ffi ''arenas.create''"
    using define_key_hit(2) [of ref_ffi p "''arenas_create''" "''arenas.create''" kc] ok(2) p(3)
    by (auto simp: keys_of_def)
  then have nd: "\<not> is_decay kc"
    by (rule ref_no_decay_short [where acc = "''arenas_create''"]) (simp_all add: segments_str)
  let ?c = "update_call ptr_repr u32_repr kc 4096"
  obtain rep q where call: "mallctlbymib ref_ffi ?c p = (Done rep, q)" "delivers u32_repr rep 16"
    using nd by (auto simp: mallctlbymib_def foreign_def ref_bymib_def update_call_def delivers_def ref_value_def
        ref_out_def u32_repr_def le_dec_enc)
  have "create_with_extent_hooks ref_ffi (as_raw 4096) p = (Done (Inr \<lparr>a_index = 16, a_owned = True\<rparr>), q)"
    using hook_installation [OF ok tab p(3,2), unfolded if_not_P [OF some]] call by fastforce
  then show ?thesis by blast
qed

end
