(* ===== verification/Exact_Controls.thy ===== *)
theory Exact_Controls
  imports Reference_Controls
begin

text \<open>
  Which control each operation works on. A typed control operation translates the name of its control
  at most once, and then does exactly one thing with the key it got: the raw operation that stands in
  its source, at the index of its handle where it has one. The tables below say which name, which index
  and which raw operation for the operations of \<^verbatim>\<open>arena.rs\<close>, \<^verbatim>\<open>arenas.rs\<close>, \<^verbatim>\<open>thread/this.rs\<close>, \<^verbatim>\<open>config.rs\<close>,
  \<^verbatim>\<open>opt.rs\<close>, \<^verbatim>\<open>profiling.rs\<close> and \<^verbatim>\<open>stats.rs\<close>; with the exact semantics of the raw operations they determine
  every result.
\<close>

named_theorems exact_rules \<open>introduction rules of the specifications\<close>

section \<open>The specifications\<close>

text \<open>
  What an operation has of its key when it starts from \<open>p\<close>: with the cache of the accessor filled, the key in
  it and no call; otherwise the answer of exactly one translation of the name, which is the error of a nonzero
  status, or the key the library wrote, published in the cache. There is no other way to fail.
\<close>

definition fetched_as :: "'s ffi \<Rightarrow> string \<Rightarrow> string \<Rightarrow> 's process \<Rightarrow> key ctl_result \<Rightarrow> 's process \<Rightarrow> bool" where
  "fetched_as F acc name p r u \<longleftrightarrow> (case cached acc p of
     Some k \<Rightarrow> length k = segments (str_bytes name) \<and> r = Inr k \<and> u = p
   | None \<Rightarrow> (\<exists>st slots len m.
       c_nametomib F (name_buf (str_bytes name)) (of_nat KEY_SEGS) (mach p) = (Done (st, slots, len), m) \<and>
       (if st \<noteq> 0 then r = Inl (Error st) \<and> u = translated F name p m
        else \<exists>k. those (take (unat len) slots) = Some k \<and> length k = segments (str_bytes name) \<and>
          r = Inr k \<and> u = snd (publish acc k (translated F name p m)))))"

text \<open>The operation \<open>m\<close> gets its key so and does \<open>h\<close> with it, from \<open>p\<close> and from any consistent state.\<close>

definition control_at :: "'s ffi \<Rightarrow> string \<Rightarrow> string \<Rightarrow> (key ctl_result \<Rightarrow> ('s process, 'a) comp)
    \<Rightarrow> ('s process, 'a) comp \<Rightarrow> 's process \<Rightarrow> bool" where
  "control_at F acc name h m p \<longleftrightarrow> (\<exists>r u. fetched_as F acc name p r u \<and> m p = h r u)"

definition on_result :: "'s ffi \<Rightarrow> string \<Rightarrow> string \<Rightarrow> (key ctl_result \<Rightarrow> ('s process, 'a) comp)
    \<Rightarrow> ('s process, 'a) comp \<Rightarrow> bool" where
  "on_result F acc name h m \<longleftrightarrow> (\<forall>p. keys_ok F p \<longrightarrow> control_at F acc name h m p)"

text \<open>
  The usual \<open>h\<close>: the error of a failed translation is returned, and \<open>use\<close> is done with the key, or with the key
  whose second component, the index, is replaced.
\<close>

abbreviation or_error :: "('k \<Rightarrow> ('p, 'a ctl_result) comp) \<Rightarrow> 'k ctl_result \<Rightarrow> ('p, 'a ctl_result) comp" where
  "or_error use r \<equiv> (case r of Inl e \<Rightarrow> ret (Inl e) | Inr k \<Rightarrow> use k)"

definition on_control :: "'s ffi \<Rightarrow> string \<Rightarrow> string \<Rightarrow> (key \<Rightarrow> ('s process, 'a ctl_result) comp)
    \<Rightarrow> ('s process, 'a ctl_result) comp \<Rightarrow> bool" where
  "on_control F acc name use m \<longleftrightarrow> on_result F acc name (or_error use) m"

definition on_indexed :: "'s ffi \<Rightarrow> string \<Rightarrow> string \<Rightarrow> usize \<Rightarrow> (key \<Rightarrow> ('s process, 'a ctl_result) comp)
    \<Rightarrow> ('s process, 'a ctl_result) comp \<Rightarrow> bool" where
  "on_indexed F acc name i use m \<longleftrightarrow>
     1 < segments (str_bytes name) \<and> on_control F acc name (\<lambda>k. use (k[1 := i])) m"

text \<open>The accessor of a control without an index is named like the control, with underscores.\<close>

definition accessor :: "string \<Rightarrow> string" where
  "accessor name = map (\<lambda>c. if c = CHR ''.'' then CHR ''_'' else c) name"


lemma define_key_fetched:
  assumes "lib_ok F" and "(acc, name) \<in> key_table" and "keys_ok F p"
  shows "\<exists>r u. fetched_as F acc name p r u \<and> define_key F acc name p = (Done r, u) \<and>
    (\<forall>k. r = Inr k \<longrightarrow> length k = segments (str_bytes name))"
  using lib_okD [OF assms(1)] assms(2,3)
proof (cases rule: define_key_outcomes)
  case (hit k)
  then show ?thesis by (simp add: fetched_as_def)
next
  case (refused st slots len m)
  then show ?thesis by (auto simp: fetched_as_def)
next
  case (filled k slots len m)
  then show ?thesis by (auto simp: fetched_as_def)
qed

lemma on_resultI:
  assumes "lib_ok F" and "(acc, name) \<in> key_table"
    and "\<And>r u. (\<And>k. r = Inr k \<Longrightarrow> length k = segments (str_bytes name)) \<Longrightarrow> f r u = h r u"
  shows "on_result F acc name h (run_then (define_key F acc name) f)"
  unfolding on_result_def control_at_def
proof (intro allI impI)
  fix p
  assume "keys_ok F p"
  then obtain r u where "fetched_as F acc name p r u" "define_key F acc name p = (Done r, u)"
    "\<forall>k. r = Inr k \<longrightarrow> length k = segments (str_bytes name)"
    using define_key_fetched [OF assms(1,2)] by blast
  moreover from this have "f r u = h r u" by (intro assms(3)) blast
  ultimately show "\<exists>r u. fetched_as F acc name p r u \<and> run_then (define_key F acc name) f p = h r u"
    by (auto simp: run_then_def)
qed

lemma on_controlI [exact_rules]:
  assumes "lib_ok F" and "(acc, name) \<in> key_table"
    and "\<And>k. length k = segments (str_bytes name) \<Longrightarrow> f k = use k"
  shows "on_control F acc name use (run_try (define_key F acc name) f)"
proof -
  have "on_result F acc name (or_error use)
      (run_then (define_key F acc name) (\<lambda>r. case r of Inl e \<Rightarrow> ret (Inl e) | Inr k \<Rightarrow> f k))"
    by (rule on_resultI [OF assms(1,2)]) (auto simp: assms(3) split: sum.split)
  then show ?thesis by (simp add: on_control_def run_try_def)
qed

lemma indexed_long: "CHR ''.'' \<in> set name \<Longrightarrow> 1 < segments (str_bytes name)"
  using count_list_0_iff [of name "CHR ''.''"] by (simp add: segments_str)

lemma on_indexedI [exact_rules]:
  assumes "lib_ok F" and "(acc, name) \<in> key_table" and "CHR ''.'' \<in> set name"
  shows "on_indexed F acc name i use (run_try (define_key F acc name) (\<lambda>k. run_then (select_key k i) use))"
  unfolding on_indexed_def
proof (intro conjI on_controlI)
  show "1 < segments (str_bytes name)" by (rule indexed_long [OF assms(3)])
  then show "run_then (select_key k i) use = use (k[1 := i])" if "length k = segments (str_bytes name)" for k
    using that by (simp add: select_key_def)
qed (use assms in simp_all)


section \<open>Arenas\<close>





text \<open>
  Handles. The answers of \<^verbatim>\<open>thread.arena\<close> and \<^verbatim>\<open>arenas.lookup\<close> are indices, out of range unless below
  the limit, which is checked before the index of a switch is handed over.
\<close>

lemma run_try_assoc: "run_try (run_try m f) g = run_try m (\<lambda>x. run_try (f x) g)"
  by (rule ext) (auto simp: run_try_eq split: prod.splits outcome.splits sum.splits)

lemma arena_handles_exact:
  assumes "lib_ok F"
  shows "on_control F ''arenas_create'' ''arenas.create''
      (\<lambda>k. run_try (raw_get F u32_repr k) (from_created_index F)) (arena_create F)"
    and "on_control F ''arenas_lookup'' ''arenas.lookup''
      (\<lambda>k. run_try (raw_update F ptr_repr u32_repr k ptr) (\<lambda>c. from_index F (ucast c))) (arena_lookup F ptr)"
    and "on_control F ''thread_arena'' ''thread.arena''
      (\<lambda>k. run_try (raw_get F u32_repr k) (\<lambda>c. ret (Inr (ucast c)))) (arena_id F)"
    and "on_control F ''thread_arena'' ''thread.arena''
      (\<lambda>k. run_try (raw_get F u32_repr k) (\<lambda>c. from_index F (ucast c))) (arena_current F)"
    and "unat i < 4095 \<Longrightarrow> on_control F ''thread_arena'' ''thread.arena''
      (\<lambda>k. run_try (raw_xchg F u32_repr k (ucast i)) (\<lambda>c. ret (Inr (ucast c)))) (set_arena F i)"
    and "\<not> unat i < 4095 \<Longrightarrow> set_arena F i = ret (Inl (Error (errno F EINVAL)))"
    and "unat (a_index a) < 4095 \<Longrightarrow> on_control F ''thread_arena'' ''thread.arena''
      (\<lambda>k. run_try (raw_xchg F u32_repr k (ucast (a_index a))) (\<lambda>c. from_index F (ucast c))) (set_current F a)"
    and "\<not> unat (a_index a) < 4095 \<Longrightarrow> set_current F a = ret (Inl (Error (errno F EINVAL)))"
  using assms unfolding arena_create_def arena_lookup_def arena_id_def arena_current_def set_current_def set_arena_def
    usize_of_uint run_try_ret_Inr key_defs
  by (simp_all add: on_controlI run_try_assoc arena_validated_index_cases [OF lib_okD(2) [OF assms]])


lemma all_arenas_exact:
  assumes "lib_ok F"
  shows "on_indexed F ''arena_decay'' ''arena.0.decay'' 4096 (raw_notify F) (arenas_decay F)"
    and "on_indexed F ''arena_purge'' ''arena.0.purge'' 4096 (raw_notify F) (arenas_purge F)"
    and "on_indexed F ''arena_dss'' ''arena.0.dss'' 4096 (\<lambda>k. run_try (raw_get F ptr_repr k) (dss_from_ptr F)) (arenas_dss F)"
    and "on_indexed F ''arena_dss'' ''arena.0.dss'' 4096
      (\<lambda>k. run_try (raw_xchg F ptr_repr k (dss_as_ptr F d)) (dss_from_ptr F)) (arenas_set_dss F d)"
    and "on_control F ''arenas_muzzy_decay'' ''arenas.muzzy_decay_ms'' (raw_get F isize_repr) (arenas_muzzy_decay F)"
    and "on_control F ''arenas_muzzy_decay'' ''arenas.muzzy_decay_ms'' (\<lambda>k. raw_xchg F isize_repr k ms) (arenas_set_muzzy_decay F ms)"
    and "on_control F ''arenas_dirty_decay'' ''arenas.dirty_decay_ms'' (raw_get F isize_repr) (arenas_dirty_decay F)"
    and "on_control F ''arenas_dirty_decay'' ''arenas.dirty_decay_ms'' (\<lambda>k. raw_xchg F isize_repr k ms) (arenas_set_dirty_decay F ms)"
    and "on_control F ''arenas_limit'' ''arenas.narenas'' (\<lambda>k. run_try (raw_get F u32_repr k) (\<lambda>c. ret (Inr (ucast c)))) (arenas_limit F)"
    and "on_control F ''arenas_quantum'' ''arenas.quantum'' (raw_get F usize_repr) (arenas_quantum F)"
  using assms unfolding arenas_defs ALL_ARENAS_def usize_of_uint key_defs
  by (simp_all add: on_indexedI on_controlI)

section \<open>The calling thread\<close>

lemma thread_exact:
  assumes "lib_ok F"
  shows "on_control F ''thread_idle'' ''thread.idle'' (raw_notify F) (this_idle F)"
    and "on_control F ''thread_tcache_flush'' ''thread.tcache.flush'' (raw_notify F) (this_flush F)"
    and "on_control F ''thread_tcache_enabled'' ''thread.tcache.enabled'' (\<lambda>k. xchg_bool F k b) (cache_enable F b)"
    and "on_control F ''thread_tcache_enabled'' ''thread.tcache.enabled'' (get_bool F) (is_cache_enabled F)"
    and "on_control F ''thread_tcache_max'' ''thread.tcache.max'' (raw_get F usize_repr) (tcache_max F)"
    and "on_control F ''thread_tcache_max'' ''thread.tcache.max'' (\<lambda>k. raw_xchg F usize_repr k n) (set_tcache_max F n)"
    and "on_control F ''thread_tcache_ncached_max_read_sizeclass'' ''thread.tcache.ncached_max.read_sizeclass'' (\<lambda>k. raw_update F usize_repr usize_repr k n)
      (tcache_ncached_max F n)"
    and "on_control F ''thread_prof_active'' ''thread.prof.active'' (\<lambda>k. xchg_bool F k b) (this_prof_enable F b)"
    and "on_control F ''thread_prof_active'' ''thread.prof.active'' (get_bool F) (this_is_prof_enabled F)"
    and "on_control F ''thread_peak_reset'' ''thread.peak.reset'' (raw_notify F) (reset_peak F)"
    and "on_control F ''thread_peak_read'' ''thread.peak.read'' (raw_get F u64_repr) (peak F)"
    and "on_control F ''thread_allocated'' ''thread.allocated'' (raw_get F u64_repr) (this_allocated F)"
    and "on_control F ''thread_deallocated'' ''thread.deallocated'' (raw_get F u64_repr) (this_deallocated F)"
  using assms unfolding this_idle_def this_flush_def cache_enable_def is_cache_enabled_def tcache_max_def set_tcache_max_def
    tcache_ncached_max_def this_prof_enable_def this_is_prof_enabled_def reset_peak_def peak_def
    this_allocated_def this_deallocated_def key_defs
  by (simp_all add: on_controlI)

text \<open>
  The settings string is checked for its length first and then handed over, terminated, in a buffer of fixed
  size. An explicit cache checks its index after its key is there.
\<close>

lemma ncached_max_exact:
  assumes "lib_ok F"
  shows "length settings < 1000 \<Longrightarrow>
      on_control F ''thread_tcache_ncached_max_write'' ''thread.tcache.ncached_max.write''
        (\<lambda>k. with_local F (settings @ replicate (1000 - length settings) 0) (raw_set F ptr_repr k))
        (set_tcache_ncached_max F settings)"
    and "\<not> length settings < 1000 \<Longrightarrow> set_tcache_ncached_max F settings = ret (Inl (Error (errno F EINVAL)))"
proof -
  assume short: "length settings < 1000"
  then have "(settings @ [0]) @ replicate (1000 - length (settings @ [0])) 0 = settings @ replicate (1000 - length settings) 0"
    by (simp flip: replicate_Suc)
  with short show "on_control F ''thread_tcache_ncached_max_write'' ''thread.tcache.ncached_max.write''
        (\<lambda>k. with_local F (settings @ replicate (1000 - length settings) 0) (raw_set F ptr_repr k))
        (set_tcache_ncached_max F settings)"
    unfolding set_tcache_ncached_max_def Let_def TCACHE_NCACHED_MAX_SETTINGS_LEN_def key_defs
    by (simp add: on_controlI [OF assms])
next
  assume "\<not> length settings < 1000"
  then show "set_tcache_ncached_max F settings = ret (Inl (Error (errno F EINVAL)))"
    using lib_okD(2) [OF assms] by (simp add: set_tcache_ncached_max_def TCACHE_NCACHED_MAX_SETTINGS_LEN_def)
qed

text \<open>The word the processor mode control reads as.\<close>

definition mode_at :: "'s ffi \<Rightarrow> usize \<Rightarrow> ('s process, string ctl_result) comp" where
  "mode_at F ptr = (if ptr = 0 then ret (Inl (Error (errno F EFAULT)))
     else run_then (read_c_str ptr) (\<lambda>v. ret (case find (\<lambda>mode. v = str_bytes mode) [''disabled'', ''percpu'', ''phycpu''] of
       Some mode \<Rightarrow> Inr mode | None \<Rightarrow> Inl (Error (errno F EINVAL)))))"

lemma percpu_mode_exact:
  assumes "lib_ok F"
  shows "on_control F ''opt_percpu_arena'' ''opt.percpu_arena'' (\<lambda>k. run_try (raw_get F ptr_repr k) (mode_at F)) (percpu_mode F)"
proof -
  have "(\<lambda>ptr. if ptr = 0 then fail (bad_address F)
     else run_then (read_c_str ptr) (\<lambda>v.
       if v = str_bytes ''disabled'' then ret (Inr ''disabled'')
       else if v = str_bytes ''percpu'' then ret (Inr ''percpu'')
       else if v = str_bytes ''phycpu'' then ret (Inr ''phycpu'')
       else fail (invalid_argument F))) = mode_at F"
    unfolding mode_at_def using lib_okD(2) [OF assms] by (intro ext if_cong arg_cong2 [of _ _ _ _ run_then]) auto
  then show ?thesis
    unfolding percpu_mode_def key_defs by (intro on_controlI [OF assms]) simp_all
qed

lemma tcache_exact:
  assumes "lib_ok F"
  shows "on_control F ''tcache_flush'' ''tcache.flush'' (\<lambda>k. if unat (t_index t) < 4094
        then raw_set F u32_repr k (ucast (t_index t)) else ret (Inl (Error (errno F EINVAL)))) (tcache_flush F t)"
    and "t_owned t \<Longrightarrow> on_result F ''tcache_destroy'' ''tcache.destroy'' (\<lambda>r. case r of
        Inl e \<Rightarrow> ret (Inl e, t)
      | Inr k \<Rightarrow> if unat (t_index t) < 4094 then run_then (raw_set F u32_repr k (ucast (t_index t))) (\<lambda>r. ret (case r of
            Inl e \<Rightarrow> (Inl e, t) | Inr _ \<Rightarrow> (Inr (), t\<lparr>t_owned := False\<rparr>)))
          else ret (Inl (Error (errno F EINVAL)), t)) (tcache_destroy F t)"
    and "\<not> t_owned t \<Longrightarrow> tcache_destroy F t = ret (Inl (Error (errno F EINVAL)), t)"
proof -
  note index = tcache_validated_index_cases [OF lib_okD(2) [OF assms]]
  show "on_control F ''tcache_flush'' ''tcache.flush'' (\<lambda>k. if unat (t_index t) < 4094
        then raw_set F u32_repr k (ucast (t_index t)) else ret (Inl (Error (errno F EINVAL)))) (tcache_flush F t)"
    unfolding tcache_flush_def key_defs by (intro on_controlI [OF assms]) (simp_all add: index)
  show "on_result F ''tcache_destroy'' ''tcache.destroy'' (\<lambda>r. case r of
        Inl e \<Rightarrow> ret (Inl e, t)
      | Inr k \<Rightarrow> if unat (t_index t) < 4094 then run_then (raw_set F u32_repr k (ucast (t_index t))) (\<lambda>r. ret (case r of
            Inl e \<Rightarrow> (Inl e, t) | Inr _ \<Rightarrow> (Inr (), t\<lparr>t_owned := False\<rparr>)))
          else ret (Inl (Error (errno F EINVAL)), t)) (tcache_destroy F t)" if "t_owned t"
    using that unfolding tcache_destroy_def key_defs run_try_def [of "define_key F a n" for a n]
    by (simp only: if_False not_True_eq_False simp_thms run_then_assoc, intro on_resultI [OF assms])
       (auto simp: index split: sum.split)
  show "tcache_destroy F t = ret (Inl (Error (errno F EINVAL)), t)" if "\<not> t_owned t"
    using that lib_okD(2) [OF assms] by (simp add: tcache_destroy_def)
qed

section \<open>Options, statistics and profiling\<close>

lemma bool_getters_exact:
  "lib_ok F \<Longrightarrow> list_all2 (\<lambda>name m. on_control F (accessor name) name (get_bool F) m) bool_names (bool_getters F)"
  unfolding bool_getters_def option_defs key_defs bool_getter_def bool_names_def
  by (simp add: on_controlI accessor_def)

lemma cstr_getters_exact:
  "lib_ok F \<Longrightarrow> list_all2 (\<lambda>name m. on_control F (accessor name) name (get_cstr F) m) cstr_names (cstr_getters F)"
  unfolding cstr_getters_def option_defs key_defs cstr_getter_def cstr_names_def
  by (simp add: on_controlI accessor_def)

lemma u32_getters_exact:
  "lib_ok F \<Longrightarrow> list_all2 (\<lambda>name m. on_control F (accessor name) name (raw_get F u32_repr) m) u32_names (u32_getters F)"
  unfolding u32_getters_def option_defs key_defs scalar_getter_def u32_names_def
  by (simp add: on_controlI accessor_def)

lemma u64_getters_exact:
  "lib_ok F \<Longrightarrow> list_all2 (\<lambda>name m. on_control F (accessor name) name (raw_get F u64_repr) m) u64_names (u64_getters F)"
  unfolding u64_getters_def option_defs key_defs scalar_getter_def u64_names_def
  by (simp add: on_controlI accessor_def)

definition stats_names :: "string list" where
  "stats_names = [''stats.allocated'', ''stats.active'', ''stats.metadata'', ''stats.metadata_thp'',
     ''stats.resident'', ''stats.mapped'', ''stats.retained'', ''stats.zero_reallocs'',
     ''stats.background_thread.num_threads'', ''stats.background_thread.num_runs'',
     ''stats.background_thread.run_interval'']"

lemma stats_values_exact:
  assumes "lib_ok F"
  shows "list_all2 (\<lambda>name m. on_control F (accessor name) name (raw_get F u64_repr) m) stats_names (drop 2 (stats_getters F))"
    and "on_control F ''epoch'' ''epoch'' (raw_get F u64_repr) (epoch F)"
    and "on_control F ''epoch'' ''epoch'' (\<lambda>k. raw_xchg F u64_repr k 0) (refresh_epoch F)"
    and "on_control F ''stats_mutexes_reset'' ''stats.mutexes.reset'' (raw_notify F) (stats_reset F)"
  using assms
  unfolding stats_getters_def epoch_def refresh_epoch_def stats_allocated_def stats_active_def stats_metadata_def
    stats_metadata_thp_def stats_resident_def stats_mapped_def stats_retained_def stats_zero_reallocs_def
    background_thread_num_threads_def background_thread_num_runs_def background_thread_run_interval_def
    stats_reset_def stats_names_def key_defs
  by (simp_all add: on_controlI accessor_def)

lemma prof_exact:
  assumes "lib_ok F"
  shows "on_control F ''prof_reset'' ''prof.reset'' (raw_notify F) (prof_reset F)"
    and "on_control F ''prof_dump'' ''prof.dump'' (raw_notify F) (prof_dump F)"
    and "on_control F ''prof_gdump'' ''prof.gdump'' (\<lambda>k. xchg_bool F k b) (prof_gdump F b)"
    and "on_control F ''prof_active'' ''prof.active'' (\<lambda>k. xchg_bool F k b) (prof_enable F b)"
    and "on_control F ''prof_active'' ''prof.active'' (get_bool F) (is_prof_enabled F)"
    and "on_control F ''prof_interval'' ''prof.interval'' (raw_get F u64_repr) (prof_interval F)"
    and "on_control F ''background_thread'' ''background_thread'' (\<lambda>k. xchg_bool F k b) (background_thread_enable F b)"
  using assms
  unfolding prof_reset_def prof_dump_def prof_gdump_def prof_enable_def is_prof_enabled_def
    prof_interval_def background_thread_enable_def key_defs
  by (simp_all add: on_controlI)

section \<open>Properties\<close>


text \<open>
  C30. The same for the controls that need no arena handle: the allocator-wide arena controls work on
  their own names, or on the per-arena names at the index 4096 that stands for all arenas; the controls
  of the calling thread and flushing and destroying an explicit cache on theirs. The only refusals
  without a translation are an arena index out of range, a settings string that does not fit and
  destroying through a handle that does not own. Operations composed of several of these are not
  restated here (trimming, the calling thread's decay controls, the tests of the processor mode), nor are
  creating an explicit cache and the counter handle, which use several keys.
\<close>

theorem process_controls_exact:
  assumes "lib_ok F"
  shows "on_indexed F ''arena_decay'' ''arena.0.decay'' 4096 (raw_notify F) (arenas_decay F) \<and>
    on_indexed F ''arena_purge'' ''arena.0.purge'' 4096 (raw_notify F) (arenas_purge F) \<and>
    on_indexed F ''arena_dss'' ''arena.0.dss'' 4096 (\<lambda>k. run_try (raw_get F ptr_repr k) (dss_from_ptr F)) (arenas_dss F) \<and>
    on_indexed F ''arena_dss'' ''arena.0.dss'' 4096
      (\<lambda>k. run_try (raw_xchg F ptr_repr k (dss_as_ptr F d)) (dss_from_ptr F)) (arenas_set_dss F d) \<and>
    on_control F ''arenas_muzzy_decay'' ''arenas.muzzy_decay_ms'' (raw_get F isize_repr) (arenas_muzzy_decay F) \<and>
    on_control F ''arenas_muzzy_decay'' ''arenas.muzzy_decay_ms'' (\<lambda>k. raw_xchg F isize_repr k ms) (arenas_set_muzzy_decay F ms) \<and>
    on_control F ''arenas_dirty_decay'' ''arenas.dirty_decay_ms'' (raw_get F isize_repr) (arenas_dirty_decay F) \<and>
    on_control F ''arenas_dirty_decay'' ''arenas.dirty_decay_ms'' (\<lambda>k. raw_xchg F isize_repr k ms) (arenas_set_dirty_decay F ms) \<and>
    on_control F ''arenas_limit'' ''arenas.narenas'' (\<lambda>k. run_try (raw_get F u32_repr k) (\<lambda>c. ret (Inr (ucast c)))) (arenas_limit F) \<and>
    on_control F ''arenas_quantum'' ''arenas.quantum'' (raw_get F usize_repr) (arenas_quantum F) \<and>
    on_control F ''thread_arena'' ''thread.arena'' (\<lambda>k. run_try (raw_get F u32_repr k) (\<lambda>c. ret (Inr (ucast c)))) (arena_id F) \<and>
    (if unat i < 4095 then on_control F ''thread_arena'' ''thread.arena''
      (\<lambda>k. run_try (raw_xchg F u32_repr k (ucast i)) (\<lambda>c. ret (Inr (ucast c)))) (set_arena F i)
     else set_arena F i = ret (Inl (Error (errno F EINVAL)))) \<and>
    on_control F ''opt_percpu_arena'' ''opt.percpu_arena''
      (\<lambda>k. run_try (raw_get F ptr_repr k) (mode_at F)) (percpu_mode F) \<and>
    (if length settings < 1000 then
      on_control F ''thread_tcache_ncached_max_write'' ''thread.tcache.ncached_max.write''
        (\<lambda>k. with_local F (settings @ replicate (1000 - length settings) 0) (raw_set F ptr_repr k))
        (set_tcache_ncached_max F settings)
     else set_tcache_ncached_max F settings = ret (Inl (Error (errno F EINVAL)))) \<and>
    on_control F ''tcache_flush'' ''tcache.flush'' (\<lambda>k. if unat (t_index t) < 4094
        then raw_set F u32_repr k (ucast (t_index t)) else ret (Inl (Error (errno F EINVAL)))) (tcache_flush F t) \<and>
    (if t_owned t then on_result F ''tcache_destroy'' ''tcache.destroy'' (\<lambda>r. case r of
        Inl e \<Rightarrow> ret (Inl e, t)
      | Inr k \<Rightarrow> if unat (t_index t) < 4094 then run_then (raw_set F u32_repr k (ucast (t_index t))) (\<lambda>r. ret (case r of
            Inl e \<Rightarrow> (Inl e, t) | Inr _ \<Rightarrow> (Inr (), t\<lparr>t_owned := False\<rparr>)))
          else ret (Inl (Error (errno F EINVAL)), t)) (tcache_destroy F t)
     else tcache_destroy F t = ret (Inl (Error (errno F EINVAL)), t)) \<and>
    on_control F ''thread_idle'' ''thread.idle'' (raw_notify F) (this_idle F) \<and>
    on_control F ''thread_tcache_flush'' ''thread.tcache.flush'' (raw_notify F) (this_flush F) \<and>
    on_control F ''thread_tcache_enabled'' ''thread.tcache.enabled'' (\<lambda>k. xchg_bool F k b) (cache_enable F b) \<and>
    on_control F ''thread_tcache_enabled'' ''thread.tcache.enabled'' (get_bool F) (is_cache_enabled F) \<and>
    on_control F ''thread_tcache_max'' ''thread.tcache.max'' (raw_get F usize_repr) (tcache_max F) \<and>
    on_control F ''thread_tcache_max'' ''thread.tcache.max'' (\<lambda>k. raw_xchg F usize_repr k n) (set_tcache_max F n) \<and>
    on_control F ''thread_tcache_ncached_max_read_sizeclass'' ''thread.tcache.ncached_max.read_sizeclass'' (\<lambda>k. raw_update F usize_repr usize_repr k n)
      (tcache_ncached_max F n) \<and>
    on_control F ''thread_prof_active'' ''thread.prof.active'' (\<lambda>k. xchg_bool F k b) (this_prof_enable F b) \<and>
    on_control F ''thread_prof_active'' ''thread.prof.active'' (get_bool F) (this_is_prof_enabled F) \<and>
    on_control F ''thread_peak_reset'' ''thread.peak.reset'' (raw_notify F) (reset_peak F) \<and>
    on_control F ''thread_peak_read'' ''thread.peak.read'' (raw_get F u64_repr) (peak F) \<and>
    on_control F ''thread_allocated'' ''thread.allocated'' (raw_get F u64_repr) (this_allocated F) \<and>
    on_control F ''thread_deallocated'' ''thread.deallocated'' (raw_get F u64_repr) (this_deallocated F)"
  using assms by (simp add: all_arenas_exact arena_handles_exact thread_exact percpu_mode_exact ncached_max_exact tcache_exact)

text \<open>
  C34. Every getter of a build-time or startup option has the key of the control of its documented name
  from its cache or from one translation of that name, whose nonzero status is its only way to fail before
  the read, and then reads that control once, with the documented C type. When the controls of these
  names have those types it returns, keeps the key caches consistent and reports errors as nonzero codes.
\<close>

theorem option_getters_exact:
  assumes "options_typed F"
  shows "list_all2 (\<lambda>name m. on_control F (accessor name) name (get_bool F) m) bool_names (bool_getters F) \<and>
    list_all2 (\<lambda>name m. on_control F (accessor name) name (get_cstr F) m) cstr_names (cstr_getters F) \<and>
    list_all2 (\<lambda>name m. on_control F (accessor name) name (raw_get F u32_repr) m) u32_names (u32_getters F) \<and>
    list_all2 (\<lambda>name m. on_control F (accessor name) name (raw_get F u64_repr) m) u64_names (u64_getters F) \<and>
    list_all (ctl_ok F) (bool_getters F) \<and> list_all (ctl_ok F) (cstr_getters F) \<and>
    list_all (ctl_ok F) (u32_getters F) \<and> list_all (ctl_ok F) (u64_getters F)"
proof -
  have "lib_ok F" using assms by (simp add: options_typed_def)
  then show ?thesis
    using assms by (simp add: bool_getters_exact cstr_getters_exact u32_getters_exact u64_getters_exact
        bool_getters_safe cstr_getters_safe u32_getters_safe u64_getters_safe)
qed

text \<open>
  C35. In the same sense every statistics getter reads the control of its documented name; refreshing exchanges
  the epoch; the profiling commands and switches work on their own controls, and none is refused before its call
  but by a failed translation. When the controls have their documented types, all are safe.
\<close>

theorem statistics_exact:
  assumes "stats_controls F" and "prof_controls F"
  shows "list_all2 (\<lambda>name m. on_control F (accessor name) name (raw_get F u64_repr) m) stats_names (drop 2 (stats_getters F)) \<and>
    on_control F ''epoch'' ''epoch'' (raw_get F u64_repr) (epoch F) \<and>
    on_control F ''epoch'' ''epoch'' (\<lambda>k. raw_xchg F u64_repr k 0) (refresh_epoch F) \<and>
    on_control F ''stats_mutexes_reset'' ''stats.mutexes.reset'' (raw_notify F) (stats_reset F) \<and>
    on_control F ''prof_reset'' ''prof.reset'' (raw_notify F) (prof_reset F) \<and>
    on_control F ''prof_dump'' ''prof.dump'' (raw_notify F) (prof_dump F) \<and>
    on_control F ''prof_gdump'' ''prof.gdump'' (\<lambda>k. xchg_bool F k b) (prof_gdump F b) \<and>
    on_control F ''prof_active'' ''prof.active'' (\<lambda>k. xchg_bool F k b) (prof_enable F b) \<and>
    on_control F ''prof_active'' ''prof.active'' (get_bool F) (is_prof_enabled F) \<and>
    on_control F ''prof_interval'' ''prof.interval'' (raw_get F u64_repr) (prof_interval F) \<and>
    on_control F ''background_thread'' ''background_thread'' (\<lambda>k. xchg_bool F k b) (background_thread_enable F b) \<and>
    list_all (ctl_ok F) (stats_getters F) \<and> ctl_ok F (stats_reset F) \<and> ctl_ok F (prof_reset F) \<and>
    ctl_ok F (prof_dump F) \<and> ctl_ok F (prof_gdump F b) \<and> ctl_ok F (prof_enable F b) \<and>
    ctl_ok F (is_prof_enabled F) \<and> ctl_ok F (prof_interval F) \<and> ctl_ok F (background_thread_enable F b)"
proof -
  have "lib_ok F" using assms(1) by (simp add: stats_controls_def)
  then show ?thesis
    using assms by (simp add: stats_values_exact prof_exact stats_getters_safe prof_safe)
qed

section \<open>At the reference library\<close>

text \<open>What the specifications say of a run from start-up: the name is translated and the key used.\<close>

definition ref_key :: "string \<Rightarrow> key" where
  "ref_key name = map seg_code (split_dot (str_bytes name))"

lemma ref_result_run:
  assumes "on_result ref_ffi acc name h m" and mem: "(acc, name) \<in> key_table"
  shows "\<exists>u. m ref_start = h (Inr (ref_key name)) u \<and> mach u = mach ref_start \<and>
    trace u = [Call_nametomib (name_buf (str_bytes name))]"
proof -
  have nr: "\<not> name_rejected (str_bytes name)"
    using mem builtin_name_valid by (simp add: key_table_def)
  then have "unat (of_nat (length (split_dot (str_bytes name))) :: usize) = length (split_dot (str_bytes name))"
    using unat_of_nat_KEY_SEGS by (auto simp: name_rejected_def segments_def)
  moreover have "those (map (\<lambda>s. Some (seg_code s)) xs) = Some (map seg_code xs)" for xs
    by (induction xs) auto
  moreover have "cached acc ref_start = None" by (simp add: ref_start_def cached_def cache_new_def)
  moreover have "control_at ref_ffi acc name h m ref_start"
    using assms(1) ref_start_ok by (simp add: on_result_def)
  ultimately show ?thesis
    using nr by (auto simp: control_at_def fetched_as_def ref_nametomib_def Let_def name_buf_content ref_key_def publish_def
        translated_def ref_start_def)
qed

lemma ref_control_run:
  assumes "on_control ref_ffi acc name use m" and "(acc, name) \<in> key_table"
  shows "\<exists>u. m ref_start = use (ref_key name) u \<and> mach u = mach ref_start \<and>
    trace u = [Call_nametomib (name_buf (str_bytes name))]"
  using ref_result_run [OF assms(1) [unfolded on_control_def] assms(2)] by simp

lemma ref_indexed_run:
  assumes "on_indexed ref_ffi acc name i use m" and "(acc, name) \<in> key_table"
  shows "\<exists>u. m ref_start = use ((ref_key name)[1 := i]) u \<and> mach u = mach ref_start \<and>
    trace u = [Call_nametomib (name_buf (str_bytes name))]"
  using ref_control_run [OF conjunct2 [OF assms(1) [unfolded on_indexed_def]] assms(2)] .

lemma ref_notify:
  "\<exists>q. raw_notify ref_ffi k u = (Done (Inr ()), q) \<and> trace q = trace u @ [Call_bymib (notify_call k)]"
  by (simp add: raw_notify_def mallctlbymib_def foreign_def ref_bymib_def run_then_def into_result_def from_code_def)


theorem process_controls_exact_witness:
  "\<exists>q. arenas_purge ref_ffi ref_start = (Done (Inr ()), q) \<and>
     trace q = [Call_nametomib (name_buf (str_bytes ''arena.0.purge'')),
       Call_bymib (notify_call ((ref_key ''arena.0.purge'')[1 := 4096]))]"
proof -
  have "on_indexed ref_ffi ''arena_purge'' ''arena.0.purge'' 4096 (raw_notify ref_ffi) (arenas_purge ref_ffi)"
    using process_controls_exact [OF ref_lib_ok] by (simp del: One_nat_def)
  from ref_indexed_run [OF this] show ?thesis
    using ref_notify by (fastforce simp del: One_nat_def)
qed

theorem option_getters_exact_witness:
  "\<exists>q. opt_narenas ref_ffi ref_start = (Done (Inr 16), q) \<and>
     trace q = [Call_nametomib (name_buf (str_bytes ''opt.narenas'')),
       Call_bymib (read_call u32_repr (ref_key ''opt.narenas''))]"
proof -
  let ?k = "ref_key ''opt.narenas''"
  have "on_control ref_ffi ''opt_narenas'' ''opt.narenas'' (raw_get ref_ffi u32_repr) (opt_narenas ref_ffi)"
    using option_getters_exact [OF ref_options_typed] by (simp add: u32_getters_def u32_names_def accessor_def)
  from ref_control_run [OF this] obtain u where
    u: "opt_narenas ref_ffi ref_start = raw_get ref_ffi u32_repr ?k u"
      "trace u = [Call_nametomib (name_buf (str_bytes ''opt.narenas''))]" by auto
  have "\<not> is_decay ?k" by (simp add: is_decay_def ref_key_def str_bytes_def)
  then have "mallctlbymib ref_ffi (read_call u32_repr ?k) u = (Done (value_reply u32_repr 16),
      u\<lparr>mach := mach u, trace := trace u @ [Call_bymib (read_call u32_repr ?k)]\<rparr>)"
    by (simp add: mallctlbymib_def foreign_def ref_bymib_def read_call_def u32_repr_def ref_value_def ref_out_def
        value_reply_def)
  then have "raw_get ref_ffi u32_repr ?k u = (Done (Inr 16), u\<lparr>trace := trace u @ [Call_bymib (read_call u32_repr ?k)]\<rparr>)"
    by (auto simp: raw_get_Ok_iff u32.delivers_value)
  with u show ?thesis by simp
qed

theorem statistics_exact_witness:
  "\<exists>q. prof_dump ref_ffi ref_start = (Done (Inr ()), q) \<and>
     trace q = [Call_nametomib (name_buf (str_bytes ''prof.dump'')), Call_bymib (notify_call (ref_key ''prof.dump''))]"
proof -
  have "on_control ref_ffi ''prof_dump'' ''prof.dump'' (raw_notify ref_ffi) (prof_dump ref_ffi)"
    using statistics_exact [OF ref_stats_controls ref_prof_controls] by simp
  from ref_control_run [OF this] show ?thesis
    using ref_notify by fastforce
qed

end
