(* ===== verification/Indirect_Controls.thy ===== *)
theory Indirect_Controls
  imports Reference_Controls
begin

text \<open>
  The operations whose control transfers data through memory rather than through its operands: the name
  of an arena, copied from a C string of the caller and into a local buffer (\<^verbatim>\<open>arena.rs\<close>,
  \<^verbatim>\<open>arena/name.rs\<close>), and the counters of the calling thread, read through pointers the library hands
  out once (\<^verbatim>\<open>thread/counters.rs\<close>).

  Shown here: a name set through a handle reads back through any handle of the arena, truncated to the
  31 bytes the buffer holds, and the names of the other arenas stay; the counters loaded through the
  handle are the ones the library keeps, whatever other calls are made in between.
\<close>

section \<open>Arena names\<close>

text \<open>
  What is documented of the name control of the arenas that exist, whose indices are \<open>A\<close>: writing a pointer
  copies the C string it points to, up to 31 bytes; reading with a pointer in the operand copies the name and
  a terminator to the 32 bytes there and leaves the pointer. Nothing is assumed of other indices, which the
  library may reject. \<open>nm\<close> is the name a machine holds for a key.
\<close>

definition name_control :: "'s ffi \<Rightarrow> usize set \<Rightarrow> ('s machine \<Rightarrow> key \<Rightarrow> byte list) \<Rightarrow> bool" where
  "name_control F A nm \<longleftrightarrow> (\<forall>k \<in> arena_keys F ''arena.0.name'' A. \<forall>m. lib_inv F m \<longrightarrow>
     length (nm m k) < 32 \<and> 0 \<notin> set (nm m k) \<and>
     (\<forall>ptr s. c_str m ptr = Some s \<longrightarrow> (\<exists>rep m'. c_bymib F (write_call ptr_repr k ptr) m = (Done rep, m') \<and>
        status rep = 0 \<and> lib_inv F m' \<and> nm m' = (nm m)(k := take 31 s))) \<and>
     (\<forall>buf bs. bytes_at m buf = Some bs \<longrightarrow> length bs = 32 \<longrightarrow>
       (\<exists>m' rest. c_bymib F (in_place_call ptr_repr k buf) m = (Done (value_reply ptr_repr buf), m') \<and>
        bytes_at m' buf = Some (nm m k @ 0 # rest) \<and> length rest + length (nm m k) = 31)))"

text \<open>The storage of locals is none of the library's.\<close>

definition locals_private :: "'s ffi \<Rightarrow> ('s machine \<Rightarrow> 'x) \<Rightarrow> bool" where
  "locals_private F obs \<longleftrightarrow> (\<forall>m bs. lib_inv F m \<longrightarrow>
     lib_inv F (m\<lparr>bytes_at := (bytes_at m)(local_at F m \<mapsto> bs)\<rparr>) \<and>
     obs (m\<lparr>bytes_at := (bytes_at m)(local_at F m \<mapsto> bs)\<rparr>) = obs m)"

lemma value_reply_in_place:
  fixes F :: "'s ffi"
  assumes "mallctlbymib F (in_place_call ptr_repr k buf) p = (Done (value_reply ptr_repr buf), q)"
  shows "get_in_place F ptr_repr k buf p = (Done (Inr (), buf), q)"
proof -
  have "assume_init ptr_repr (map Some (enc ptr_repr buf)) = (ret buf :: ('s process, usize) comp)"
    using u64.dec_enc [of buf] by (intro assume_init_valid [of _ "enc ptr_repr buf"]) simp_all
  then show ?thesis
    using assms by (simp add: get_in_place_def in_place_call_def value_reply_def run_then_def into_result_def)
qed

text \<open>One read of a name, from a state in which the accessor's cache is filled.\<close>

lemma name_read:
  fixes F :: "'s ffi"
  assumes "keys_ok F p" and "cached ''arena_name'' p = Some k"
    and "name_control F A nm" and "locals_private F nm" and "a_index a \<in> A"
  shows "\<exists>n q. arena_name_of F a p = (Done (Inr n), q) \<and> as_bytes n = (ret (nm (mach p) (k[1 := a_index a])) :: ('s process, _) comp) \<and>
    length (name_bytes n) = ARENA_NAME_LEN \<and> bytes_at (mach q) (local_at F (mach p)) = None"
proof -
  let ?k = "k[1 := a_index a]" and ?buf = "local_at F (mach p)"
  let ?enter = "p\<lparr>mach := (mach p)\<lparr>bytes_at := (bytes_at (mach p))(?buf \<mapsto> replicate 32 0)\<rparr>\<rparr>"
  have "caches_ok F p" and inv: "lib_inv F (mach p)" using assms(1) by (simp_all add: keys_ok_def)
  have tab: "(''arena_name'', ''arena.0.name'') \<in> key_table" "indexed_name ''arena.0.name''" by simp_all
  note hit = selected_hit [OF \<open>caches_ok F p\<close> tab(1) assms(2) tab(2)]
  have key: "?k \<in> arena_keys F ''arena.0.name'' A" by (rule hit(4) [OF assms(5)])
  have enter: "lib_inv F (mach ?enter)" "nm (mach ?enter) = nm (mach p)"
    using assms(4) inv by (simp_all add: locals_private_def)
  have "bytes_at (mach ?enter) ?buf = Some (replicate 32 0)" by simp
  with assms(3) key enter(1) obtain m' rest where
    c: "c_bymib F (in_place_call ptr_repr ?k ?buf) (mach ?enter) = (Done (value_reply ptr_repr ?buf), m')"
    and m': "bytes_at m' ?buf = Some (nm (mach ?enter) ?k @ 0 # rest)"
      "length rest + length (nm (mach ?enter) ?k) = 31"
    unfolding name_control_def by (metis length_replicate)
  let ?q = "?enter\<lparr>mach := m', trace := trace ?enter @ [Call_bymib (in_place_call ptr_repr ?k ?buf)]\<rparr>"
  have "get_in_place F ptr_repr ?k ?buf ?enter = (Done (Inr (), ?buf), ?q)"
    using c by (intro value_reply_in_place) (simp add: mallctlbymib_def foreign_def)
  then have "arena_name_of F a p = (Done (Inr (ArenaName (nm (mach p) ?k @ 0 # rest))),
      ?q\<lparr>mach := m'\<lparr>bytes_at := (bytes_at m')(?buf := None)\<rparr>\<rparr>)"
    using m'(1) enter(2)
    unfolding arena_name_of_def arena_select_def key_defs hit(1)
    by (simp add: with_local_def Let_def run_then_def arena_name_default_def ARENA_NAME_LEN_def del: One_nat_def)
  moreover have "0 \<notin> set (nm (mach p) ?k)"
    using assms(3) key inv unfolding name_control_def by blast
  then have "as_bytes (ArenaName (nm (mach p) ?k @ 0 # rest)) = ret (nm (mach p) ?k)"
    by (simp add: as_bytes_def as_c_str_def takeWhile_nul_prefix)
  ultimately show ?thesis
    using m'(2) enter(2) by (auto simp: ARENA_NAME_LEN_def)
qed

text \<open>
  C38. A name set through a handle of an arena that exists is the name of the arena from then on: any handle
  of the arena reads back its first 31 bytes, in a buffer of 32 that keeps its terminator, every other
  existing arena keeps its name, and the buffer does not outlive the call.
\<close>

theorem arena_name_roundtrip:
  fixes F :: "'s ffi"
  assumes "keys_ok F p" and "cached ''arena_name'' p = Some k"
    and "name_control F A nm" and "locals_private F nm" and "c_str (mach p) ptr = Some s"
    and "a_index c = a_index a" and "a_index b \<noteq> a_index a" and "a_index a \<in> A" and "a_index b \<in> A"
  shows "\<exists>q n q1 n' q2. set_name F a ptr p = (Done (Inr ()), q) \<and>
    arena_name_of F c q = (Done (Inr n), q1) \<and> as_bytes n = (ret (take 31 s) :: ('s process, _) comp) \<and> length (name_bytes n) = 32 \<and>
    bytes_at (mach q1) (local_at F (mach q)) = None \<and>
    arena_name_of F b q = (Done (Inr n'), q2) \<and> as_bytes n' = (ret (nm (mach p) (k[1 := a_index b])) :: ('s process, _) comp)"
proof -
  let ?k = "k[1 := a_index a]"
  have ok: "caches_ok F p" and inv: "lib_inv F (mach p)" using assms(1) by (simp_all add: keys_ok_def)
  have tab: "(''arena_name'', ''arena.0.name'') \<in> key_table" "indexed_name ''arena.0.name''" by simp_all
  note hit = selected_hit [OF ok tab(1) assms(2) tab(2)]
  have c: "a_index c \<in> A" using assms(6,8) by simp
  have key: "?k \<in> arena_keys F ''arena.0.name'' A" and long: "1 < length k"
    by (rule hit(4) [OF assms(8)], rule hit(3))
  with assms(3,5) inv obtain rep m' where
    w: "c_bymib F (write_call ptr_repr ?k ptr) (mach p) = (Done rep, m')" "status rep = 0" "lib_inv F m'"
      "nm m' = (nm (mach p))(?k := take 31 s)"
    unfolding name_control_def by metis
  let ?q = "p\<lparr>mach := m', trace := trace p @ [Call_bymib (write_call ptr_repr ?k ptr)]\<rparr>"
  have "set_name F a ptr p = raw_set F ptr_repr ?k ptr p"
    unfolding set_name_def arena_select_def key_defs by (rule hit(1))
  then have set: "set_name F a ptr p = (Done (Inr ()), ?q)"
    using w(1,2) by (simp add: raw_set_eq mallctlbymib_def foreign_def run_then_def into_result_def del: One_nat_def)
  have q: "keys_ok F ?q" "cached ''arena_name'' ?q = Some k"
    using ok w(3) assms(2) caches_ok_caches [of ?q p F] by (simp_all add: keys_ok_def cached_def)
  obtain n q1 where n: "arena_name_of F c ?q = (Done (Inr n), q1)" "as_bytes n = (ret (nm m' (k[1 := a_index c])) :: ('s process, _) comp)"
    "length (name_bytes n) = ARENA_NAME_LEN" "bytes_at (mach q1) (local_at F m') = None"
    using name_read [OF q assms(3,4) c] by auto
  obtain n' q2 where n': "arena_name_of F b ?q = (Done (Inr n'), q2)" "as_bytes n' = (ret (nm m' (k[1 := a_index b])) :: ('s process, _) comp)"
    using name_read [OF q assms(3,4,9)] by auto
  have "k[1 := a_index b] \<noteq> ?k"
    using long assms(7) by (metis length_list_update nth_list_update_eq)
  then have "nm m' (k[1 := a_index b]) = nm (mach p) (k[1 := a_index b])" "nm m' (k[1 := a_index c]) = take 31 s"
    using w(4) assms(6) by simp_all
  with set n n' show ?thesis by (auto simp: ARENA_NAME_LEN_def simp del: One_nat_def)
qed

section \<open>Counters of the calling thread\<close>

text \<open>
  What is documented of a counter: its value \<open>n\<close> is kept in eight bytes at a fixed address \<open>a\<close>, one
  control reads the value, another reads the address.
\<close>

definition counter_control ::
    "'s ffi \<Rightarrow> string \<Rightarrow> string \<Rightarrow> ('s machine \<Rightarrow> u64) \<Rightarrow> usize \<Rightarrow> bool" where
  "counter_control F name pname n a \<longleftrightarrow> (\<forall>m. lib_inv F m \<longrightarrow>
     a \<noteq> 0 \<and> (\<exists>rest. bytes_at m a = Some (enc u64_repr (n m) @ rest)) \<and>
     (\<forall>k. resolves F (str_bytes pname) k \<longrightarrow> (\<exists>m'. c_bymib F (read_call ptr_repr k) m = (Done (value_reply ptr_repr a), m') \<and>
       lib_inv F m')) \<and>
     (\<forall>k. resolves F (str_bytes name) k \<longrightarrow> (\<exists>m'. c_bymib F (read_call u64_repr k) m = (Done (value_reply u64_repr (n m)), m') \<and>
       lib_inv F m')))"

lemma counter_load:
  assumes "counter_control F name pname n a" and "lib_inv F (mach r)"
  shows "load_u64 a r = (Done (n (mach r)), r)"
proof -
  obtain rest where "bytes_at (mach r) a = Some (enc u64_repr (n (mach r)) @ rest)"
    using assms unfolding counter_control_def by blast
  moreover have "take 8 (enc u64_repr v @ rest) = enc u64_repr v" for v
    using u64.length_enc [of v] by (simp add: u64_repr_def)
  ultimately show ?thesis
    using u64.dec_enc [of "n (mach r)"] by (simp add: load_u64_def)
qed

lemma counter_pointer:
  assumes "counter_control F name pname n a" and "resolves F (str_bytes pname) k" and "lib_inv F (mach p)"
    and "raw_get F ptr_repr k p = (Done (Inr v), q)"
  shows "v = a" and "lib_inv F (mach q)"
proof -
  obtain m' where m': "c_bymib F (read_call ptr_repr k) (mach p) = (Done (value_reply ptr_repr a), m')" "lib_inv F m'"
    using assms(1-3) unfolding counter_control_def by blast
  from assms(4) obtain rep where "mallctlbymib F (read_call ptr_repr k) p = (Done rep, q)" "delivers ptr_repr rep v"
    by (auto simp: raw_get_Ok_iff)
  then have "rep = value_reply ptr_repr a" "mach q = m'"
    using m'(1) by (auto simp: mallctlbymib_def foreign_Done_iff)
  with \<open>delivers ptr_repr rep v\<close> m'(2) show "v = a" "lib_inv F (mach q)"
    by (simp_all add: u64.delivers_value)
qed

lemma counter_read:
  assumes "counter_control F name pname n a" and "(acc, name) \<in> key_table" and "keys_ok F r"
    and "cached acc r = Some k"
  shows "\<exists>q. run_try (define_key F acc name) (\<lambda>key. raw_get F u64_repr key) r = (Done (Inr (n (mach r))), q)"
proof -
  have ok: "caches_ok F r" and inv: "lib_inv F (mach r)" using assms(3) by (simp_all add: keys_ok_def)
  note hit = define_key_hit [OF ok assms(2,4)]
  with assms(1) inv obtain m' where
    "c_bymib F (read_call u64_repr k) (mach r) = (Done (value_reply u64_repr (n (mach r))), m')"
    unfolding counter_control_def by blast
  then have "\<exists>q. raw_get F u64_repr k r = (Done (Inr (n (mach r))), q)"
    by (auto simp: raw_get_Ok_iff mallctlbymib_def foreign_def u64.delivers_value)
  then show ?thesis by (auto simp: run_try_eq hit(1))
qed

text \<open>
  C39. The direct counters are the counters. Once the handle is obtained, a load through it, in any later
  state that keeps the library's invariant, is defined, changes nothing and yields the number of bytes
  the library counts at that moment, the same that the control of that counter reads.
\<close>

theorem thread_counters_exact:
  assumes "lib_ok F" and "keys_ok F p" and "counters_current F p = (Done (Inr c), q)"
    and "counter_control F ''thread.allocated'' ''thread.allocatedp'' na pa"
    and "counter_control F ''thread.deallocated'' ''thread.deallocatedp'' nd pd"
    and "keys_ok F r"
  shows "counters_allocated c r = (Done (na (mach r)), r) \<and>
    counters_deallocated c r = (Done (nd (mach r)), r) \<and>
    (cached ''thread_allocated'' r \<noteq> None \<longrightarrow> (\<exists>q. this_allocated F r = (Done (Inr (na (mach r))), q))) \<and>
    (cached ''thread_deallocated'' r \<noteq> None \<longrightarrow> (\<exists>q. this_deallocated F r = (Done (Inr (nd (mach r))), q)))"
proof -
  have inv: "lib_inv F (mach r)" using assms(6) by (simp add: keys_ok_def)
  from assms(3) obtain ka u1 kd u2 va u3 vd u4 where
    k1: "define_key F ''thread_allocatedp'' ''thread.allocatedp'' p = (Done (Inr ka), u1)" and
    k2: "define_key F ''thread_deallocatedp'' ''thread.deallocatedp'' u1 = (Done (Inr kd), u2)" and
    g1: "raw_get F ptr_repr ka u2 = (Done (Inr va), u3)" and
    g2: "raw_get F ptr_repr kd u3 = (Done (Inr vd), u4)" and
    c: "tc_allocated c = va" "tc_deallocated c = vd"
    by (auto simp: counters_current_def key_defs run_try_Ok_iff non_null_def bad_address_def split: if_splits)
  have t: "(''thread_allocatedp'', ''thread.allocatedp'') \<in> key_table"
    "(''thread_deallocatedp'', ''thread.deallocatedp'') \<in> key_table" by simp_all
  note safe1 = safeD [OF define_key_safe [OF lib_okD [OF assms(1)] t(1)] assms(2)]
  have 1: "keys_ok F u1" "resolves F (str_bytes ''thread.allocatedp'') ka" using safe1 k1 by auto
  note safe2 = safeD [OF define_key_safe [OF lib_okD [OF assms(1)] t(2)] 1(1)]
  have 2: "keys_ok F u2" "resolves F (str_bytes ''thread.deallocatedp'') kd" using safe2 k2 by auto
  have "va = pa" "lib_inv F (mach u3)"
    using counter_pointer [OF assms(4) 1(2) _ g1] 2(1) by (simp_all add: keys_ok_def)
  moreover from this(2) have "vd = pd" using counter_pointer [OF assms(5) 2(2) _ g2] by simp
  ultimately have "counters_allocated c r = (Done (na (mach r)), r)" "counters_deallocated c r = (Done (nd (mach r)), r)"
    using counter_load [OF assms(4) inv] counter_load [OF assms(5) inv] c
    by (simp_all add: counters_allocated_def counters_deallocated_def)
  then show ?thesis
    using counter_read [OF assms(4) _ assms(6), of "''thread_allocated''"]
      counter_read [OF assms(5) _ assms(6), of "''thread_deallocated''"]
    unfolding this_allocated_def this_deallocated_def key_defs by auto
qed

section \<open>At executable libraries\<close>

text \<open>A library that keeps a name for every key.\<close>

definition name_bymib :: "mib_call \<Rightarrow> ((key \<Rightarrow> byte list) machine, mib_reply) comp" where
  "name_bymib c = (\<lambda>m. case newp c of
     Some bs \<Rightarrow> (case c_str m (of_nat (le_dec bs)) of
         None \<Rightarrow> (Done \<lparr>status = 22, out = [], outlen = 0\<rparr>, m)
       | Some s \<Rightarrow> (Done \<lparr>status = 0, out = [], outlen = 0\<rparr>, m\<lparr>je := (je m)(mib c := take 31 s)\<rparr>))
   | None \<Rightarrow> (case oldp c of
         None \<Rightarrow> (Done \<lparr>status = 22, out = [], outlen = 0\<rparr>, m)
       | Some cells \<Rightarrow> (let buf = of_nat (le_dec (map the cells)) in
           (Done (value_reply ptr_repr buf), m\<lparr>bytes_at := (bytes_at m)(buf \<mapsto>
             je m (mib c) @ replicate (32 - length (je m (mib c))) 0)\<rparr>))))"

definition name_inv :: "(key \<Rightarrow> byte list) machine \<Rightarrow> bool" where
  "name_inv m \<longleftrightarrow> (\<forall>k. length (je m k) < 32 \<and> 0 \<notin> set (je m k))"

definition name_ffi :: "(key \<Rightarrow> byte list) ffi" where
  "name_ffi = bare_ffi\<lparr>c_nametomib := ref_nametomib, c_bymib := name_bymib, local_at := (\<lambda>_. 32), lib_inv := name_inv\<rparr>"

definition name_start :: "(key \<Rightarrow> byte list) process" where
  "name_start = \<lparr>mach = \<lparr>bytes_at = [16 \<mapsto> str_bytes ''primary'' @ [0]], tables_at = (\<lambda>_. None), je = (\<lambda>_. [])\<rparr>,
     caches = (\<lambda>_. cache_new), trace = []\<rparr>"

lemma name_simps [simp]:
  "c_nametomib name_ffi = ref_nametomib" "c_bymib name_ffi = name_bymib" "lib_inv name_ffi = name_inv"
  "local_at name_ffi = (\<lambda>_. 32)"
  by (simp_all add: name_ffi_def)

lemma address_bytes: "of_nat (le_dec (enc ptr_repr a)) = a"
  by (simp add: u64_repr_def le_dec_enc)

lemma name_ffi_control: "name_control name_ffi A je"
  unfolding name_control_def name_simps
proof (intro ballI allI impI conjI)
  fix k and m :: "(key \<Rightarrow> byte list) machine"
  assume inv: "name_inv m"
  then show "length (je m k) < 32" "0 \<notin> set (je m k)" by (simp_all add: name_inv_def)
  fix ptr s
  assume "c_str m ptr = Some s"
  with inv show "\<exists>rep m'. name_bymib (write_call ptr_repr k ptr) m = (Done rep, m') \<and> status rep = 0 \<and> name_inv m' \<and>
      je m' = (je m)(k := take 31 s)"
    by (auto simp: name_bymib_def write_call_def address_bytes name_inv_def dest: c_str_no_nul in_set_takeD)
next
  fix k buf bs and m :: "(key \<Rightarrow> byte list) machine"
  assume "name_inv m"
  then have "length (je m k) < 32" by (simp add: name_inv_def)
  then have "32 - length (je m k) = Suc (31 - length (je m k))" by arith
  then have "replicate (32 - length (je m k)) 0 = (0 :: byte) # replicate (31 - length (je m k)) 0" by simp
  with \<open>length (je m k) < 32\<close> show "\<exists>m' rest. name_bymib (in_place_call ptr_repr k buf) m =
      (Done (value_reply ptr_repr buf), m') \<and> bytes_at m' buf = Some (je m k @ 0 # rest) \<and> length rest + length (je m k) = 31"
    by (simp add: name_bymib_def in_place_call_def comp_def address_bytes Let_def)
qed

theorem arena_name_roundtrip_witness:
  "\<exists>p q n q1. set_name name_ffi \<lparr>a_index = 7, a_owned = False\<rparr> 16 p = (Done (Inr ()), q) \<and>
     arena_name_of name_ffi \<lparr>a_index = 7, a_owned = True\<rparr> q = (Done (Inr n), q1) \<and>
     as_bytes n = (ret (str_bytes ''primary'') :: ((key \<Rightarrow> byte list) process, _) comp)"
proof -
  have "keys_ok name_ffi name_start"
    by (rule keys_ok_startup) (simp_all add: name_start_def name_inv_def)
  then obtain k p where p: "keys_ok name_ffi p" "cached ''arena_name'' p = Some k" "mach p = mach name_start"
    using translating_fetch [of name_ffi name_start "''arena_name''" "''arena.0.name''"] by auto
  have loc: "locals_private name_ffi je" by (simp add: locals_private_def name_inv_def)
  have str: "c_str (mach p) 16 = Some (str_bytes ''primary'')"
    by (simp add: p(3) name_start_def c_str_def str_bytes_def)
  have t: "take 31 (str_bytes ''primary'') = str_bytes ''primary''" by simp
  let ?a = "\<lparr>a_index = 7, a_owned = False\<rparr>" and ?c = "\<lparr>a_index = 7, a_owned = True\<rparr>"
    and ?b = "\<lparr>a_index = 8, a_owned = False\<rparr>"
  have ix: "a_index ?c = a_index ?a" "a_index ?b \<noteq> a_index ?a" "a_index ?a \<in> {7, 8}" "a_index ?b \<in> {7, 8}" by simp_all
  from arena_name_roundtrip [OF p(1,2) name_ffi_control loc str ix, unfolded t]
  show ?thesis by (elim exE conjE) (intro exI conjI)
qed

text \<open>A library that counts what its thread allocates and frees, at two fixed addresses.\<close>

definition key_of :: "string \<Rightarrow> key" where
  "key_of name = map seg_code (split_dot (str_bytes name))"

definition count_bymib :: "mib_call \<Rightarrow> ((u64 \<times> u64) machine, mib_reply) comp" where
  "count_bymib c = (\<lambda>m.
    (Done (if mib c = key_of ''thread.allocatedp'' then value_reply ptr_repr 64
      else if mib c = key_of ''thread.deallocatedp'' then value_reply ptr_repr 72
      else if mib c = key_of ''thread.allocated'' then value_reply u64_repr (fst (je m))
      else value_reply u64_repr (snd (je m))), m))"

definition count_inv :: "(u64 \<times> u64) machine \<Rightarrow> bool" where
  "count_inv m \<longleftrightarrow> bytes_at m 64 = Some (enc u64_repr (fst (je m))) \<and> bytes_at m 72 = Some (enc u64_repr (snd (je m)))"

definition count_ffi :: "(u64 \<times> u64) ffi" where
  "count_ffi = bare_ffi\<lparr>c_nametomib := ref_nametomib, c_bymib := count_bymib, lib_inv := count_inv\<rparr>"

definition count_process :: "u64 \<Rightarrow> u64 \<Rightarrow> (u64 \<times> u64) process" where
  "count_process x y = \<lparr>mach = \<lparr>bytes_at = [64 \<mapsto> enc u64_repr x, 72 \<mapsto> enc u64_repr y], tables_at = (\<lambda>_. None),
     je = (x, y)\<rparr>, caches = (\<lambda>_. cache_new), trace = []\<rparr>"

lemma count_simps [simp]:
  "c_nametomib count_ffi = ref_nametomib" "c_bymib count_ffi = count_bymib" "lib_inv count_ffi = count_inv"
  "errno count_ffi = linux_errno"
  by (simp_all add: count_ffi_def bare_ffi_def)

lemma count_keys [simp]:
  "key_of ''thread.deallocatedp'' \<noteq> key_of ''thread.allocatedp''"
  "key_of ''thread.allocated'' \<noteq> key_of ''thread.allocatedp''"
  "key_of ''thread.allocated'' \<noteq> key_of ''thread.deallocatedp''"
  "key_of ''thread.deallocated'' \<noteq> key_of ''thread.allocatedp''"
  "key_of ''thread.deallocated'' \<noteq> key_of ''thread.deallocatedp''"
  "key_of ''thread.deallocated'' \<noteq> key_of ''thread.allocated''"
  by (simp_all add: key_of_def seg_code_def str_bytes_def)

lemma count_resolves:
  assumes "(acc, name) \<in> key_table" and "resolves count_ffi (str_bytes name) k"
  shows "k = key_of name"
  unfolding key_of_def using assms builtin_name_valid
  by (intro translating_resolves [of count_ffi]) (auto simp: key_table_def)

lemma count_names:
  "resolves count_ffi (str_bytes ''thread.allocated'') k \<Longrightarrow> k = key_of ''thread.allocated''"
  "resolves count_ffi (str_bytes ''thread.allocatedp'') k \<Longrightarrow> k = key_of ''thread.allocatedp''"
  "resolves count_ffi (str_bytes ''thread.deallocated'') k \<Longrightarrow> k = key_of ''thread.deallocated''"
  "resolves count_ffi (str_bytes ''thread.deallocatedp'') k \<Longrightarrow> k = key_of ''thread.deallocatedp''"
  by (rule count_resolves [of "''thread_allocated''"], simp, assumption)
     (rule count_resolves [of "''thread_allocatedp''"], simp, assumption,
      rule count_resolves [of "''thread_deallocated''"], simp, assumption,
      rule count_resolves [of "''thread_deallocatedp''"], simp, assumption)

lemma count_controls:
  "counter_control count_ffi ''thread.allocated'' ''thread.allocatedp'' (\<lambda>m. fst (je m)) 64"
  "counter_control count_ffi ''thread.deallocated'' ''thread.deallocatedp'' (\<lambda>m. snd (je m)) 72"
  by (auto simp: counter_control_def count_inv_def count_bymib_def read_call_def count_keys [symmetric]
      dest!: count_names)

lemma count_keys_ok: "keys_ok count_ffi (count_process x y)"
  by (rule keys_ok_startup) (simp_all add: count_process_def count_inv_def)

lemma count_current: "\<exists>c q. counters_current count_ffi (count_process x y) = (Done (Inr c), q)"
proof -
  let ?p = "count_process x y"
  obtain ka u where u: "define_key count_ffi ''thread_allocatedp'' ''thread.allocatedp'' ?p = (Done (Inr ka), u)"
    "keys_ok count_ffi u"
    using translating_fetch [of count_ffi ?p "''thread_allocatedp''" "''thread.allocatedp''"] count_keys_ok by auto
  obtain kd v where v: "define_key count_ffi ''thread_deallocatedp'' ''thread.deallocatedp'' u = (Done (Inr kd), v)"
    "keys_ok count_ffi v"
    using translating_fetch [of count_ffi u "''thread_deallocatedp''" "''thread.deallocatedp''"] u(2) by auto
  have ok: "key_ok count_ffi ''thread_allocatedp'' ''thread.allocatedp'' ?p"
    "key_ok count_ffi ''thread_deallocatedp'' ''thread.deallocatedp'' u"
    using count_keys_ok [of x y] u(2) by (auto simp: keys_ok_def intro: caches_okD)
  have "ka = key_of ''thread.allocatedp''" "kd = key_of ''thread.deallocatedp''"
    using define_key_key_ok(2) [OF ok(1) u(1) refl] define_key_key_ok(2) [OF ok(2) v(1) refl]
    by (auto dest: count_names)
  then have "\<exists>q. raw_get count_ffi ptr_repr ka r = (Done (Inr 64), q)" "\<exists>q. raw_get count_ffi ptr_repr kd r = (Done (Inr 72), q)"
    for r
    by (auto simp: raw_get_Ok_iff mallctlbymib_def foreign_def count_bymib_def read_call_def u64.delivers_value)
  then obtain w z where "raw_get count_ffi ptr_repr ka v = (Done (Inr 64), w)" "raw_get count_ffi ptr_repr kd w = (Done (Inr 72), z)"
    by metis
  with u(1) v(1) show ?thesis
    by (auto simp: counters_current_def key_defs run_try_eq non_null_def)
qed

text \<open>A handle obtained early sees the counters of a later state.\<close>

theorem thread_counters_exact_witness:
  "\<exists>c q. counters_current count_ffi (count_process 0 0) = (Done (Inr c), q) \<and>
     counters_allocated c (count_process 4096 100) = (Done 4096, count_process 4096 100) \<and>
     counters_deallocated c (count_process 4096 100) = (Done 100, count_process 4096 100)"
proof -
  obtain c q where c: "counters_current count_ffi (count_process 0 0) = (Done (Inr c), q)"
    using count_current by blast
  have "lib_ok count_ffi" by (rule translating_lib_ok) simp_all
  from thread_counters_exact [OF this count_keys_ok c count_controls count_keys_ok, of 4096 100] c
  show ?thesis by (auto simp: count_process_def)
qed

end
