(* ===== verification/Settings.thy ===== *)
theory Settings
  imports Indirect_Controls
begin

text \<open>
  The settings: controls that are both read and written, and what a program can rely on when it uses
  several handles and both operations in any order. The abstract specification is a register, or one
  register per arena. What a write answers with is part of the specification of a setting: the value before
  it for the numbers and the switches, the resulting value for the precedence of an arena. The getters and
  setters of \<^verbatim>\<open>arena.rs\<close>, \<^verbatim>\<open>arenas.rs\<close>, \<^verbatim>\<open>thread/this.rs\<close> and \<^verbatim>\<open>profiling.rs\<close> implement it over any library whose
  controls hold what is written to them: numbers, booleans in both C representations, and precedences,
  which cross the boundary as pointers to strings. Of an arena's control this is assumed only at the indices of
  the arenas that exist.
\<close>

section \<open>The specification\<close>

text \<open>\<open>at h\<close> is the index the handle \<open>h\<close> stands for, \<open>ans\<close> the answer to a write, of the old and the new value.\<close>

datatype ('h, 'v) access = Read 'h | Write 'h 'v

fun exchanged :: "('v \<Rightarrow> 'v \<Rightarrow> 'v) \<Rightarrow> ('h \<Rightarrow> 'i) \<Rightarrow> ('i \<Rightarrow> 'v) \<Rightarrow> ('h, 'v) access list \<Rightarrow> 'v list" where
  "exchanged ans at s [] = []"
| "exchanged ans at s (Read h # as) = s (at h) # exchanged ans at s as"
| "exchanged ans at s (Write h v # as) = ans (s (at h)) v # exchanged ans at (s(at h := v)) as"

abbreviation register :: "('h \<Rightarrow> 'i) \<Rightarrow> ('i \<Rightarrow> 'v) \<Rightarrow> ('h, 'v) access list \<Rightarrow> 'v list" where
  "register \<equiv> exchanged (\<lambda>old new. old)"

fun perform :: "('h \<Rightarrow> ('p, 'v ctl_result) comp) \<Rightarrow> ('h \<Rightarrow> 'v \<Rightarrow> ('p, 'v ctl_result) comp)
    \<Rightarrow> ('h, 'v) access list \<Rightarrow> ('p, 'v ctl_result list) comp" where
  "perform rd wr [] = ret []"
| "perform rd wr (Read h # as) = run_then (rd h) (\<lambda>r. run_then (perform rd wr as) (\<lambda>rs. ret (r # rs)))"
| "perform rd wr (Write h v # as) =
     run_then (wr h v) (\<lambda>r. run_then (perform rd wr as) (\<lambda>rs. ret (r # rs)))"

text \<open>The accesses go through valid handles and write acceptable values.\<close>

definition accesses_ok :: "('h \<Rightarrow> bool) \<Rightarrow> ('v \<Rightarrow> bool) \<Rightarrow> ('h, 'v) access list \<Rightarrow> bool" where
  "accesses_ok valid ok as \<longleftrightarrow> list_all (\<lambda>a. case a of Read h \<Rightarrow> valid h | Write h v \<Rightarrow> valid h \<and> ok v) as"

abbreviation writes_ok :: "('v \<Rightarrow> bool) \<Rightarrow> ('h, 'v) access list \<Rightarrow> bool" where
  "writes_ok \<equiv> accesses_ok (\<lambda>_. True)"

text \<open>Every operation succeeds, with the answers of the register that holds \<open>s\<close> at first.\<close>

definition answers :: "('v \<Rightarrow> 'v \<Rightarrow> 'v) \<Rightarrow> ('h \<Rightarrow> ('p, 'v ctl_result) comp) \<Rightarrow> ('h \<Rightarrow> 'v \<Rightarrow> ('p, 'v ctl_result) comp)
    \<Rightarrow> ('h \<Rightarrow> 'i) \<Rightarrow> ('i \<Rightarrow> 'v) \<Rightarrow> ('h, 'v) access list \<Rightarrow> 'p \<Rightarrow> bool" where
  "answers ans rd wr at s as p \<longleftrightarrow>
     (\<exists>q. perform rd wr as p = (Done (map Inr (exchanged ans at s as)), q))"

text \<open>A write answers with the value before it, or with the resulting one.\<close>

abbreviation answers_as_register :: "('h \<Rightarrow> ('p, 'v ctl_result) comp) \<Rightarrow> ('h \<Rightarrow> 'v \<Rightarrow> ('p, 'v ctl_result) comp)
    \<Rightarrow> ('h \<Rightarrow> 'i) \<Rightarrow> ('i \<Rightarrow> 'v) \<Rightarrow> ('h, 'v) access list \<Rightarrow> 'p \<Rightarrow> bool" where
  "answers_as_register \<equiv> answers (\<lambda>old new. old)"

abbreviation answers_resulting :: "('h \<Rightarrow> ('p, 'v ctl_result) comp) \<Rightarrow> ('h \<Rightarrow> 'v \<Rightarrow> ('p, 'v ctl_result) comp)
    \<Rightarrow> ('h \<Rightarrow> 'i) \<Rightarrow> ('i \<Rightarrow> 'v) \<Rightarrow> ('h, 'v) access list \<Rightarrow> 'p \<Rightarrow> bool" where
  "answers_resulting \<equiv> answers (\<lambda>old new. new)"

locale setting =
  fixes ans :: "'v \<Rightarrow> 'v \<Rightarrow> 'v"
    and rd :: "'h \<Rightarrow> ('p, 'v ctl_result) comp"
    and wr :: "'h \<Rightarrow> 'v \<Rightarrow> ('p, 'v ctl_result) comp"
    and at :: "'h \<Rightarrow> 'i" and valid :: "'h \<Rightarrow> bool" and ok :: "'v \<Rightarrow> bool"
    and ready :: "'p \<Rightarrow> bool" and held :: "'p \<Rightarrow> 'i \<Rightarrow> 'v"
  assumes get_law: "ready p \<Longrightarrow> valid h \<Longrightarrow>
      \<exists>q. rd h p = (Done (Inr (held p (at h))), q) \<and> ready q \<and> held q = held p"
    and set_law: "ready p \<Longrightarrow> valid h \<Longrightarrow> ok v \<Longrightarrow>
      \<exists>q. wr h v p = (Done (Inr (ans (held p (at h)) v)), q) \<and> ready q \<and> held q = (held p)(at h := v)"
begin

lemma refines: "ready p \<Longrightarrow> accesses_ok valid ok as \<Longrightarrow> answers ans rd wr at (held p) as p"
proof (induction as arbitrary: p)
  case Nil
  then show ?case by (simp add: answers_def)
next
  case (Cons a as)
  then have as: "accesses_ok valid ok as" by (simp add: accesses_ok_def)
  show ?case
  proof (cases a)
    case (Read h)
    with Cons.prems(2) have "valid h" by (simp add: accesses_ok_def)
    from get_law [OF Cons.prems(1) this] obtain q where
      q: "rd h p = (Done (Inr (held p (at h))), q)" "ready q" "held q = held p" by blast
    from Cons.IH [OF q(2) as] Read q show ?thesis
      by (auto simp: answers_def run_then_def)
  next
    case (Write h v)
    with Cons.prems(2) have "valid h" "ok v" by (simp_all add: accesses_ok_def)
    from set_law [OF Cons.prems(1) this] obtain q where
      q: "wr h v p = (Done (Inr (ans (held p (at h)) v)), q)" "ready q" "held q = (held p)(at h := v)" by blast
    from Cons.IH [OF q(2) as] Write q show ?thesis
      by (auto simp: answers_def run_then_def fun_upd_def)
  qed
qed

end

section \<open>Numbers\<close>

text \<open>
  A setting is ready when the library keeps the consistent caches and the accessor has its key; the
  register then holds what the library holds for that key, or for that key at an index.
\<close>

definition cached_key :: "string \<Rightarrow> 's process \<Rightarrow> key" where
  "cached_key acc p = the (cached acc p)"

definition fetched :: "'s ffi \<Rightarrow> string \<Rightarrow> 's process \<Rightarrow> bool" where
  "fetched F acc p \<longleftrightarrow> keys_ok F p \<and> cached acc p \<noteq> None"

definition held_at :: "string \<Rightarrow> ('s machine \<Rightarrow> key \<Rightarrow> 'v) \<Rightarrow> 's process \<Rightarrow> usize \<Rightarrow> 'v" where
  "held_at acc val p i = val (mach p) ((cached_key acc p)[1 := i])"

definition held_plain :: "string \<Rightarrow> ('s machine \<Rightarrow> key \<Rightarrow> 'v) \<Rightarrow> 's process \<Rightarrow> unit \<Rightarrow> 'v" where
  "held_plain acc val p _ = val (mach p) (cached_key acc p)"

lemma fetched_key: "fetched F acc p \<Longrightarrow> cached acc p = Some (cached_key acc p)"
  by (auto simp: fetched_def cached_key_def)

lemma fetched_caches: "fetched F acc p \<Longrightarrow> caches_ok F p" and fetched_inv: "fetched F acc p \<Longrightarrow> lib_inv F (mach p)"
  by (simp_all add: fetched_def keys_ok_def)

lemma fetched_stays:
  assumes "fetched F acc p" and "caches q = caches p" and "lib_inv F (mach q)"
  shows "fetched F acc q" and "cached_key acc q = cached_key acc p"
  using assms caches_ok_caches [of q p F] by (simp_all add: fetched_def cached_key_def cached_def keys_ok_def)

text \<open>An accessor that has its key, and the same with an index put into it.\<close>

lemma fetched_hit:
  assumes "fetched F acc p" and "(acc, name) \<in> key_table"
  shows "run_try (define_key F acc name) use p = use (cached_key acc p) p"
    and "resolves F (str_bytes name) (cached_key acc p)"
  using define_key_hit [OF fetched_caches [OF assms(1)] assms(2) fetched_key [OF assms(1)]]
  by (simp_all add: run_try_eq)

lemma fetched_select:
  assumes "fetched F acc p" and "(acc, name) \<in> key_table" and "indexed_name name"
  shows "run_try (define_key F acc name) (\<lambda>k. run_then (select_key k i) use) p = use ((cached_key acc p)[1 := i]) p"
    and "i \<in> A \<Longrightarrow> (cached_key acc p)[1 := i] \<in> arena_keys F name A"
    and "(cached_key acc p)[1 := j] = (cached_key acc p)[1 := i] \<longleftrightarrow> j = i"
proof -
  note hit = selected_hit [OF fetched_caches [OF assms(1)] assms(2) fetched_key [OF assms(1)] assms(3)]
  show "run_try (define_key F acc name) (\<lambda>k. run_then (select_key k i) use) p = use ((cached_key acc p)[1 := i]) p"
    "i \<in> A \<Longrightarrow> (cached_key acc p)[1 := i] \<in> arena_keys F name A"
    by (rule hit(1), rule hit(4))
  show "(cached_key acc p)[1 := j] = (cached_key acc p)[1 := i] \<longleftrightarrow> j = i"
    using hit(3) by (metis nth_list_update_eq)
qed

lemma held_at_update:
  assumes "fetched F acc p" and "(acc, name) \<in> key_table" and "indexed_name name"
    and "caches q = caches p" and "lib_inv F (mach q)"
    and "val (mach q) = (val (mach p))((cached_key acc p)[1 := i] := v)"
  shows "held_at acc val q = (held_at acc val p)(i := v)"
  using fetched_select(3) [OF assms(1-3)] fetched_stays [OF assms(1,4,5)] assms(6)
  by (auto simp: held_at_def fun_eq_iff)

context c_type
begin

lemma indexed_setting:
  assumes "(acc, name) \<in> key_table" and "indexed_name name"
  shows "setting (\<lambda>old new. old) (\<lambda>h. run_try (define_key F acc name) (\<lambda>k. run_then (select_key k (at h)) (raw_get F T)))
    (\<lambda>h v. run_try (define_key F acc name) (\<lambda>k. run_then (select_key k (at h)) (\<lambda>k. raw_xchg F T k v)))
    at (\<lambda>h. at h \<in> A) ok (\<lambda>p. value_control F A name T ok val \<and> fetched F acc p) (held_at acc val)"
proof
  fix p h
  assume "value_control F A name T ok val \<and> fetched F acc p" and h: "at h \<in> A"
  then have c: "value_on F (arena_keys F name A) T ok val" and f: "fetched F acc p" by (simp_all add: value_control_def)
  note hit = fetched_select(1) [OF f assms, where i = "at h"] fetched_select(2) [OF f assms, where i = "at h", OF h]
  show "\<exists>q. run_try (define_key F acc name) (\<lambda>k. run_then (select_key k (at h)) (raw_get F T)) p =
      (Done (Inr (held_at acc val p (at h))), q) \<and>
      (value_control F A name T ok val \<and> fetched F acc q) \<and> held_at acc val q = held_at acc val p"
    using value_get [OF c hit(2) fetched_inv [OF f]] fetched_stays [OF f] c
    by (fastforce simp: hit(1) held_at_def value_control_def fun_eq_iff)
  fix v
  assume "ok v"
  from value_xchg [OF c hit(2) fetched_inv [OF f] this] obtain q where
    q: "raw_xchg F T ((cached_key acc p)[1 := at h]) v p = (Done (Inr (held_at acc val p (at h))), q)"
      "lib_inv F (mach q)" "val (mach q) = (val (mach p))((cached_key acc p)[1 := at h] := v)" "caches q = caches p"
    by (auto simp: held_at_def)
  then show "\<exists>q. run_try (define_key F acc name) (\<lambda>k. run_then (select_key k (at h)) (\<lambda>k. raw_xchg F T k v)) p =
      (Done (Inr (held_at acc val p (at h))), q) \<and>
      (value_control F A name T ok val \<and> fetched F acc q) \<and> held_at acc val q = (held_at acc val p)(at h := v)"
    using held_at_update [OF f assms q(4,2,3)] fetched_stays(1) [OF f q(4,2)] c
    by (auto simp: hit(1) value_control_def)
qed

lemma plain_setting:
  assumes "(acc, name) \<in> key_table"
  shows "setting (\<lambda>old new. old) (\<lambda>_. run_try (define_key F acc name) (raw_get F T))
    (\<lambda>_ v. run_try (define_key F acc name) (\<lambda>k. raw_xchg F T k v))
    (\<lambda>_. ()) (\<lambda>_. True) ok (\<lambda>p. plain_control F name T ok val \<and> fetched F acc p) (held_plain acc val)"
proof
  fix p
  assume "plain_control F name T ok val \<and> fetched F acc p"
  then have c: "value_on F {k. resolves F (str_bytes name) k} T ok val" and f: "fetched F acc p"
    by (simp_all add: plain_control_def)
  note hit = fetched_hit [OF f assms]
  have k: "cached_key acc p \<in> {k. resolves F (str_bytes name) k}" using hit(2) by simp
  show "\<exists>q. run_try (define_key F acc name) (raw_get F T) p = (Done (Inr (held_plain acc val p ())), q) \<and>
      (plain_control F name T ok val \<and> fetched F acc q) \<and> held_plain acc val q = held_plain acc val p"
    using value_get [OF c k fetched_inv [OF f]] fetched_stays [OF f] c
    by (fastforce simp: hit(1) held_plain_def plain_control_def fun_eq_iff)
  fix v
  assume "ok v"
  then show "\<exists>q. run_try (define_key F acc name) (\<lambda>k. raw_xchg F T k v) p = (Done (Inr (held_plain acc val p ())), q) \<and>
      (plain_control F name T ok val \<and> fetched F acc q) \<and> held_plain acc val q = (held_plain acc val p)(() := v)"
    using value_xchg [OF c k fetched_inv [OF f], of v] fetched_stays [OF f] c
    by (fastforce simp: hit(1) held_plain_def plain_control_def fun_eq_iff)
qed

end

section \<open>Switches\<close>

text \<open>A boolean control holds a C boolean of the target; \<open>val\<close> is the boolean it stands for.\<close>

definition switch_control :: "'s ffi \<Rightarrow> string \<Rightarrow> ('s machine \<Rightarrow> key \<Rightarrow> bool) \<Rightarrow> bool" where
  "switch_control F name val \<longleftrightarrow>
    (if target_msvc F
     then \<exists>w. plain_control F name u32_repr (\<lambda>c. c = 0 \<or> c = 1) w \<and> val = (\<lambda>m k. decode_bool_msvc (w m k))
     else plain_control F name bool_repr (\<lambda>_. True) val)"

context c_bool
begin

lemma switch_setting:
  assumes "(acc, name) \<in> key_table" and "\<And>b. ok (encode b)"
    and "plain_control F name T ok w" and "fetched F acc p"
  shows "\<exists>q. run_try (define_key F acc name) (\<lambda>k. run_map decode (raw_get F T k)) p =
      (Done (Inr (decode (w (mach p) (cached_key acc p)))), q) \<and> fetched F acc q \<and>
      cached_key acc q = cached_key acc p \<and> w (mach q) = w (mach p)"
    and "\<exists>q. run_try (define_key F acc name) (\<lambda>k. run_map decode (raw_xchg F T k (encode b))) p =
      (Done (Inr (decode (w (mach p) (cached_key acc p)))), q) \<and> fetched F acc q \<and>
      cached_key acc q = cached_key acc p \<and> w (mach q) = (w (mach p))(cached_key acc p := encode b)"
proof -
  have c: "value_on F {k. resolves F (str_bytes name) k} T ok w" using assms(3) by (simp add: plain_control_def)
  note hit = fetched_hit [OF assms(4,1)]
  have k: "cached_key acc p \<in> {k. resolves F (str_bytes name) k}" using hit(2) by simp
  show "\<exists>q. run_try (define_key F acc name) (\<lambda>k. run_map decode (raw_get F T k)) p =
      (Done (Inr (decode (w (mach p) (cached_key acc p)))), q) \<and> fetched F acc q \<and>
      cached_key acc q = cached_key acc p \<and> w (mach q) = w (mach p)"
    using value_get [OF c k fetched_inv [OF assms(4)]] fetched_stays [OF assms(4)]
    by (fastforce simp: hit(1) run_map_def run_then_def)
  show "\<exists>q. run_try (define_key F acc name) (\<lambda>k. run_map decode (raw_xchg F T k (encode b))) p =
      (Done (Inr (decode (w (mach p) (cached_key acc p)))), q) \<and> fetched F acc q \<and>
      cached_key acc q = cached_key acc p \<and> w (mach q) = (w (mach p))(cached_key acc p := encode b)"
    using value_xchg [OF c k fetched_inv [OF assms(4)] assms(2) [of b]] fetched_stays [OF assms(4)]
    by (fastforce simp: hit(1) run_map_def run_then_def)
qed

end

lemma bool_setting:
  assumes "(acc, name) \<in> key_table"
  shows "setting (\<lambda>old new. old) (\<lambda>_. run_try (define_key F acc name) (get_bool F))
    (\<lambda>_ b. run_try (define_key F acc name) (\<lambda>k. xchg_bool F k b))
    (\<lambda>_. ()) (\<lambda>_. True) (\<lambda>_. True) (\<lambda>p. switch_control F name val \<and> fetched F acc p) (held_plain acc val)"
proof
  fix p
  assume p: "switch_control F name val \<and> fetched F acc p"
  have both: "(\<exists>q. run_try (define_key F acc name) (get_bool F) p = (Done (Inr (held_plain acc val p ())), q) \<and>
      fetched F acc q \<and> held_plain acc val q = held_plain acc val p) \<and>
    (\<exists>q. run_try (define_key F acc name) (\<lambda>k. xchg_bool F k b) p = (Done (Inr (held_plain acc val p ())), q) \<and>
      fetched F acc q \<and> held_plain acc val q = (held_plain acc val p)(() := b))" for b
  proof (cases "target_msvc F")
    case True
    with p obtain w where w: "plain_control F name u32_repr (\<lambda>c. c = 0 \<or> c = 1) w"
      and val: "val = (\<lambda>m k. decode_bool_msvc (w m k))" by (auto simp: switch_control_def)
    have ok: "encode_bool_msvc b = 0 \<or> encode_bool_msvc b = 1" for b by (simp add: encode_bool_msvc_def)
    note s = msvc_bool.switch_setting [OF assms, of "\<lambda>c. c = 0 \<or> c = 1" F w p, OF ok w conjunct2 [OF p]]
    show ?thesis
      using True s(1) s(2) [of b] unfolding get_bool_def xchg_bool_def val
      by (fastforce simp: held_plain_def fun_eq_iff msvc_bool.decode_encode)
  next
    case False
    with p have w: "plain_control F name bool_repr (\<lambda>_. True) val" by (simp add: switch_control_def)
    note s = native_bool.switch_setting [OF assms, of "\<lambda>_. True" F val p, OF TrueI w conjunct2 [OF p]]
    show ?thesis
      using False s(1) s(2) [of b] unfolding get_bool_def xchg_bool_def
      by (fastforce simp: held_plain_def fun_eq_iff encode_bool_def decode_bool_def)
  qed
  show "\<exists>q. run_try (define_key F acc name) (get_bool F) p = (Done (Inr (held_plain acc val p ())), q) \<and>
      (switch_control F name val \<and> fetched F acc q) \<and> held_plain acc val q = held_plain acc val p"
    using both [of True] p by blast
  show "\<exists>q. run_try (define_key F acc name) (\<lambda>k. xchg_bool F k b) p = (Done (Inr (held_plain acc val p ())), q) \<and>
      (switch_control F name val \<and> fetched F acc q) \<and> held_plain acc val q = (held_plain acc val p)(() := b)" for b
    using both [of b] p by blast
qed

section \<open>Precedences\<close>

text \<open>
  The precedence of an arena crosses the boundary as a pointer to one of three strings: writing takes the
  precedence of the string pointed to, and reading and writing both answer with a pointer to the string of the
  precedence the control then has, so a write answers with the resulting one. The strings of the program stay
  where they are. The precedences the platform supports satisfy \<open>ok\<close>: without \<^verbatim>\<open>sbrk\<close> that is \<open>Disabled\<close>
  alone. The indices are those of existing arenas and the one that stands for the arenas of the future, whose
  default leaves existing arenas alone. \<open>prec\<close> is the precedence held for a key.
\<close>

definition precedence_control ::
    "'s ffi \<Rightarrow> usize set \<Rightarrow> (dss \<Rightarrow> bool) \<Rightarrow> ('s machine \<Rightarrow> key \<Rightarrow> dss) \<Rightarrow> bool" where
  "precedence_control F A ok prec \<longleftrightarrow> errno_ok F \<and>
    (\<forall>k \<in> arena_keys F ''arena.0.dss'' (insert ALL_ARENAS A). \<forall>m. lib_inv F m \<longrightarrow>
     (\<forall>d. c_str m (dss_as_ptr F d) = Some (dss_bytes d)) \<and>
     (\<exists>ptr m'. c_bymib F (read_call ptr_repr k) m = (Done (value_reply ptr_repr ptr), m') \<and> lib_inv F m' \<and>
        c_str m' ptr = Some (dss_bytes (prec m k)) \<and> prec m' = prec m) \<and>
     (\<forall>new d. ok d \<longrightarrow> c_str m new = Some (dss_bytes d) \<longrightarrow>
       (\<exists>ptr m'. c_bymib F (update_call ptr_repr ptr_repr k new) m = (Done (value_reply ptr_repr ptr), m') \<and>
        lib_inv F m' \<and> c_str m' ptr = Some (dss_bytes d) \<and> prec m' = (prec m)(k := d))))"

lemma dss_from_held:
  assumes "errno_ok F" and "c_str (mach p) ptr = Some (dss_bytes d)"
  shows "dss_from_ptr F ptr p = (Done (Inr d), p)"
proof -
  have "ptr \<noteq> 0" using assms(2) by (auto simp: c_str_def)
  from dss_from_ptr_eq [OF assms(1) this assms(2)] show ?thesis by (cases d) simp_all
qed

text \<open>A handle of one arena, or none for the default of all.\<close>

fun precedence_index :: "arena option \<Rightarrow> usize" where
  "precedence_index (Some a) = a_index a"
| "precedence_index None = ALL_ARENAS"

fun read_precedence :: "'s ffi \<Rightarrow> arena option \<Rightarrow> ('s process, dss ctl_result) comp" where
  "read_precedence F (Some a) = arena_dss F a"
| "read_precedence F None = arenas_dss F"

fun write_precedence :: "'s ffi \<Rightarrow> arena option \<Rightarrow> dss \<Rightarrow> ('s process, dss ctl_result) comp" where
  "write_precedence F (Some a) d = set_dss F a d"
| "write_precedence F None d = arenas_set_dss F d"

lemma precedence_operations:
  "read_precedence F h = run_try (define_key F ''arena_dss'' ''arena.0.dss'')
     (\<lambda>k. run_then (select_key k (precedence_index h)) (\<lambda>k. run_try (raw_get F ptr_repr k) (dss_from_ptr F)))"
  "write_precedence F h d = run_try (define_key F ''arena_dss'' ''arena.0.dss'')
     (\<lambda>k. run_then (select_key k (precedence_index h))
       (\<lambda>k. run_try (raw_xchg F ptr_repr k (dss_as_ptr F d)) (dss_from_ptr F)))"
  by (cases h; simp add: arena_dss_def set_dss_def arenas_dss_def arenas_set_dss_def arena_select_def
      arenas_select_def key_defs)+

lemma precedence_answer:
  assumes "errno_ok F" and "fetched F acc p" and "lib_inv F m'" and "c_str m' ptr = Some (dss_bytes d)"
    and "m p = (Done (Inr ptr), p\<lparr>mach := m', trace := t\<rparr>)"
  shows "run_try m (dss_from_ptr F) p = (Done (Inr d), p\<lparr>mach := m', trace := t\<rparr>)"
    and "fetched F acc (p\<lparr>mach := m', trace := t\<rparr>)"
  using dss_from_held [OF assms(1), of "p\<lparr>mach := m', trace := t\<rparr>" ptr d] assms(3-5)
    fetched_stays(1) [OF assms(2), of "p\<lparr>mach := m', trace := t\<rparr>"]
  by (simp_all add: run_try_eq)

lemma precedence_setting:
  "setting (\<lambda>old new. new) (read_precedence F) (write_precedence F) precedence_index
    (\<lambda>h. precedence_index h \<in> insert ALL_ARENAS A) ok (\<lambda>p. precedence_control F A ok prec \<and> fetched F ''arena_dss'' p) (held_at ''arena_dss'' prec)"
proof
  have tab: "(''arena_dss'', ''arena.0.dss'') \<in> key_table" "indexed_name ''arena.0.dss''" by simp_all
  fix p h
  assume p: "precedence_control F A ok prec \<and> fetched F ''arena_dss'' p"
    and h: "precedence_index h \<in> insert ALL_ARENAS A"
  then have f: "fetched F ''arena_dss'' p" and e: "errno_ok F" by (simp_all add: precedence_control_def)
  note hit = fetched_select(1) [OF f tab, where i = "precedence_index h"] fetched_select(2) [OF f tab h]
  let ?k = "(cached_key ''arena_dss'' p)[1 := precedence_index h]"
  have held: "held_at ''arena_dss'' prec p (precedence_index h) = prec (mach p) ?k" by (simp add: held_at_def)
  from p hit(2) fetched_inv [OF f] have
    own: "c_str (mach p) (dss_as_ptr F d) = Some (dss_bytes d)" and
    rd: "\<exists>ptr m'. c_bymib F (read_call ptr_repr ?k) (mach p) = (Done (value_reply ptr_repr ptr), m') \<and> lib_inv F m' \<and>
      c_str m' ptr = Some (dss_bytes (prec (mach p) ?k)) \<and> prec m' = prec (mach p)" and
    wr: "ok d \<Longrightarrow> c_str (mach p) new = Some (dss_bytes d) \<Longrightarrow>
      \<exists>ptr m'. c_bymib F (update_call ptr_repr ptr_repr ?k new) (mach p) = (Done (value_reply ptr_repr ptr), m') \<and>
      lib_inv F m' \<and> c_str m' ptr = Some (dss_bytes d) \<and> prec m' = (prec (mach p))(?k := d)" for new d
    unfolding precedence_control_def by blast+
  from rd obtain ptr m' where m': "lib_inv F m'" "prec m' = prec (mach p)" and
    c: "c_bymib F (read_call ptr_repr ?k) (mach p) = (Done (value_reply ptr_repr ptr), m')"
      "c_str m' ptr = Some (dss_bytes (prec (mach p) ?k))" by blast
  let ?q = "p\<lparr>mach := m', trace := trace p @ [Call_bymib (read_call ptr_repr ?k)]\<rparr>"
  have "raw_get F ptr_repr ?k p = (Done (Inr ptr), ?q)"
    using c(1) by (auto simp: raw_get_Ok_iff mallctlbymib_def foreign_def u64.delivers_value)
  note r = precedence_answer [where m = "raw_get F ptr_repr ?k", OF e f m'(1) c(2) this]
  have "read_precedence F h p = (Done (Inr (prec (mach p) ?k)), ?q)"
    unfolding precedence_operations hit(1) by (rule r(1))
  moreover have "held_at ''arena_dss'' prec ?q = held_at ''arena_dss'' prec p"
    using m'(2) by (simp add: held_at_def cached_key_def cached_def fun_eq_iff)
  ultimately show "\<exists>q. read_precedence F h p = (Done (Inr (held_at ''arena_dss'' prec p (precedence_index h))), q) \<and>
      (precedence_control F A ok prec \<and> fetched F ''arena_dss'' q) \<and> held_at ''arena_dss'' prec q = held_at ''arena_dss'' prec p"
    using p held r(2) by auto
  fix d
  assume "ok d"
  from wr [OF this own [of d]] obtain ptr m' where m': "lib_inv F m'" "prec m' = (prec (mach p))(?k := d)" and
    c: "c_bymib F (update_call ptr_repr ptr_repr ?k (dss_as_ptr F d)) (mach p) = (Done (value_reply ptr_repr ptr), m')"
      "c_str m' ptr = Some (dss_bytes d)" by blast
  let ?q = "p\<lparr>mach := m', trace := trace p @ [Call_bymib (update_call ptr_repr ptr_repr ?k (dss_as_ptr F d))]\<rparr>"
  have "raw_xchg F ptr_repr ?k (dss_as_ptr F d) p = (Done (Inr ptr), ?q)"
    using c(1) unfolding raw_xchg_def
    by (auto simp: raw_update_Ok_iff mallctlbymib_def foreign_def u64.delivers_value)
  note w = precedence_answer [where m = "raw_xchg F ptr_repr ?k (dss_as_ptr F d)", OF e f m'(1) c(2) this]
  have "write_precedence F h d p = (Done (Inr d), ?q)"
    unfolding precedence_operations hit(1) by (rule w(1))
  moreover have "held_at ''arena_dss'' prec ?q = (held_at ''arena_dss'' prec p)(precedence_index h := d)"
    by (rule held_at_update [OF f tab]) (simp_all add: m')
  ultimately show "\<exists>q. write_precedence F h d p = (Done (Inr d), q) \<and>
      (precedence_control F A ok prec \<and> fetched F ''arena_dss'' q) \<and>
      held_at ''arena_dss'' prec q = (held_at ''arena_dss'' prec p)(precedence_index h := d)"
    using p held w(2) by auto
qed

section \<open>The operations of the program\<close>

lemmas setting_defs = dirty_decay_def set_dirty_decay_def muzzy_decay_def set_muzzy_decay_def
  retain_grow_limit_def set_retain_grow_limit_def arena_select_def tcache_max_def set_tcache_max_def
  arenas_dirty_decay_def arenas_set_dirty_decay_def arenas_muzzy_decay_def arenas_set_muzzy_decay_def
  cache_enable_def is_cache_enabled_def this_prof_enable_def this_is_prof_enabled_def
  prof_enable_def is_prof_enabled_def key_defs

interpretation dirty_decay_setting: setting "\<lambda>old new. old" "dirty_decay F" "set_dirty_decay F" a_index "\<lambda>h. a_index h \<in> A" ok
    "\<lambda>p. value_control F A ''arena.0.dirty_decay_ms'' isize_repr ok val \<and> fetched F ''arena_dirty_decay'' p"
    "held_at ''arena_dirty_decay'' val" for F A ok val
  unfolding setting_defs by (rule u64.indexed_setting) simp_all

interpretation muzzy_decay_setting: setting "\<lambda>old new. old" "muzzy_decay F" "set_muzzy_decay F" a_index "\<lambda>h. a_index h \<in> A" ok
    "\<lambda>p. value_control F A ''arena.0.muzzy_decay_ms'' isize_repr ok val \<and> fetched F ''arena_muzzy_decay'' p"
    "held_at ''arena_muzzy_decay'' val" for F A ok val
  unfolding setting_defs by (rule u64.indexed_setting) simp_all

interpretation retain_grow_limit_setting: setting "\<lambda>old new. old" "retain_grow_limit F" "set_retain_grow_limit F" a_index "\<lambda>h. a_index h \<in> A" ok
    "\<lambda>p. value_control F A ''arena.0.retain_grow_limit'' usize_repr ok val \<and> fetched F ''arena_retain_grow_limit'' p"
    "held_at ''arena_retain_grow_limit'' val" for F A ok val
  unfolding setting_defs by (rule u64.indexed_setting) simp_all

interpretation dss_setting: setting "\<lambda>old new. new" "read_precedence F" "write_precedence F" precedence_index
    "\<lambda>h. precedence_index h \<in> insert ALL_ARENAS A" ok
    "\<lambda>p. precedence_control F A ok prec \<and> fetched F ''arena_dss'' p" "held_at ''arena_dss'' prec" for F A ok prec
  by (rule precedence_setting)

interpretation tcache_max_setting: setting "\<lambda>old new. old" "\<lambda>_. tcache_max F" "\<lambda>_. set_tcache_max F" "\<lambda>_. ()" "\<lambda>_. True" ok
    "\<lambda>p. plain_control F ''thread.tcache.max'' usize_repr ok val \<and> fetched F ''thread_tcache_max'' p"
    "held_plain ''thread_tcache_max'' val" for F ok val
  unfolding setting_defs by (rule u64.plain_setting) simp_all

interpretation default_dirty_decay_setting: setting "\<lambda>old new. old" "\<lambda>_. arenas_dirty_decay F" "\<lambda>_. arenas_set_dirty_decay F" "\<lambda>_. ()" "\<lambda>_. True" ok
    "\<lambda>p. plain_control F ''arenas.dirty_decay_ms'' isize_repr ok val \<and> fetched F ''arenas_dirty_decay'' p"
    "held_plain ''arenas_dirty_decay'' val" for F ok val
  unfolding setting_defs by (rule u64.plain_setting) simp_all

interpretation default_muzzy_decay_setting: setting "\<lambda>old new. old" "\<lambda>_. arenas_muzzy_decay F" "\<lambda>_. arenas_set_muzzy_decay F" "\<lambda>_. ()" "\<lambda>_. True" ok
    "\<lambda>p. plain_control F ''arenas.muzzy_decay_ms'' isize_repr ok val \<and> fetched F ''arenas_muzzy_decay'' p"
    "held_plain ''arenas_muzzy_decay'' val" for F ok val
  unfolding setting_defs by (rule u64.plain_setting) simp_all

interpretation cache_switch: setting "\<lambda>old new. old" "\<lambda>_. is_cache_enabled F" "\<lambda>_. cache_enable F" "\<lambda>_. ()" "\<lambda>_. True" "\<lambda>_. True"
    "\<lambda>p. switch_control F ''thread.tcache.enabled'' val \<and> fetched F ''thread_tcache_enabled'' p"
    "held_plain ''thread_tcache_enabled'' val" for F val
  unfolding setting_defs by (rule bool_setting) simp

interpretation thread_prof_switch: setting "\<lambda>old new. old" "\<lambda>_. this_is_prof_enabled F" "\<lambda>_. this_prof_enable F" "\<lambda>_. ()" "\<lambda>_. True" "\<lambda>_. True"
    "\<lambda>p. switch_control F ''thread.prof.active'' val \<and> fetched F ''thread_prof_active'' p"
    "held_plain ''thread_prof_active'' val" for F val
  unfolding setting_defs by (rule bool_setting) simp

interpretation prof_switch: setting "\<lambda>old new. old" "\<lambda>_. is_prof_enabled F" "\<lambda>_. prof_enable F" "\<lambda>_. ()" "\<lambda>_. True" "\<lambda>_. True"
    "\<lambda>p. switch_control F ''prof.active'' val \<and> fetched F ''prof_active'' p"
    "held_plain ''prof_active'' val" for F val
  unfolding setting_defs by (rule bool_setting) simp

section \<open>Properties\<close>

lemma writes_ok_any [simp]: "writes_ok (\<lambda>_. True) as"
  by (simp add: accesses_ok_def list_all_iff split: access.split)

text \<open>
  C17. The settings of arenas are registers, one per arena. However a program mixes reads and writes of a
  setting through any handles of arenas that exist, every operation succeeds, a read answers with the last
  value written to that arena, and other arenas are not affected. A write of a decay time or of the growth
  limit answers with the value before it; a write of a precedence, of those the platform supports, with the
  resulting one. The index that stands for all arenas has a precedence of its own, the default of future arenas.
\<close>

theorem arena_settings_refine:
  assumes "value_control F A ''arena.0.dirty_decay_ms'' isize_repr ok1 dirty" and "fetched F ''arena_dirty_decay'' p"
    and "accesses_ok (\<lambda>h. a_index h \<in> A) ok1 ds"
    and "value_control F A ''arena.0.muzzy_decay_ms'' isize_repr ok2 muzzy" and "fetched F ''arena_muzzy_decay'' p"
    and "accesses_ok (\<lambda>h. a_index h \<in> A) ok2 ms"
    and "value_control F A ''arena.0.retain_grow_limit'' usize_repr ok3 grow"
    and "fetched F ''arena_retain_grow_limit'' p" and "accesses_ok (\<lambda>h. a_index h \<in> A) ok3 gs"
    and "precedence_control F A ok4 prec" and "fetched F ''arena_dss'' p"
    and "accesses_ok (\<lambda>h. precedence_index h \<in> insert ALL_ARENAS A) ok4 ps"
  shows "answers_as_register (dirty_decay F) (set_dirty_decay F) a_index (held_at ''arena_dirty_decay'' dirty p) ds p \<and>
    answers_as_register (muzzy_decay F) (set_muzzy_decay F) a_index (held_at ''arena_muzzy_decay'' muzzy p) ms p \<and>
    answers_as_register (retain_grow_limit F) (set_retain_grow_limit F) a_index
      (held_at ''arena_retain_grow_limit'' grow p) gs p \<and>
    answers_resulting (read_precedence F) (write_precedence F) precedence_index (held_at ''arena_dss'' prec p) ps p"
  using assms
  by (intro conjI dirty_decay_setting.refines [where A = A and ok = ok1] muzzy_decay_setting.refines [where A = A and ok = ok2]
      retain_grow_limit_setting.refines [where A = A and ok = ok3] dss_setting.refines [where A = A and ok = ok4]) simp_all

text \<open>
  C18. The settings of the process and of the calling thread are registers in the same way: the default decay
  times, the size limit of the thread's cache, and the switches of the cache and of profiling, whichever
  of the two C booleans the target has.
\<close>

theorem process_settings_refine:
  assumes "plain_control F ''thread.tcache.max'' usize_repr ok1 lim" and "fetched F ''thread_tcache_max'' p"
    and "writes_ok ok1 ls"
    and "plain_control F ''arenas.dirty_decay_ms'' isize_repr ok2 dirty" and "fetched F ''arenas_dirty_decay'' p"
    and "writes_ok ok2 ds"
    and "plain_control F ''arenas.muzzy_decay_ms'' isize_repr ok3 muzzy" and "fetched F ''arenas_muzzy_decay'' p"
    and "writes_ok ok3 ms"
    and "switch_control F ''thread.tcache.enabled'' cache" and "fetched F ''thread_tcache_enabled'' p"
    and "switch_control F ''thread.prof.active'' tprof" and "fetched F ''thread_prof_active'' p"
    and "switch_control F ''prof.active'' prof" and "fetched F ''prof_active'' p"
  shows "answers_as_register (\<lambda>_. tcache_max F) (\<lambda>_. set_tcache_max F) (\<lambda>_. ())
      (held_plain ''thread_tcache_max'' lim p) ls p \<and>
    answers_as_register (\<lambda>_. arenas_dirty_decay F) (\<lambda>_. arenas_set_dirty_decay F) (\<lambda>_. ())
      (held_plain ''arenas_dirty_decay'' dirty p) ds p \<and>
    answers_as_register (\<lambda>_. arenas_muzzy_decay F) (\<lambda>_. arenas_set_muzzy_decay F) (\<lambda>_. ())
      (held_plain ''arenas_muzzy_decay'' muzzy p) ms p \<and>
    answers_as_register (\<lambda>_. is_cache_enabled F) (\<lambda>_. cache_enable F) (\<lambda>_. ())
      (held_plain ''thread_tcache_enabled'' cache p) cs p \<and>
    answers_as_register (\<lambda>_. this_is_prof_enabled F) (\<lambda>_. this_prof_enable F) (\<lambda>_. ())
      (held_plain ''thread_prof_active'' tprof p) ts p \<and>
    answers_as_register (\<lambda>_. is_prof_enabled F) (\<lambda>_. prof_enable F) (\<lambda>_. ())
      (held_plain ''prof_active'' prof p) fs p"
  using assms
  by (intro conjI tcache_max_setting.refines [where ok = ok1] default_dirty_decay_setting.refines [where ok = ok2]
      default_muzzy_decay_setting.refines [where ok = ok3] cache_switch.refines thread_prof_switch.refines
      prof_switch.refines) simp_all

section \<open>At an executable library\<close>

text \<open>
  A library with a word for every key, transferred at the width of the operand; for the precedence of an
  arena it keeps a number, hands out the string at its address, and answers a write with the resulting one.
\<close>

definition is_dss :: "key \<Rightarrow> bool" where
  "is_dss k \<longleftrightarrow> length k = 3 \<and> k ! 2 = seg_code (str_bytes ''dss'')"

definition dss_of :: "u64 \<Rightarrow> dss" where
  "dss_of w = (if w = 0 then Disabled else if w = 1 then Primary else Secondary)"

definition string_word :: "byte list \<Rightarrow> u64" where
  "string_word s = (if s = str_bytes ''disabled'' then 0 else if s = str_bytes ''primary'' then 1 else 2)"

definition string_place :: "byte list \<Rightarrow> usize" where
  "string_place s = (if s = str_bytes ''disabled'' @ [0] then 64
     else if s = str_bytes ''primary'' @ [0] then 80 else 96)"

definition cell_bytes :: "nat \<Rightarrow> u64 \<Rightarrow> byte list" where
  "cell_bytes n w = (if n = 1 then [if w = 0 then 0 else 1] else le_enc n (unat w))"

definition cell_word :: "store machine \<Rightarrow> key \<Rightarrow> u64" where
  "cell_word m k = (if is_dss k then string_place (dss_bytes (dss_of (je m k)) @ [0]) else je m k)"

definition cell_write :: "store machine \<Rightarrow> key \<Rightarrow> u64 \<Rightarrow> u64" where
  "cell_write m k w = (if is_dss k then (case c_str m w of Some s \<Rightarrow> string_word s | None \<Rightarrow> je m k) else w)"

definition cell_step :: "mib_call \<Rightarrow> store machine \<Rightarrow> store machine" where
  "cell_step c m = (case newp c of
     None \<Rightarrow> m
   | Some bs \<Rightarrow> m\<lparr>je := (je m)(mib c := cell_write m (mib c) (of_nat (le_dec bs)))\<rparr>)"

definition cell_bymib :: "mib_call \<Rightarrow> (store machine, mib_reply) comp" where
  "cell_bymib c = (\<lambda>m.
     (Done \<lparr>status = 0,
        out = (case oldp c of None \<Rightarrow> [] | Some cells \<Rightarrow> map Some (cell_bytes (length cells)
          (cell_word (if is_dss (mib c) then cell_step c m else m) (mib c)))),
        outlen = (case oldlen c of None \<Rightarrow> 0 | Some n \<Rightarrow> n)\<rparr>,
      cell_step c m))"

definition cell_inv :: "store machine \<Rightarrow> bool" where
  "cell_inv m \<longleftrightarrow> (\<forall>d. c_str m (string_place (dss_bytes d @ [0])) = Some (dss_bytes d))"

definition cell_ffi :: "store ffi" where
  "cell_ffi = bare_ffi\<lparr>c_nametomib := ref_nametomib, c_bymib := cell_bymib, static_str := string_place,
     lib_inv := cell_inv\<rparr>"

definition cell_start :: "store process" where
  "cell_start = \<lparr>mach = \<lparr>bytes_at = [64 \<mapsto> str_bytes ''disabled'' @ [0], 80 \<mapsto> str_bytes ''primary'' @ [0],
       96 \<mapsto> str_bytes ''secondary'' @ [0]], tables_at = (\<lambda>_. None), je = (\<lambda>_. 0)\<rparr>,
     caches = (\<lambda>_. cache_new), trace = []\<rparr>"

lemma cell_simps [simp]:
  "c_nametomib cell_ffi = ref_nametomib" "c_bymib cell_ffi = cell_bymib" "lib_inv cell_ffi = cell_inv"
  "static_str cell_ffi = string_place" "errno cell_ffi = linux_errno" "target_msvc cell_ffi = False"
  by (simp_all add: cell_ffi_def bare_ffi_def)

lemma c_str_je [simp]: "c_str (m\<lparr>je := x\<rparr>) ptr = c_str m ptr"
  by (simp add: c_str_def)

lemma cell_inv_je [simp]: "cell_inv (m\<lparr>je := x\<rparr>) = cell_inv m"
  by (simp add: cell_inv_def)

lemma cell_start_ok: "keys_ok cell_ffi cell_start"
proof (rule keys_ok_startup)
  have "c_str (mach cell_start) (string_place (dss_bytes d @ [0])) = Some (dss_bytes d)" for d
    by (cases d) (simp_all add: c_str_def cell_start_def string_place_def str_bytes_def)
  then show "lib_inv cell_ffi (mach cell_start)" by (simp add: cell_inv_def)
qed (simp_all add: cell_start_def)

lemma cell_value:
  assumes "\<forall>k \<in> K. \<not> is_dss k"
  shows "value_on cell_ffi K u64_repr (\<lambda>_. True) je" and "value_on cell_ffi K bool_repr (\<lambda>_. True) (\<lambda>m k. je m k \<noteq> 0)"
  using assms unfolding value_on_def cell_simps
  by (auto simp: cell_bymib_def cell_step_def cell_word_def cell_write_def cell_bytes_def value_reply_def read_call_def update_call_def
      u64_repr_def bool_repr_def le_dec_enc fun_eq_iff)

lemma dss_of_string_word: "dss_of (string_word (dss_bytes d)) = d"
  by (cases d) (simp_all add: dss_of_def string_word_def str_bytes_def)

lemma cell_keys:
  assumes "(acc, name) \<in> key_table" and "k \<in> arena_keys cell_ffi name A \<or> resolves cell_ffi (str_bytes name) k"
  shows "\<exists>k'. k' = map seg_code (split_dot (str_bytes name)) \<and> (k = k' \<or> (\<exists>i. k = k'[1 := i]))"
proof -
  have "\<not> name_rejected (str_bytes name)"
    using assms(1) builtin_name_valid by (simp add: key_table_def)
  then show ?thesis
    using assms(2) translating_resolves [of cell_ffi "str_bytes name"] by (auto simp: arena_keys_def)
qed

lemma cell_precedence: "precedence_control cell_ffi A (\<lambda>_. True) (\<lambda>m k. dss_of (je m k))"
  unfolding precedence_control_def cell_simps
proof (intro conjI ballI allI impI)
  show "errno_ok cell_ffi" using linux_errno_ok by (simp add: errno_ok_def)
  fix k and m :: "store machine"
  assume k: "k \<in> arena_keys cell_ffi ''arena.0.dss'' (insert ALL_ARENAS A)" and inv: "cell_inv m"
  have dss: "is_dss k"
    using cell_keys [of "''arena_dss''" "''arena.0.dss''" k "insert ALL_ARENAS A"] k
    by (auto simp: is_dss_def str_bytes_def)
  let ?ptr = "string_place (dss_bytes (dss_of (je m k)) @ [0])"
  have str: "c_str m (string_place (dss_bytes d @ [0])) = Some (dss_bytes d)" for d
    using inv by (simp add: cell_inv_def)
  then show "c_str m (dss_as_ptr cell_ffi d) = Some (dss_bytes d)" for d by (simp add: dss_as_ptr_def)
  have "cell_bymib (read_call ptr_repr k) m = (Done (value_reply ptr_repr ?ptr), m)"
    using dss by (simp add: cell_bymib_def cell_step_def cell_word_def cell_bytes_def value_reply_def read_call_def u64_repr_def)
  with inv str show "\<exists>ptr m'. cell_bymib (read_call ptr_repr k) m = (Done (value_reply ptr_repr ptr), m') \<and> cell_inv m' \<and>
      c_str m' ptr = Some (dss_bytes (dss_of (je m k))) \<and> (\<lambda>k. dss_of (je m' k)) = (\<lambda>k. dss_of (je m k))"
    by blast
  fix new d
  assume new: "c_str m new = Some (dss_bytes d)"
  let ?m = "m\<lparr>je := (je m)(k := string_word (dss_bytes d))\<rparr>" and ?new = "string_place (dss_bytes d @ [0])"
  have "cell_bymib (update_call ptr_repr ptr_repr k new) m = (Done (value_reply ptr_repr ?new), ?m)"
    using dss new
    by (simp add: cell_bymib_def cell_step_def cell_word_def cell_write_def cell_bytes_def value_reply_def update_call_def
        u64_repr_def le_dec_enc dss_of_string_word)
  moreover have "c_str ?m ?new = Some (dss_bytes d)"
    using str [of d] by simp
  moreover have "(\<lambda>k. dss_of (je ?m k)) = (\<lambda>k. dss_of (je m k))(k := d)"
    by (auto simp: dss_of_string_word)
  moreover have "cell_inv ?m" using inv by simp
  ultimately show "\<exists>ptr m'. cell_bymib (update_call ptr_repr ptr_repr k new) m = (Done (value_reply ptr_repr ptr), m') \<and>
      cell_inv m' \<and> c_str m' ptr = Some (dss_bytes d) \<and>
      (\<lambda>k. dss_of (je m' k)) = (\<lambda>k. dss_of (je m k))(k := d)"
    by blast
qed

text \<open>No key of another setting is one of a precedence.\<close>

lemma cell_no_dss:
  assumes "(acc, name) \<in> key_table"
    and "segments (str_bytes name) \<noteq> 3 \<or> seg_code (split_dot (str_bytes name) ! 2) \<noteq> seg_code (str_bytes ''dss'')"
    and "k \<in> arena_keys cell_ffi name A \<or> resolves cell_ffi (str_bytes name) k"
  shows "\<not> is_dss k"
  using cell_keys [OF assms(1,3)] assms(2) by (auto simp: is_dss_def segments_def)

lemma cell_control:
  assumes "(acc, name) \<in> key_table"
    and "segments (str_bytes name) \<noteq> 3 \<or> seg_code (split_dot (str_bytes name) ! 2) \<noteq> seg_code (str_bytes ''dss'')"
  shows "value_control cell_ffi A name u64_repr (\<lambda>_. True) je" and "plain_control cell_ffi name u64_repr (\<lambda>_. True) je"
    and "switch_control cell_ffi name (\<lambda>m k. je m k \<noteq> 0)"
  using cell_no_dss [OF assms] unfolding switch_control_def cell_simps if_False value_control_def plain_control_def
  by (auto intro!: cell_value)

text \<open>Every accessor can be given its key, one after the other.\<close>

lemma cell_fetch_all:
  "set accs \<subseteq> key_table \<Longrightarrow>
    \<exists>p. keys_ok cell_ffi p \<and> (\<forall>(acc, name) \<in> set accs. fetched cell_ffi acc p) \<and> mach p = mach cell_start"
proof (induction accs)
  case Nil
  then show ?case using cell_start_ok by auto
next
  case (Cons a accs)
  then obtain p where p: "keys_ok cell_ffi p" "\<forall>(acc, name) \<in> set accs. fetched cell_ffi acc p" "mach p = mach cell_start"
    by auto
  from Cons.prems obtain acc name where a: "a = (acc, name)" "(acc, name) \<in> key_table" by (cases a) auto
  obtain k q where q: "keys_ok cell_ffi q" "cached acc q = Some k" "mach q = mach p"
    "\<forall>acc'. acc' \<noteq> acc \<longrightarrow> cached acc' q = cached acc' p"
    using translating_fetch [OF _ p(1) a(2)] by auto
  have "fetched cell_ffi acc' q" if "fetched cell_ffi acc' p" for acc'
    using that q by (cases "acc' = acc") (auto simp: fetched_def)
  then have "\<forall>(acc', name) \<in> set (a # accs). fetched cell_ffi acc' q"
    using p(2) a(1) q(1,2) by (auto simp: fetched_def)
  with p(3) q(1,3) show ?case by (intro exI [of _ q]) simp
qed

text \<open>One program over each kind of setting, with the answers computed from the registers.\<close>

theorem arena_settings_refine_witness:
  "\<exists>p q r. perform (dirty_decay cell_ffi) (set_dirty_decay cell_ffi)
      [Write \<lparr>a_index = 7, a_owned = True\<rparr> 5000, Write \<lparr>a_index = 8, a_owned = True\<rparr> 9,
       Read \<lparr>a_index = 7, a_owned = False\<rparr>] p = (Done (map Inr [0, 0, 5000]), q) \<and>
    perform (read_precedence cell_ffi) (write_precedence cell_ffi)
      [Write (Some \<lparr>a_index = 7, a_owned = True\<rparr>) Secondary, Read None, Write None Primary,
       Read (Some \<lparr>a_index = 7, a_owned = False\<rparr>)] p =
      (Done (map Inr [Secondary, Disabled, Primary, Secondary]), r)"
proof -
  obtain p where f: "fetched cell_ffi ''arena_dirty_decay'' p" "fetched cell_ffi ''arena_muzzy_decay'' p"
    "fetched cell_ffi ''arena_retain_grow_limit'' p" "fetched cell_ffi ''arena_dss'' p" and
    m: "mach p = mach cell_start"
    using cell_fetch_all [of "[(''arena_dirty_decay'', ''arena.0.dirty_decay_ms''),
      (''arena_muzzy_decay'', ''arena.0.muzzy_decay_ms''),
      (''arena_retain_grow_limit'', ''arena.0.retain_grow_limit''), (''arena_dss'', ''arena.0.dss'')]"] by auto
  have c: "value_control cell_ffi {7, 8} ''arena.0.dirty_decay_ms'' u64_repr (\<lambda>_. True) je"
    "value_control cell_ffi {7, 8} ''arena.0.muzzy_decay_ms'' u64_repr (\<lambda>_. True) je"
    "value_control cell_ffi {7, 8} ''arena.0.retain_grow_limit'' u64_repr (\<lambda>_. True) je"
    by (rule cell_control(1) [of "''arena_dirty_decay''"] cell_control(1) [of "''arena_muzzy_decay''"]
          cell_control(1) [of "''arena_retain_grow_limit''"], simp, simp add: str_bytes_def seg_code_def)+
  have zero: "je (mach p) = (\<lambda>_. 0)" using m by (simp add: cell_start_def)
  let ?ds = "[Write \<lparr>a_index = 7, a_owned = True\<rparr> 5000, Write \<lparr>a_index = 8, a_owned = True\<rparr> 9,
      Read \<lparr>a_index = 7, a_owned = False\<rparr>] :: (arena, u64) access list"
  let ?ps = "[Write (Some \<lparr>a_index = 7, a_owned = True\<rparr>) Secondary, Read None, Write None Primary,
      Read (Some \<lparr>a_index = 7, a_owned = False\<rparr>)] :: (arena option, dss) access list"
  have ds: "register a_index (held_at ''arena_dirty_decay'' je p) ?ds = [0, 0, 5000]"
    by (simp add: held_at_def zero)
  have ps: "exchanged (\<lambda>old new. new) precedence_index (held_at ''arena_dss'' (\<lambda>m k. dss_of (je m k)) p) ?ps =
      [Secondary, Disabled, Primary, Secondary]"
    by (simp add: held_at_def zero dss_of_def ALL_ARENAS_def)
  have ok: "accesses_ok (\<lambda>h. a_index h \<in> {7, 8}) (\<lambda>_. True) ?ds" "accesses_ok (\<lambda>h. a_index h \<in> {7, 8}) (\<lambda>_. True) []"
    "accesses_ok (\<lambda>h. precedence_index h \<in> insert ALL_ARENAS {7, 8}) (\<lambda>_. True) ?ps"
    by (simp_all add: accesses_ok_def)
  from arena_settings_refine [OF c(1) f(1) ok(1) c(2) f(2) ok(2) c(3) f(3) ok(2) cell_precedence f(4) ok(3)] show ?thesis
    unfolding answers_def ds ps by blast
qed

theorem process_settings_refine_witness:
  "\<exists>p q r. perform (\<lambda>_. tcache_max cell_ffi) (\<lambda>_. set_tcache_max cell_ffi) [Write () 65536, Read ()] p =
      (Done (map Inr [0, 65536]), q) \<and>
    perform (\<lambda>_. is_cache_enabled cell_ffi) (\<lambda>_. cache_enable cell_ffi) [Write () True, Read (), Write () False] p =
      (Done (map Inr [False, True, True]), r)"
proof -
  define accs where "accs = [(''thread_tcache_max'', ''thread.tcache.max''),
    (''arenas_dirty_decay'', ''arenas.dirty_decay_ms''), (''arenas_muzzy_decay'', ''arenas.muzzy_decay_ms''),
    (''thread_tcache_enabled'', ''thread.tcache.enabled''), (''thread_prof_active'', ''thread.prof.active''),
    (''prof_active'', ''prof.active'')]"
  have tab: "set accs \<subseteq> key_table" by (simp add: accs_def)
  then obtain p where f: "\<forall>(acc, name) \<in> set accs. fetched cell_ffi acc p" and m: "mach p = mach cell_start"
    using cell_fetch_all [of accs] by auto
  have n: "segments (str_bytes name) \<noteq> 3 \<or> seg_code (split_dot (str_bytes name) ! 2) \<noteq> seg_code (str_bytes ''dss'')"
    if "(acc, name) \<in> set accs" for acc name
    using that unfolding accs_def by (auto simp: str_bytes_def seg_code_def segments_def)
  have c: "plain_control cell_ffi name u64_repr (\<lambda>_. True) je" "switch_control cell_ffi name (\<lambda>m k. je m k \<noteq> 0)"
    "fetched cell_ffi acc p" if "(acc, name) \<in> set accs" for acc name
    using cell_control(2,3) [OF _ n [OF that]] f tab that by auto
  have zero: "je (mach p) = (\<lambda>_. 0)" using m by (simp add: cell_start_def)
  let ?ls = "[Write () 65536, Read ()] :: (unit, u64) access list"
  let ?cs = "[Write () True, Read (), Write () False]"
  have ls: "register (\<lambda>_. ()) (held_plain ''thread_tcache_max'' je p) ?ls = [0, 65536]"
    by (simp add: held_plain_def zero)
  have cs: "register (\<lambda>_. ()) (held_plain ''thread_tcache_enabled'' (\<lambda>m k. je m k \<noteq> 0) p) ?cs = [False, True, True]"
    by (simp add: held_plain_def zero)
  have mem: "(''thread_tcache_max'', ''thread.tcache.max'') \<in> set accs" 
    "(''arenas_dirty_decay'', ''arenas.dirty_decay_ms'') \<in> set accs" "(''arenas_muzzy_decay'', ''arenas.muzzy_decay_ms'') \<in> set accs"
    "(''thread_tcache_enabled'', ''thread.tcache.enabled'') \<in> set accs" "(''thread_prof_active'', ''thread.prof.active'') \<in> set accs"
    "(''prof_active'', ''prof.active'') \<in> set accs"
    by (simp_all add: accs_def)
  from process_settings_refine [OF c(1,3) [OF mem(1)] writes_ok_any c(1,3) [OF mem(2)] writes_ok_any
      c(1,3) [OF mem(3)] writes_ok_any c(2,3) [OF mem(4)] c(2,3) [OF mem(5)] c(2,3) [OF mem(6)], of ?ls _ _ ?cs]
  show ?thesis
    unfolding answers_def ls cs by blast
qed

end
