(* ===== verification/Lifecycle.thy ===== *)
theory Lifecycle
  imports Arena Thread_Cache
begin

text \<open>
  The life of the objects behind the handles of \<^verbatim>\<open>arena.rs\<close> and \<^verbatim>\<open>thread/cache.rs\<close> over whole runs of
  a program: any sequence of creations, destructions, drops, releases and adoptions of indices and of
  other calls that neither create nor destroy. A program is a step relation over the process, the
  handles in scope, the indices released and not yet adopted, and, as ghost, the objects that no handle
  can reach any more.

  The library's account of the objects that exist is an observation \<open>alive\<close> of the machine; what its
  documentation says of creation and destruction is \<open>arena_library\<close> and \<open>tcache_library\<close>.

  Shown here: ownership is conserved. At any point of any run the objects that exist are those from
  before the run, those of the owning handles, the released ones and the unreachable ones, each exactly
  once. So nothing is destroyed twice, nobody else's object is destroyed, and an owning handle is never
  dangling.
\<close>

section \<open>Conservation\<close>

text \<open>
  The objects alive are those of the environment, those owned or released, and those lost, without
  overlap.
\<close>

definition conserved :: "usize set \<Rightarrow> usize set \<Rightarrow> usize list \<Rightarrow> usize list \<Rightarrow> usize set \<Rightarrow> bool" where
  "conserved base now own loose lost \<longleftrightarrow>
     now = base \<union> set own \<union> set loose \<union> lost \<and> distinct (own @ loose) \<and>
     base \<inter> (set own \<union> set loose) = {} \<and> lost \<inter> (base \<union> set own \<union> set loose) = {}"

lemma conserved_born: "conserved base now own loose lost \<Longrightarrow> i \<notin> now \<Longrightarrow>
    conserved base (insert i now) (i # own) loose lost"
  by (auto simp: conserved_def)

lemma conserved_stillborn: "conserved base now own loose lost \<Longrightarrow> now \<subseteq> now' \<Longrightarrow>
    conserved base now' own loose (lost \<union> (now' - now))"
  by (auto simp: conserved_def)

lemma conserved_buried: "conserved base now (own1 @ i # own2) loose lost \<Longrightarrow>
    conserved base (now - {i}) (own1 @ own2) loose lost"
  by (auto simp: conserved_def)

lemma conserved_leaked: "conserved base now (own1 @ i # own2) loose lost \<Longrightarrow>
    conserved base now (own1 @ own2) loose (insert i lost)"
  by (auto simp: conserved_def)

lemma conserved_released: "conserved base now (own1 @ i # own2) loose lost \<Longrightarrow>
    conserved base now (own1 @ own2) (i # loose) lost"
  by (auto simp: conserved_def)

lemma conserved_adopted: "conserved base now own loose lost \<Longrightarrow> i \<in> set loose \<Longrightarrow>
    conserved base now (i # own) (remove1 i loose) lost"
  by (auto simp: conserved_def)

section \<open>Handles that end\<close>

text \<open>The indices of the owning handles among those in scope.\<close>

definition owned_by :: "('h \<Rightarrow> bool) \<Rightarrow> ('h \<Rightarrow> usize) \<Rightarrow> 'h list \<Rightarrow> usize list" where
  "owned_by owned index hs = map index (filter owned hs)"

lemma owned_by_simps [simp]:
  "owned_by owned index [] = []"
  "owned_by owned index (h # hs) = (if owned h then [index h] else []) @ owned_by owned index hs"
  "owned_by owned index (hs @ hs') = owned_by owned index hs @ owned_by owned index hs'"
  by (simp_all add: owned_by_def)

text \<open>
  The contract of destruction towards the objects that exist: a success removes the object of the
  handle, a failure nothing. It extends the ownership protocol, and every client lemma is proved here.
\<close>

locale handle_life = owning_handle destroy dropped owned
  for destroy :: "'h \<Rightarrow> ('p, unit ctl_result \<times> 'h) comp"
    and dropped :: "'h \<Rightarrow> ('p, unit) comp" and owned :: "'h \<Rightarrow> bool" +
  fixes good :: "'p \<Rightarrow> bool" and now :: "'p \<Rightarrow> usize set" and index :: "'h \<Rightarrow> usize"
  assumes buried: "good p \<Longrightarrow> owned h \<Longrightarrow> destroy h p = (Done (Inr u, h'), q) \<Longrightarrow>
      good q \<and> now q = now p - {index h}"
    and spared: "good p \<Longrightarrow> owned h \<Longrightarrow> destroy h p = (Done (Inl e, h'), q) \<Longrightarrow> good q \<and> now q = now p"
begin

abbreviation balance :: "usize set \<Rightarrow> 'p \<Rightarrow> 'h list \<Rightarrow> usize list \<Rightarrow> usize set \<Rightarrow> bool" where
  "balance base p hs loose lost \<equiv> good p \<and> conserved base (now p) (owned_by owned index hs) loose lost"

text \<open>An attempt through a handle in scope: after a success the object is gone with the handle, after
  a failure nothing has changed.\<close>

lemma balance_destroy:
  assumes "balance base p (hs @ h # hs') loose lost" and "destroy h p = (Done (r, h'), q)"
  shows "case r of
      Inr _ \<Rightarrow> balance base q (hs @ hs') loose lost
    | Inl _ \<Rightarrow> h' = h \<and> balance base q (hs @ h # hs') loose lost"
proof (cases "owned h")
  case False
  with refused [OF _ assms(2)] assms(1) show ?thesis by (auto split: sum.splits)
next
  case True
  show ?thesis
  proof (cases r)
    case (Inl e)
    then show ?thesis
      using spared [of p h e h' q] retained [of h p e h' q] True assms by simp
  next
    case (Inr u)
    then have "good q" "now q = now p - {index h}"
      using buried [of p h u h' q] True assms by simp_all
    then show ?thesis
      using Inr True assms(1) conserved_buried [of base "now p" "owned_by owned index hs" "index h"] by simp
  qed
qed

text \<open>A handle that goes out of scope takes its object with it, unless the library refuses: then the
  object is lost.\<close>

lemma balance_drop:
  assumes "balance base p (hs @ h # hs') loose lost" and "dropped h p = (Done (), q)"
  shows "balance base q (hs @ hs') loose (lost \<union> (if owned h then now q \<inter> {index h} else {}))"
proof (cases "owned h")
  case False
  then show ?thesis using assms drop_other [OF False] by simp
next
  case True
  then obtain r h' where d: "destroy h p = (Done (r, h'), q)"
    using assms(2) drop_owned [OF True] by (auto simp: run_then_Done_iff)
  show ?thesis
  proof (cases r)
    case (Inl e)
    then have "good q" "now q = now p" using spared [of p h e h' q] True assms(1) d by simp_all
    moreover have "index h \<in> now p" using True assms(1) by (auto simp: conserved_def)
    ultimately show ?thesis
      using True assms(1) conserved_leaked [of base "now p" "owned_by owned index hs" "index h"] by simp
  next
    case (Inr u)
    then have "now q = now p - {index h}" using buried [of p h u h' q] True assms(1) d by simp
    then show ?thesis using balance_destroy [OF assms(1) d] Inr by simp
  qed
qed

text \<open>An owning handle in scope is not dangling, and it is the only one of its object.\<close>

lemma balance_owner:
  assumes "balance base p (hs @ h # hs') loose lost" and "owned h"
  shows "index h \<in> now p - base" and "index h \<notin> set (owned_by owned index (hs @ hs'))"
    and "index h \<notin> set loose"
  using assms by (auto simp: conserved_def)

lemma balance_view:
  "balance base p hs loose lost \<Longrightarrow> \<not> owned h \<Longrightarrow> balance base p (h # hs) loose lost"
  by simp

end

section \<open>Creation\<close>

text \<open>
  A creation: success yields an owning handle of an object that did not exist, failure no handle, with
  at most a new object that nobody can reach.
\<close>

definition creates :: "('p \<Rightarrow> bool) \<Rightarrow> ('p \<Rightarrow> usize set) \<Rightarrow> ('h \<Rightarrow> bool) \<Rightarrow> ('h \<Rightarrow> usize)
    \<Rightarrow> ('p, 'h ctl_result) comp \<Rightarrow> bool" where
  "creates good now owned index m \<longleftrightarrow> (\<forall>p r q. good p \<longrightarrow> m p = (Done r, q) \<longrightarrow> good q \<and> (case r of
      Inr h \<Rightarrow> owned h \<and> index h \<notin> now p \<and> now q = insert (index h) (now p)
    | Inl _ \<Rightarrow> now p \<subseteq> now q))"

text \<open>Fallible steps before the creation that leave the objects alone.\<close>

lemma run_tryE:
  assumes "run_try m f p = (Done r, q)"
  obtains (stopped) e where "r = Inl e" "m p = (Done (Inl e), q)"
  | (went_on) x u where "m p = (Done (Inr x), u)" "f x u = (Done r, q)"
  using assms by (auto simp: run_try_eq split: prod.splits outcome.splits sum.splits)

lemma creates_after:
  assumes "\<And>p r q. good p \<Longrightarrow> m p = (Done r, q) \<Longrightarrow> good q \<and> now q = now p \<and> (\<forall>k. r = Inr k \<longrightarrow> K k)"
    and "\<And>k. K k \<Longrightarrow> creates good now owned index (f k)"
  shows "creates good now owned index (run_try m f)"
  unfolding creates_def
proof (intro allI impI)
  fix p r q
  assume p: "good p" and "run_try m f p = (Done r, q)"
  from this(2) show "good q \<and> (case r of
      Inr h \<Rightarrow> owned h \<and> index h \<notin> now p \<and> now q = insert (index h) (now p)
    | Inl _ \<Rightarrow> now p \<subseteq> now q)"
  proof (cases rule: run_tryE)
    case (stopped e)
    with assms(1) [OF p] show ?thesis by fastforce
  next
    case (went_on k u)
    with assms(1) [OF p] have u: "good u" "now u = now p" "K k" by fastforce+
    from assms(2) [OF u(3), unfolded creates_def, rule_format, OF u(1) went_on(2)] u(2)
    show ?thesis by (cases r) simp_all
  qed
qed

context handle_life
begin

lemma balance_create:
  assumes "creates good now owned index m" and "balance base p hs loose lost" and "m p = (Done (Inr h), q)"
  shows "balance base q (h # hs) loose lost"
proof -
  have "good q \<and> owned h \<and> index h \<notin> now p \<and> now q = insert (index h) (now p)"
    using assms unfolding creates_def by fastforce
  then show ?thesis using assms(2) conserved_born by simp
qed

lemma balance_create_failed:
  assumes "creates good now owned index m" and "balance base p hs loose lost" and "m p = (Done (Inl e), q)"
  shows "balance base q hs loose (lost \<union> (now q - now p))"
proof -
  have "good q \<and> now p \<subseteq> now q"
    using assms unfolding creates_def by fastforce
  then show ?thesis using assms(2) conserved_stillborn by blast
qed

end

section \<open>What the library says of its objects\<close>

text \<open>Calls that create an object, and calls that destroy the one with a given index.\<close>

definition births :: "'s ffi \<Rightarrow> ('s machine \<Rightarrow> usize set) \<Rightarrow> mib_call \<Rightarrow> bool" where
  "births F alive c \<longleftrightarrow> (\<forall>m rep m'. lib_inv F m \<longrightarrow> c_bymib F c m = (Done rep, m') \<longrightarrow> lib_inv F m' \<and>
     (if status rep = 0
      then \<exists>i. delivers u32_repr rep i \<and> ucast i \<notin> alive m \<and> alive m' = insert (ucast i) (alive m)
      else alive m' = alive m))"

definition buries :: "'s ffi \<Rightarrow> ('s machine \<Rightarrow> usize set) \<Rightarrow> mib_call \<Rightarrow> usize \<Rightarrow> bool" where
  "buries F alive c i \<longleftrightarrow> (\<forall>m rep m'. lib_inv F m \<longrightarrow> c_bymib F c m = (Done rep, m') \<longrightarrow>
     lib_inv F m' \<and> alive m' = (if status rep = 0 then alive m - {i} else alive m))"

definition translation_keeps :: "'s ffi \<Rightarrow> ('s machine \<Rightarrow> usize set) \<Rightarrow> bool" where
  "translation_keeps F alive \<longleftrightarrow> (\<forall>n c m r m'. c_nametomib F n c m = (r, m') \<longrightarrow> alive m' = alive m)"

definition arena_library :: "'s ffi \<Rightarrow> ('s machine \<Rightarrow> usize set) \<Rightarrow> bool" where
  "arena_library F alive \<longleftrightarrow> lib_ok F \<and> translation_keeps F alive \<and>
     (\<forall>k. resolves F (str_bytes ''arenas.create'') k \<longrightarrow> births F alive (read_call u32_repr k) \<and>
        (\<forall>hooks. births F alive (update_call ptr_repr u32_repr k hooks))) \<and>
     (\<forall>k i. resolves F (str_bytes ''arena.0.destroy'') k \<longrightarrow> 1 < length k \<longrightarrow>
        buries F alive (notify_call (k[1 := i])) i)"

definition tcache_library :: "'s ffi \<Rightarrow> ('s machine \<Rightarrow> usize set) \<Rightarrow> bool" where
  "tcache_library F alive \<longleftrightarrow> lib_ok F \<and> translation_keeps F alive \<and>
     (\<forall>k. resolves F (str_bytes ''tcache.create'') k \<longrightarrow> births F alive (read_call u32_repr k)) \<and>
     (\<forall>k i. resolves F (str_bytes ''tcache.destroy'') k \<longrightarrow> buries F alive (write_call u32_repr k i) (ucast i))"

text \<open>The states in which the contracts apply, and the objects of a process.\<close>

definition arena_good :: "'s ffi \<Rightarrow> ('s machine \<Rightarrow> usize set) \<Rightarrow> 's process \<Rightarrow> bool" where
  "arena_good F alive p \<longleftrightarrow> arena_library F alive \<and> keys_ok F p"

definition tcache_good :: "'s ffi \<Rightarrow> ('s machine \<Rightarrow> usize set) \<Rightarrow> 's process \<Rightarrow> bool" where
  "tcache_good F alive p \<longleftrightarrow> tcache_library F alive \<and> keys_ok F p"

definition objects :: "('s machine \<Rightarrow> usize set) \<Rightarrow> 's process \<Rightarrow> usize set" where
  "objects alive p = alive (mach p)"

section \<open>From calls to operations\<close>

lemma mallctlbymib_keys_ok:
  assumes "mallctlbymib F c p = (Done rep, q)" and "keys_ok F p" and "lib_inv F (mach q)"
  shows "keys_ok F q"
proof -
  have "caches q = caches p" using assms(1) by (auto simp: mallctlbymib_def foreign_Done_iff)
  then show ?thesis using assms(2,3) caches_ok_caches [of q p F] by (simp add: keys_ok_def)
qed

lemma fail_state: "fail (invalid_argument F) p = (x, q) \<Longrightarrow> q = p"
  by (auto simp: fail_def invalid_argument_def from_code_def split: if_splits)

lemma set_len_state: "set_len slots n p = (x, q) \<Longrightarrow> q = p"
  by (auto simp: set_len_def split: if_splits option.splits)

lemma mibs_keeps:
  assumes "translation_keeps F alive" and "mibs F n p = (x, u)"
  shows "objects alive u = objects alive p"
proof (cases "name_rejected n")
  case True
  with assms(2) have "u = p" by (auto simp: mibs_def dest: fail_state)
  then show ?thesis by simp
next
  case False
  obtain y v where call: "mallctlnametomib F (name_buf n) (of_nat KEY_SEGS) p = (y, v)" by fastforce
  obtain z m where c: "c_nametomib F (name_buf n) (of_nat KEY_SEGS) (mach p) = (z, m)" by fastforce
  with call have "mach v = m"
    unfolding mallctlnametomib_def foreign_def by (auto simp del: split_paired_All)
  moreover have "alive m = alive (mach p)"
    by (rule assms(1) [unfolded translation_keeps_def, rule_format, OF c])
  ultimately have v: "objects alive v = objects alive p" by (simp add: objects_def)
  have "u = v"
  proof (cases y)
    case (Done t)
    obtain st slots len where t: "t = (st, slots, len)" by (cases t)
    obtain w where w: "into_result st v = (Done w, v)" using into_result_Done [of st v] by auto
    have run: "run_try (into_result st) (\<lambda>_. if unat len \<noteq> segments n \<or> KEY_SEGS < unat len
        then fail (invalid_argument F) else set_len slots (unat len)) v = (x, u)"
      using assms(2) False call Done t by (simp add: mibs_def run_then_def)
    show ?thesis
    proof (cases w)
      case (Inr a)
      then have "(if unat len \<noteq> segments n \<or> KEY_SEGS < unat len
          then fail (invalid_argument F) else set_len slots (unat len)) v = (x, u)"
        using run w by (simp add: run_try_eq)
      then show ?thesis by (auto dest: fail_state set_len_state split: if_splits)
    qed (use run w in \<open>simp add: run_try_eq\<close>)
  qed (use assms(2) False call in \<open>simp_all add: mibs_def run_then_def\<close>)
  with v show ?thesis by simp
qed

lemma define_key_keeps:
  assumes "translation_keeps F alive" and "keys_ok F p" and "(acc, name) \<in> key_table"
    and "define_key F acc name p = (r, q)"
  shows "objects alive q = objects alive p"
proof -
  have wf: "cache_wf_at acc (str_bytes name) p"
    using assms(2) caches_okD [OF _ assms(3)] by (auto simp: keys_ok_def key_ok_def)
  have m: "alive (mach u) = alive (mach p)" if "mibs F n p = (x, u)" for n x u
    using mibs_keeps [OF assms(1) that] by (simp add: objects_def)
  show ?thesis
  proof (cases "cached acc p")
    case None
    with assms(4) m show ?thesis
      by (auto simp: define_key_def cache_get_miss objects_def publish_def
          split: prod.splits outcome.splits sum.splits)
  next
    case (Some k)
    with assms(4) wf show ?thesis by (simp add: define_key_def cache_get_hit)
  qed
qed

lemma key_fetched:
  assumes "lib_ok F" and "translation_keeps F alive" and "keys_ok F p" and "(acc, name) \<in> key_table"
    and "define_key F acc name p = (Done r, q)"
  shows "keys_ok F q \<and> objects alive q = objects alive p \<and>
    (\<forall>k. r = Inr k \<longrightarrow> resolves F (str_bytes name) k \<and> length k = segments (str_bytes name))"
  using safeD [OF define_key_safe [OF lib_okD [OF assms(1)] assms(4)] assms(3)]
    define_key_keeps [OF assms(2-5)] assms(5) by auto

text \<open>An operation fetches its key, or ends there with the objects untouched.\<close>

lemma fetched:
  assumes "lib_ok F" and "translation_keeps F alive" and "keys_ok F p" and "(acc, name) \<in> key_table"
    and "run_try (define_key F acc name) f p = (Done r, q)"
  obtains (failed) e where "r = Inl e" "keys_ok F q" "objects alive q = objects alive p"
  | (key) k u where "resolves F (str_bytes name) k" "length k = segments (str_bytes name)" "keys_ok F u"
      "objects alive u = objects alive p" "f k u = (Done r, q)"
  using assms(5)
proof (cases rule: run_tryE)
  case (stopped e)
  with key_fetched [OF assms(1-4) stopped(2)] show thesis using failed by simp
next
  case (went_on k u)
  with key_fetched [OF assms(1-4) went_on(1)] show thesis by (intro key [of k u]) simp_all
qed

text \<open>A call that creates, read as a typed operation.\<close>

lemma born:
  assumes "births F alive c" and "keys_ok F p"
    and "run_then (mallctlbymib F c) (\<lambda>rep. run_try (into_result (status rep)) (\<lambda>_.
      run_then (rust_assert (outlen rep = of_nat (rsize u32_repr))) (\<lambda>_.
      run_then (assume_init u32_repr (out rep)) (\<lambda>v. ret (Inr v))))) p = (Done r, q)"
  shows "keys_ok F q \<and> (case r of
      Inr i \<Rightarrow> ucast i \<notin> objects alive p \<and> objects alive q = insert (ucast i) (objects alive p)
    | Inl _ \<Rightarrow> objects alive q = objects alive p)"
proof -
  from assms(3) obtain rep u where call: "mallctlbymib F c p = (Done rep, u)"
    and tail: "run_try (into_result (status rep)) (\<lambda>_.
      run_then (rust_assert (outlen rep = of_nat (rsize u32_repr))) (\<lambda>_.
      run_then (assume_init u32_repr (out rep)) (\<lambda>v. ret (Inr v)))) u = (Done r, q)"
    by (auto simp: run_then_Done_iff)
  have b: "lib_inv F (mach u)" "if status rep = 0
      then \<exists>i. delivers u32_repr rep i \<and> ucast i \<notin> alive (mach p) \<and> alive (mach u) = insert (ucast i) (alive (mach p))
      else alive (mach u) = alive (mach p)"
    using assms(1,2) call unfolding births_def keys_ok_def mallctlbymib_def foreign_Done_iff by fastforce+
  show ?thesis
  proof (cases "status rep = 0")
    case True
    with b(2) obtain i where i: "delivers u32_repr rep i" "ucast i \<notin> alive (mach p)"
      "alive (mach u) = insert (ucast i) (alive (mach p))" by auto
    with decode_tail_iff [of rep u32_repr u i u] tail have "r = Inr i" "q = u" by auto
    with i mallctlbymib_keys_ok [OF call assms(2) b(1)] show ?thesis by (simp add: objects_def)
  next
    case False
    with tail obtain e where "r = Inl e" "q = u" by (auto simp: run_try_eq into_result_def from_code_def)
    with False b mallctlbymib_keys_ok [OF call assms(2) b(1)] show ?thesis by (simp add: objects_def)
  qed
qed

lemma born_get:
  assumes "births F alive (read_call u32_repr k)" and "keys_ok F p" and "raw_get F u32_repr k p = (Done r, q)"
  shows "keys_ok F q \<and> (case r of
      Inr i \<Rightarrow> ucast i \<notin> objects alive p \<and> objects alive q = insert (ucast i) (objects alive p)
    | Inl _ \<Rightarrow> objects alive q = objects alive p)"
  using assms by (intro born [of F alive "read_call u32_repr k" p r q]) (simp_all add: raw_get_def)

lemma born_update:
  assumes "births F alive (update_call ptr_repr u32_repr k v)" and "keys_ok F p"
    and "raw_update F ptr_repr u32_repr k v p = (Done r, q)"
  shows "keys_ok F q \<and> (case r of
      Inr i \<Rightarrow> ucast i \<notin> objects alive p \<and> objects alive q = insert (ucast i) (objects alive p)
    | Inl _ \<Rightarrow> objects alive q = objects alive p)"
  using assms by (intro born [of F alive "update_call ptr_repr u32_repr k v" p r q]) (simp_all add: raw_update_def)

text \<open>A call that destroys.\<close>

lemma died:
  assumes "buries F alive c i" and "keys_ok F p"
    and "run_then (mallctlbymib F c) (\<lambda>rep. into_result (status rep)) p = (Done r, q)"
  shows "keys_ok F q \<and> objects alive q = (case r of Inr _ \<Rightarrow> objects alive p - {i} | Inl _ \<Rightarrow> objects alive p)"
proof -
  from assms(3) obtain rep u where call: "mallctlbymib F c p = (Done rep, u)"
    and r: "into_result (status rep) u = (Done r, q)" by (auto simp: run_then_Done_iff)
  have b: "lib_inv F (mach u)" "alive (mach u) = (if status rep = 0 then alive (mach p) - {i} else alive (mach p))"
    using assms(1,2) call unfolding buries_def keys_ok_def mallctlbymib_def foreign_Done_iff by fastforce+
  then show ?thesis
    using r mallctlbymib_keys_ok [OF call assms(2) b(1)]
    by (cases r) (auto simp: objects_def)
qed

section \<open>Arenas\<close>

lemma arena_libraryD:
  assumes "arena_library F alive"
  shows "lib_ok F" and "translation_keeps F alive"
    and "resolves F (str_bytes ''arenas.create'') k \<Longrightarrow> births F alive (read_call u32_repr k)"
    and "resolves F (str_bytes ''arenas.create'') k \<Longrightarrow> births F alive (update_call ptr_repr u32_repr k hooks)"
    and "resolves F (str_bytes ''arena.0.destroy'') k \<Longrightarrow> 1 < length k \<Longrightarrow>
      buries F alive (notify_call (k[1 := i])) i"
  using assms by (simp_all add: arena_library_def del: One_nat_def)

lemma arena_destroy_owned:
  assumes "arena_good F alive p" and "a_owned a" and "arena_destroy F a p = (Done (r, a'), q)"
  shows "arena_good F alive q \<and>
    objects alive q = (case r of Inr _ \<Rightarrow> objects alive p - {a_index a} | Inl _ \<Rightarrow> objects alive p)"
proof -
  have lib: "arena_library F alive" and ok: "keys_ok F p" using assms(1) by (simp_all add: arena_good_def)
  have mem: "(''arena_destroy'', ''arena.0.destroy'') \<in> key_table" by simp
  have "run_try (define_key F ''arena_destroy'' ''arena.0.destroy'') (arena_notify F a) p = (Done r, q)"
    using assms(2,3) by (auto simp: arena_destroy_def run_then_Done_iff key_defs settle_iff)
  with arena_libraryD(1,2) [OF lib] ok mem show ?thesis
  proof (cases rule: fetched)
    case (failed e)
    with lib show ?thesis by (simp add: arena_good_def)
  next
    case (key k u)
    from key(2,5) have "1 < length k" "run_then (mallctlbymib F (notify_call (k[1 := a_index a])))
        (\<lambda>rep. into_result (status rep)) u = (Done r, q)"
      by (auto simp: arena_notify_def arena_select_def select_key_def raw_notify_def run_then_Done_iff
          split: if_splits simp del: One_nat_def)
    with died [OF arena_libraryD(5) [OF lib key(1)] key(3)] key(4) lib show ?thesis
      by (simp add: arena_good_def split: sum.splits)
  qed
qed

interpretation arena_life: handle_life "arena_destroy F" "arena_drop F" a_owned "arena_good F alive"
    "objects alive" a_index for F :: "'s ffi" and alive
  by unfold_locales (auto dest: arena_destroy_owned)

text \<open>The two creations. An index beyond the limit of the handles loses the arena.\<close>

definition arena_creations :: "'s ffi \<Rightarrow> ('s process, arena ctl_result) comp set" where
  "arena_creations F = insert (arena_create F) (range (create_with_raw_extent_hooks F))"

lemma from_created_state: "from_created_index F c p = (Done r, q) \<Longrightarrow>
    q = p \<and> (\<forall>h. r = Inr h \<longrightarrow> h = \<lparr>a_index = ucast c, a_owned = True\<rparr>)"
  by (cases r) (auto simp: from_created_index_def run_try_Ok_iff run_try_Err_iff arena_validated_index_def
      invalid_argument_def fail_from_code_iff split: if_splits option.splits)

lemma arena_born:
  assumes "\<And>p r q. arena_good F alive p \<Longrightarrow> m p = (Done r, q) \<Longrightarrow> keys_ok F q \<and> (case r of
      Inr i \<Rightarrow> ucast i \<notin> objects alive p \<and> objects alive q = insert (ucast i) (objects alive p)
    | Inl _ \<Rightarrow> objects alive q = objects alive p)"
  shows "creates (arena_good F alive) (objects alive) a_owned a_index (run_try m (from_created_index F))"
  unfolding creates_def
proof (intro allI impI)
  fix p r q
  assume p: "arena_good F alive p" and "run_try m (from_created_index F) p = (Done r, q)"
  from this(2) show "arena_good F alive q \<and> (case r of
      Inr h \<Rightarrow> a_owned h \<and> a_index h \<notin> objects alive p \<and> objects alive q = insert (a_index h) (objects alive p)
    | Inl _ \<Rightarrow> objects alive p \<subseteq> objects alive q)"
  proof (cases rule: run_tryE)
    case (stopped e)
    with assms [OF p stopped(2)] p show ?thesis by (simp add: arena_good_def)
  next
    case (went_on i u)
    with assms [OF p went_on(1)] p from_created_state [OF went_on(2)] show ?thesis
      by (cases r) (auto simp: arena_good_def)
  qed
qed

lemma arena_key:
  assumes "arena_good F alive p" and "define_key F ''arenas_create'' ''arenas.create'' p = (Done r, q)"
  shows "arena_good F alive q \<and> objects alive q = objects alive p \<and>
    (\<forall>k. r = Inr k \<longrightarrow> resolves F (str_bytes ''arenas.create'') k)"
proof -
  have lib: "arena_library F alive" and ok: "keys_ok F p" using assms(1) by (simp_all add: arena_good_def)
  from key_fetched [OF arena_libraryD(1,2) [OF lib] ok _ assms(2)] lib show ?thesis
    by (auto simp: arena_good_def)
qed

lemma arena_creates:
  assumes "m \<in> arena_creations F"
  shows "creates (arena_good F alive) (objects alive) a_owned a_index m"
proof -
  let ?c = "creates (arena_good F alive) (objects alive) a_owned a_index"
  have get: "?c (run_try (key_arenas_create F) (\<lambda>key. run_try (raw_get F u32_repr key) (from_created_index F)))"
    unfolding key_defs
    by (rule creates_after [OF arena_key], assumption+, rule arena_born,
        rule born_get [OF arena_libraryD(3)], auto simp: arena_good_def)
  have upd: "?c (run_try (key_arenas_create F) (\<lambda>key.
      run_try (raw_update F ptr_repr u32_repr key hooks) (from_created_index F)))" for hooks
    unfolding key_defs
    by (rule creates_after [OF arena_key], assumption+, rule arena_born,
        rule born_update [OF arena_libraryD(4)], auto simp: arena_good_def)
  have raw: "?c (create_with_raw_extent_hooks F hooks)" for hooks
    using upd [of hooks] unfolding creates_def create_with_raw_extent_hooks_def lacks_alloc_def
    by (fastforce simp: run_then_Done_iff dest!: fail_EINVAL_Done split: option.splits if_splits)
  from assms get raw show ?thesis
    by (auto simp: arena_creations_def arena_create_def)
qed

section \<open>Programs over arenas\<close>

text \<open>
  The process, the handles in scope, the indices released, and the objects out of reach. The adoption
  rule has the precondition that \<^verbatim>\<open>from_owned_index\<close> documents: the index was released and nobody else
  adopted it. The last rule is any other activity that neither creates nor destroys.
\<close>

type_synonym ('s, 'h) world = "'s process \<times> 'h list \<times> usize list \<times> usize set"

inductive arena_step :: "'s ffi \<Rightarrow> ('s machine \<Rightarrow> usize set) \<Rightarrow> ('s, arena) world \<Rightarrow> ('s, arena) world \<Rightarrow> bool"
  for F :: "'s ffi" and alive where
  created: "m \<in> arena_creations F \<Longrightarrow> m p = (Done (Inr h), q) \<Longrightarrow>
      arena_step F alive (p, hs, ls, lost) (q, h # hs, ls, lost)"
| not_created: "m \<in> arena_creations F \<Longrightarrow> m p = (Done (Inl e), q) \<Longrightarrow>
      arena_step F alive (p, hs, ls, lost) (q, hs, ls, lost \<union> (objects alive q - objects alive p))"
| viewed: "from_index F i p = (Done (Inr h), q) \<Longrightarrow>
      arena_step F alive (p, hs, ls, lost) (q, h # hs, ls, lost)"
| destroyed: "arena_try_destroy F h p = (Done (Inr ()), q) \<Longrightarrow>
      arena_step F alive (p, hs @ h # hs', ls, lost) (q, hs @ hs', ls, lost)"
| not_destroyed: "arena_try_destroy F h p = (Done (Inl e), q) \<Longrightarrow>
      arena_step F alive (p, hs @ h # hs', ls, lost) (q, hs @ snd (into_parts e) # hs', ls, lost)"
| dropped: "arena_drop F h p = (Done (), q) \<Longrightarrow>
      arena_step F alive (p, hs @ h # hs', ls, lost)
        (q, hs @ hs', ls, lost \<union> (if a_owned h then objects alive q \<inter> {a_index h} else {}))"
| released: "into_index F h p = (Done i, q) \<Longrightarrow>
      arena_step F alive (p, hs @ h # hs', ls, lost) (q, hs @ hs', if a_owned h then i # ls else ls, lost)"
| adopted: "i \<in> set ls \<Longrightarrow> from_owned_index F i p = (Done (Inr h), q) \<Longrightarrow>
      arena_step F alive (p, hs, ls, lost) (q, h # hs, remove1 i ls, lost)"
| called: "keys_ok F q \<Longrightarrow> objects alive q = objects alive p \<Longrightarrow>
      arena_step F alive (p, hs, ls, lost) (q, hs, ls, lost)"

inductive_cases arena_stepE: "arena_step F alive w w'"

fun arena_balance :: "'s ffi \<Rightarrow> ('s machine \<Rightarrow> usize set) \<Rightarrow> usize set \<Rightarrow> ('s, arena) world \<Rightarrow> bool" where
  "arena_balance F alive base (p, hs, ls, lost) \<longleftrightarrow> arena_good F alive p \<and>
     conserved base (objects alive p) (owned_by a_owned a_index hs) ls lost"

lemma try_destroyE:
  assumes "arena_try_destroy F a p = (Done r, q)"
  obtains (gone) a' where "r = Inr ()" "arena_destroy F a p = (Done (Inr (), a'), q)"
  | (kept) e a' where "r = Inl \<lparr>ade_error = e, ade_arena = a\<rparr>" "arena_destroy F a p = (Done (Inl e, a'), q)"
proof -
  from assms obtain x a' where "arena_destroy F a p = (Done (x, a'), q)"
    "r = (case x of Inr _ \<Rightarrow> Inr () | Inl e \<Rightarrow> Inl \<lparr>ade_error = e, ade_arena = a\<rparr>)"
    by (auto simp: arena_try_destroy_eq run_then_Done_iff)
  then show thesis by (cases x) (auto intro: gone kept)
qed

lemma from_index_Ok: "from_index F i p = (Done (Inr h), q) \<Longrightarrow> q = p \<and> h = \<lparr>a_index = i, a_owned = False\<rparr>"
  "from_owned_index F i p = (Done (Inr h), q) \<Longrightarrow> q = p \<and> h = \<lparr>a_index = i, a_owned = True\<rparr>"
  by (auto simp: from_index_def from_owned_index_def run_try_Ok_iff arena_validated_index_iff)

lemma arena_step_balance:
  assumes "arena_step F alive w w'" and "arena_balance F alive base w"
  shows "arena_balance F alive base w'"
  using assms
proof (induction rule: arena_step.induct)
  case (created m p h q hs ls lost)
  then show ?case
    using arena_life.balance_create [OF arena_creates [OF created(1)], where base = base and hs = hs
        and loose = ls and lost = lost, OF _ created(2)] by simp
next
  case (not_created m p e q hs ls lost)
  then show ?case
    using arena_life.balance_create_failed [OF arena_creates [OF not_created(1)], where base = base and hs = hs
        and loose = ls and lost = lost, OF _ not_created(2)] by simp
next
  case (viewed i p h q hs ls lost)
  then show ?case using from_index_Ok(1) [OF viewed(1)] by simp
next
  case (destroyed h p q hs hs' ls lost)
  then obtain a' where d: "arena_destroy F h p = (Done (Inr (), a'), q)"
    by (auto elim: try_destroyE)
  from arena_life.balance_destroy [of F alive p base hs h hs' ls lost, OF _ d] destroyed(2)
  show ?case by simp
next
  case (not_destroyed h p e q hs hs' ls lost)
  then obtain x a' where d: "arena_destroy F h p = (Done (Inl x, a'), q)" and e: "e = \<lparr>ade_error = x, ade_arena = h\<rparr>"
    by (auto elim: try_destroyE)
  from arena_life.balance_destroy [of F alive p base hs h hs' ls lost, OF _ d] not_destroyed(2)
  show ?case by (simp add: e into_parts_def)
next
  case (dropped h p q hs hs' ls lost)
  from arena_life.balance_drop [of F alive p base hs h hs' ls lost, OF _ dropped(1)] dropped(2)
  show ?case by simp
next
  case (released h p i q hs hs' ls lost)
  then have "q = p" "i = a_index h" by (simp_all add: into_index_quiet)
  then show ?case
    using released(2) conserved_released [of base "objects alive p" "owned_by a_owned a_index hs" "a_index h"]
    by (cases "a_owned h") simp_all
next
  case (adopted i ls p h q hs lost)
  then show ?case
    using from_index_Ok(2) [OF adopted(2)] conserved_adopted [OF _ adopted(1)] by simp
next
  case (called q p hs ls lost)
  then show ?case by (simp add: arena_good_def)
qed

lemma arena_run_balance:
  assumes "(arena_step F alive)\<^sup>*\<^sup>* w w'" and "arena_balance F alive base w"
  shows "arena_balance F alive base w'"
  using assms by (induction rule: rtranclp_induct) (auto intro: arena_step_balance)

text \<open>
  C6. Ownership of arenas is conserved over every run of a program that creates, looks at, destroys,
  drops, releases and adopts arenas in any order, with any failures: the arenas that exist are those
  from before the run, those of the owning handles in scope, those released and those lost, each counted
  exactly once. Hence an owning handle is never dangling and nobody's arena is destroyed but its
  owner's; and when no handle and no released index is left, everything created is gone except what the
  library refused to destroy in a drop or the handles could not index.
\<close>

theorem arena_ownership_conserved:
  assumes "arena_library F alive" and "keys_ok F p"
    and "(arena_step F alive)\<^sup>*\<^sup>* (p, [], [], {}) (q, hs, ls, lost)"
  shows "objects alive q = objects alive p \<union> set (owned_by a_owned a_index hs) \<union> set ls \<union> lost \<and>
    distinct (owned_by a_owned a_index hs @ ls) \<and>
    objects alive p \<inter> (set (owned_by a_owned a_index hs) \<union> set ls) = {} \<and>
    lost \<inter> (objects alive p \<union> set (owned_by a_owned a_index hs) \<union> set ls) = {} \<and>
    (\<forall>h \<in> set hs. a_owned h \<longrightarrow> a_index h \<in> objects alive q - objects alive p)"
proof -
  have "arena_balance F alive (objects alive p) (p, [], [], {})"
    using assms(1,2) by (simp add: arena_good_def conserved_def)
  from arena_run_balance [OF assms(3) this]
  have c: "conserved (objects alive p) (objects alive q) (owned_by a_owned a_index hs) ls lost" by simp
  moreover have "\<forall>h \<in> set hs. a_owned h \<longrightarrow> a_index h \<in> set (owned_by a_owned a_index hs)"
    by (simp add: owned_by_def)
  ultimately show ?thesis unfolding conserved_def by blast
qed

section \<open>Explicit thread caches\<close>

lemma tcache_libraryD:
  assumes "tcache_library F alive"
  shows "lib_ok F" and "translation_keeps F alive"
    and "resolves F (str_bytes ''tcache.create'') k \<Longrightarrow> births F alive (read_call u32_repr k)"
    and "resolves F (str_bytes ''tcache.destroy'') k \<Longrightarrow> buries F alive (write_call u32_repr k i) (ucast i)"
  using assms by (simp_all add: tcache_library_def)

lemma tcache_index_back:
  "tcache_validated_index F i p = (Done (Inr c), q) \<Longrightarrow> ucast c = i"
  by (simp add: tcache_validated_index_iff word_unat_eq_iff)

lemma tcache_validated_state: "tcache_validated_index F i p = (Done r, q) \<Longrightarrow> q = p"
  by (auto simp: tcache_validated_index_def invalid_argument_def fail_from_code_iff split: if_splits option.splits)

lemma tcache_destroy_owned:
  assumes "tcache_good F alive p" and "t_owned t" and "tcache_destroy F t p = (Done (r, t'), q)"
  shows "tcache_good F alive q \<and>
    objects alive q = (case r of Inr _ \<Rightarrow> objects alive p - {t_index t} | Inl _ \<Rightarrow> objects alive p)"
proof -
  have lib: "tcache_library F alive" and ok: "keys_ok F p" using assms(1) by (simp_all add: tcache_good_def)
  have mem: "(''tcache_destroy'', ''tcache.destroy'') \<in> key_table" by simp
  have "run_try (define_key F ''tcache_destroy'' ''tcache.destroy'')
      (\<lambda>key. run_try (tcache_validated_index F (t_index t)) (raw_set F u32_repr key)) p = (Done r, q)"
    using assms(2,3) by (auto simp: tcache_destroy_def run_then_Done_iff key_defs settle_iff)
  with tcache_libraryD(1,2) [OF lib] ok mem show ?thesis
  proof (cases rule: fetched)
    case (failed e)
    with lib show ?thesis by (simp add: tcache_good_def)
  next
    case (key k u)
    from key(5) show ?thesis
    proof (cases rule: run_tryE)
      case (stopped e)
      with tcache_validated_state [OF stopped(2)] key lib show ?thesis by (simp add: tcache_good_def)
    next
      case (went_on c v)
      then have "run_then (mallctlbymib F (write_call u32_repr k c)) (\<lambda>rep. into_result (status rep)) u = (Done r, q)"
        and "ucast c = t_index t"
        using tcache_validated_state [OF went_on(1)] tcache_index_back [OF went_on(1)] by (simp_all add: raw_set_eq)
      then show ?thesis
        using died [OF tcache_libraryD(4) [OF lib key(1)] key(3)] key(4) lib
        by (auto simp: tcache_good_def split: sum.splits)
    qed
  qed
qed

interpretation tcache_life: handle_life "tcache_destroy F" "tcache_drop F" t_owned "tcache_good F alive"
    "objects alive" t_index for F :: "'s ffi" and alive
  by unfold_locales (auto dest: tcache_destroy_owned)

lemma tcache_key:
  assumes "tcache_good F alive p" and "(acc, name) \<in> key_table" and "define_key F acc name p = (Done r, q)"
  shows "tcache_good F alive q \<and> objects alive q = objects alive p \<and>
    (\<forall>k. r = Inr k \<longrightarrow> resolves F (str_bytes name) k)"
proof -
  have lib: "tcache_library F alive" and ok: "keys_ok F p" using assms(1) by (simp_all add: tcache_good_def)
  from key_fetched [OF tcache_libraryD(1,2) [OF lib] ok assms(2,3)] lib show ?thesis
    by (auto simp: tcache_good_def)
qed

lemma tcache_born:
  assumes "resolves F (str_bytes ''tcache.create'') k"
  shows "creates (tcache_good F alive) (objects alive) t_owned t_index
    (run_try (raw_get F u32_repr k) (\<lambda>c. run_try (tcache_validated_index F (ucast c)) (\<lambda>_.
      ret (Inr \<lparr>t_index = ucast c, t_owned = True\<rparr>))))"
  unfolding creates_def
proof (intro allI impI)
  fix p r q
  assume p: "tcache_good F alive p" and "run_try (raw_get F u32_repr k) (\<lambda>c.
      run_try (tcache_validated_index F (ucast c)) (\<lambda>_. ret (Inr \<lparr>t_index = ucast c, t_owned = True\<rparr>))) p = (Done r, q)"
  have lib: "tcache_library F alive" and ok: "keys_ok F p" using p by (simp_all add: tcache_good_def)
  note born = born_get [OF tcache_libraryD(3) [OF lib assms] ok]
  from \<open>run_try _ _ p = (Done r, q)\<close> show "tcache_good F alive q \<and> (case r of
      Inr h \<Rightarrow> t_owned h \<and> t_index h \<notin> objects alive p \<and> objects alive q = insert (t_index h) (objects alive p)
    | Inl _ \<Rightarrow> objects alive p \<subseteq> objects alive q)"
  proof (cases rule: run_tryE)
    case (stopped e)
    with born [OF stopped(2)] lib show ?thesis by (simp add: tcache_good_def)
  next
    case (went_on c u)
    from went_on(2) have "q = u \<and> (\<forall>h. r = Inr h \<longrightarrow> h = \<lparr>t_index = ucast c, t_owned = True\<rparr>)"
      by (cases rule: run_tryE) (auto dest: tcache_validated_state)
    with born [OF went_on(1)] lib show ?thesis
      by (cases r) (auto simp: tcache_good_def)
  qed
qed

lemma tcache_after_key:
  assumes "(acc, name) \<in> key_table"
    and "\<And>k. resolves F (str_bytes name) k \<Longrightarrow> creates (tcache_good F alive) (objects alive) t_owned t_index (f k)"
  shows "creates (tcache_good F alive) (objects alive) t_owned t_index (run_try (define_key F acc name) f)"
  by (rule creates_after [OF tcache_key [OF _ assms(1)] assms(2)]) assumption+

lemma tcache_creates: "creates (tcache_good F alive) (objects alive) t_owned t_index (tcache_create F)"
  unfolding tcache_create_def key_defs usize_try_from_def option.case run_try_ret_Inr
  by (rule tcache_after_key, simp, rule tcache_after_key, simp, rule tcache_after_key, simp, rule tcache_born)

inductive tcache_step :: "'s ffi \<Rightarrow> ('s machine \<Rightarrow> usize set)
    \<Rightarrow> ('s process \<times> thread_cache list \<times> usize set) \<Rightarrow> ('s process \<times> thread_cache list \<times> usize set) \<Rightarrow> bool"
  for F :: "'s ffi" and alive where
  created: "tcache_create F p = (Done (Inr h), q) \<Longrightarrow>
      tcache_step F alive (p, hs, lost) (q, h # hs, lost)"
| not_created: "tcache_create F p = (Done (Inl e), q) \<Longrightarrow>
      tcache_step F alive (p, hs, lost) (q, hs, lost \<union> (objects alive q - objects alive p))"
| destroyed: "tcache_try_destroy F h p = (Done (Inr ()), q) \<Longrightarrow>
      tcache_step F alive (p, hs @ h # hs', lost) (q, hs @ hs', lost)"
| not_destroyed: "tcache_try_destroy F h p = (Done (Inl e), q) \<Longrightarrow>
      tcache_step F alive (p, hs @ h # hs', lost) (q, hs @ snd (tcache_into_parts e) # hs', lost)"
| dropped: "tcache_drop F h p = (Done (), q) \<Longrightarrow>
      tcache_step F alive (p, hs @ h # hs', lost)
        (q, hs @ hs', lost \<union> (if t_owned h then objects alive q \<inter> {t_index h} else {}))"
| called: "keys_ok F q \<Longrightarrow> objects alive q = objects alive p \<Longrightarrow>
      tcache_step F alive (p, hs, lost) (q, hs, lost)"

fun tcache_balance :: "'s ffi \<Rightarrow> ('s machine \<Rightarrow> usize set) \<Rightarrow> usize set \<Rightarrow> 's process \<times> thread_cache list \<times> usize set \<Rightarrow> bool" where
  "tcache_balance F alive base (p, hs, lost) \<longleftrightarrow> tcache_good F alive p \<and>
     conserved base (objects alive p) (owned_by t_owned t_index hs) [] lost"

lemma tcache_try_destroyE:
  assumes "tcache_try_destroy F t p = (Done r, q)"
  obtains (gone) t' where "r = Inr ()" "tcache_destroy F t p = (Done (Inr (), t'), q)"
  | (kept) e where "r = Inl \<lparr>tde_error = e, tde_cache = t\<rparr>" "tcache_destroy F t p = (Done (Inl e, t), q)"
proof -
  from assms obtain x t' u where d: "tcache_destroy F t p = (Done (x, t'), u)" and
    f: "(case x of Inr _ \<Rightarrow> run_then (tcache_drop F t') (\<lambda>_. ret (Inr ()))
      | Inl e \<Rightarrow> ret (Inl (tcache_destroy_error_new e t'))) u = (Done r, q)"
    by (auto simp: tcache_try_destroy_def run_then_Done_iff)
  show thesis
  proof (cases x)
    case (Inl e)
    then show thesis using d f tcache_handle.retained [of F t p e t' u] by (intro kept [of e]) auto
  next
    case (Inr z)
    then show thesis
      using d f tcache_handle.released [of F t p z t' u] tcache_handle.drop_other [of t' F] by (intro gone [of t']) auto
  qed
qed

lemma tcache_step_balance:
  assumes "tcache_step F alive w w'" and "tcache_balance F alive base w"
  shows "tcache_balance F alive base w'"
  using assms
proof (induction rule: tcache_step.induct)
  case (created p h q hs lost)
  then show ?case
    using tcache_life.balance_create [OF tcache_creates, where base = base and hs = hs
        and loose = "[]" and lost = lost, OF _ created(1)] by simp
next
  case (not_created p e q hs lost)
  then show ?case
    using tcache_life.balance_create_failed [OF tcache_creates, where base = base and hs = hs
        and loose = "[]" and lost = lost, OF _ not_created(1)] by simp
next
  case (destroyed h p q hs hs' lost)
  then obtain h' where d: "tcache_destroy F h p = (Done (Inr (), h'), q)"
    by (auto elim: tcache_try_destroyE)
  from tcache_life.balance_destroy [of F alive p base hs h hs' "[]" lost, OF _ d] destroyed(2)
  show ?case by simp
next
  case (not_destroyed h p e q hs hs' lost)
  then obtain x where d: "tcache_destroy F h p = (Done (Inl x, h), q)" and e: "e = \<lparr>tde_error = x, tde_cache = h\<rparr>"
    by (auto elim: tcache_try_destroyE)
  from tcache_life.balance_destroy [of F alive p base hs h hs' "[]" lost, OF _ d] not_destroyed(2)
  show ?case by (simp add: e tcache_into_parts_def)
next
  case (dropped h p q hs hs' lost)
  from tcache_life.balance_drop [of F alive p base hs h hs' "[]" lost, OF _ dropped(1)] dropped(2)
  show ?case by simp
next
  case (called q p hs lost)
  then show ?case by (simp add: tcache_good_def)
qed

lemma tcache_run_balance:
  assumes "(tcache_step F alive)\<^sup>*\<^sup>* w w'" and "tcache_balance F alive base w"
  shows "tcache_balance F alive base w'"
  using assms by (induction rule: rtranclp_induct) (auto intro: tcache_step_balance)

text \<open>
  C28. Ownership of explicit thread caches is conserved over every run of a program that creates,
  destroys and drops thread caches in any order, with any failures: the caches that exist are those from
  before the run, those of the owning handles in scope, and those lost, each counted exactly once. No
  cache is destroyed twice and an owning handle is never dangling.
\<close>

theorem tcache_ownership_conserved:
  assumes "tcache_library F alive" and "keys_ok F p"
    and "(tcache_step F alive)\<^sup>*\<^sup>* (p, [], {}) (q, hs, lost)"
  shows "objects alive q = objects alive p \<union> set (owned_by t_owned t_index hs) \<union> lost \<and>
    distinct (owned_by t_owned t_index hs) \<and>
    objects alive p \<inter> set (owned_by t_owned t_index hs) = {} \<and>
    lost \<inter> (objects alive p \<union> set (owned_by t_owned t_index hs)) = {} \<and>
    (\<forall>h \<in> set hs. t_owned h \<longrightarrow> t_index h \<in> objects alive q - objects alive p)"
proof -
  have "tcache_balance F alive (objects alive p) (p, [], {})"
    using assms(1,2) by (simp add: tcache_good_def conserved_def)
  from tcache_run_balance [OF assms(3) this]
  have c: "conserved (objects alive p) (objects alive q) (owned_by t_owned t_index hs) [] lost" by simp
  moreover have "\<forall>h \<in> set hs. t_owned h \<longrightarrow> t_index h \<in> set (owned_by t_owned t_index hs)"
    by (simp add: owned_by_def)
  ultimately show ?thesis unfolding conserved_def by auto
qed

end
