(* ===== verification/Reference_Lifecycle.thy ===== *)
theory Reference_Lifecycle
  imports Reference_Controls Lifecycle
begin

text \<open>
  An executable library that creates and destroys objects as documented, for both kinds of handle: each
  kind has a counter and a mark for every index that is alive; up to sixteen objects of a kind can be
  created. The theorems on ownership are applied to it.
\<close>

definition seg_of :: "string \<Rightarrow> usize" where
  "seg_of s = seg_code (str_bytes s)"

text \<open>Objects of kind \<open>t\<close>: the next index at the key \<open>[t]\<close>, the marks at the keys \<open>[t, i]\<close>.\<close>

definition life_create :: "usize \<Rightarrow> (store machine, mib_reply) comp" where
  "life_create t = (\<lambda>m. let n = je m [t] in
     if n < 16
     then (Done \<lparr>status = 0, out = map Some (enc u32_repr (ucast n)), outlen = 4\<rparr>,
           m\<lparr>je := (je m)([t] := n + 1, [t, n] := 1)\<rparr>)
     else (Done \<lparr>status = 11, out = [], outlen = 0\<rparr>, m))"

definition life_destroy :: "usize \<Rightarrow> usize \<Rightarrow> (store machine, mib_reply) comp" where
  "life_destroy t i = (\<lambda>m.
     if je m [t, i] = 1
     then (Done \<lparr>status = 0, out = [], outlen = 0\<rparr>, m\<lparr>je := (je m)([t, i] := 0)\<rparr>)
     else (Done \<lparr>status = 14, out = [], outlen = 0\<rparr>, m))"

definition life_bymib :: "mib_call \<Rightarrow> (store machine, mib_reply) comp" where
  "life_bymib c =
    (if mib c = [seg_of ''arenas'', seg_of ''create''] then life_create 1
     else if mib c = [seg_of ''tcache'', seg_of ''create''] then life_create 2
     else if mib c = [seg_of ''tcache'', seg_of ''destroy'']
     then life_destroy 2 (case newp c of None \<Rightarrow> 0 | Some bs \<Rightarrow> of_nat (le_dec bs))
     else if length (mib c) = 3 \<and> mib c ! 2 = seg_of ''destroy'' then life_destroy 1 (mib c ! 1)
     else ret \<lparr>status = 22, out = [], outlen = 0\<rparr>)"

definition life_inv :: "store machine \<Rightarrow> bool" where
  "life_inv m \<longleftrightarrow> (\<forall>t i. je m [t] \<le> i \<longrightarrow> je m [t, i] = 0)"

definition life_ffi :: "store ffi" where
  "life_ffi = ref_ffi\<lparr>c_bymib := life_bymib, lib_inv := life_inv\<rparr>"

definition life_alive :: "usize \<Rightarrow> store machine \<Rightarrow> usize set" where
  "life_alive t m = {i. je m [t, i] = 1}"

lemma life_simps [simp]:
  "c_bymib life_ffi = life_bymib" "c_nametomib life_ffi = ref_nametomib" "lib_inv life_ffi = life_inv"
  "errno life_ffi = linux_errno"
  by (simp_all add: life_ffi_def)

lemma codes_distinct [simp]:
  "seg_of ''arenas'' \<noteq> seg_of ''tcache''" "seg_of ''tcache'' \<noteq> seg_of ''arenas''"
  "seg_of ''create'' \<noteq> seg_of ''destroy''" "seg_of ''destroy'' \<noteq> seg_of ''create''"
  by (simp_all add: seg_of_def seg_code_def str_bytes_def)

section \<open>It satisfies the contracts\<close>

lemma life_lib_ok: "lib_ok life_ffi"
  by (rule translating_lib_ok) simp_all

lemma life_resolves:
  assumes "resolves life_ffi (str_bytes name) k" and "(acc, name) \<in> key_table"
  shows "k = map seg_code (split_dot (str_bytes name))"
proof (rule translating_resolves [OF _ assms(1)])
  show "\<not> name_rejected (str_bytes name)"
    using assms(2) builtin_name_valid by (simp add: key_table_def)
qed simp

lemma life_translation_keeps: "translation_keeps life_ffi alive"
  by (auto simp: translation_keeps_def ref_nametomib_def Let_def)

lemma life_creates:
  assumes "life_bymib c = life_create t"
  shows "births life_ffi (life_alive t) c"
  unfolding births_def life_simps
proof (intro allI impI)
  fix m rep m'
  assume inv: "life_inv m" and run: "life_bymib c m = (Done rep, m')"
  let ?n = "je m [t]"
  show "life_inv m' \<and> (if status rep = 0
      then \<exists>i. delivers u32_repr rep i \<and> ucast i \<notin> life_alive t m \<and> life_alive t m' = insert (ucast i) (life_alive t m)
      else life_alive t m' = life_alive t m)"
  proof (cases "?n < 16")
    case False
    then have "status rep = 11" "m' = m" using run assms by (auto simp: life_create_def Let_def)
    then show ?thesis using inv by simp
  next
    case True
    have rep: "rep = \<lparr>status = 0, out = map Some (enc u32_repr (ucast ?n)), outlen = 4\<rparr>"
      and m': "m' = m\<lparr>je := (je m)([t] := ?n + 1, [t, ?n] := 1)\<rparr>"
      using run assms True by (auto simp: life_create_def Let_def)
    have small: "unat ?n < 16" using True by (simp add: word_less_nat_alt)
    then have same: "ucast (ucast ?n :: c_uint) = ?n"
      using u32_try_from_small [of ?n] by (auto simp: u32_try_from_def usize_try_from_def)
    have "delivers u32_repr rep (ucast ?n)"
      using u32.dec_enc [of "ucast ?n"] by (simp add: delivers_def rep u32_repr_def)
    moreover have "?n \<notin> life_alive t m" using inv by (simp add: life_inv_def life_alive_def)
    moreover have "life_alive t m' = insert ?n (life_alive t m)"
      by (auto simp: life_alive_def m')
    moreover have "life_inv m'"
      unfolding life_inv_def
    proof (intro allI impI)
      fix s i
      assume le: "je m' [s] \<le> i"
      show "je m' [s, i] = 0"
      proof (cases "s = t")
        case True
        have "unat (?n + 1) = unat ?n + 1" using small by (simp add: unat_word_ariths)
        then have "?n < i" using le True by (simp add: m' word_less_nat_alt word_le_nat_alt)
        then show ?thesis using inv True by (auto simp: m' life_inv_def)
      qed (use le inv in \<open>simp add: m' life_inv_def\<close>)
    qed
    ultimately show ?thesis using same by (auto simp: rep intro!: exI [of _ "ucast ?n"])
  qed
qed

lemma life_destroys:
  assumes "life_bymib c = life_destroy t i"
  shows "buries life_ffi (life_alive t) c i"
  using assms by (auto simp: buries_def life_destroy_def life_alive_def life_inv_def split: if_splits)

lemma life_keys:
  "resolves life_ffi (str_bytes ''arenas.create'') k \<Longrightarrow> k = [seg_of ''arenas'', seg_of ''create'']"
  "resolves life_ffi (str_bytes ''tcache.create'') k \<Longrightarrow> k = [seg_of ''tcache'', seg_of ''create'']"
  "resolves life_ffi (str_bytes ''tcache.destroy'') k \<Longrightarrow> k = [seg_of ''tcache'', seg_of ''destroy'']"
  "resolves life_ffi (str_bytes ''arena.0.destroy'') k \<Longrightarrow> k = [seg_of ''arena'', seg_of ''0'', seg_of ''destroy'']"
  using life_resolves [of "''arenas.create''" k "''arenas_create''"]
    life_resolves [of "''tcache.create''" k "''tcache_create''"]
    life_resolves [of "''tcache.destroy''" k "''tcache_destroy''"]
    life_resolves [of "''arena.0.destroy''" k "''arena_destroy''"]
  by (simp_all add: seg_of_def str_bytes_def)

lemma life_arena_library: "arena_library life_ffi (life_alive 1)"
  unfolding arena_library_def
  by (auto simp: life_lib_ok life_translation_keeps life_bymib_def read_call_def update_call_def notify_call_def
      dest!: life_keys intro!: life_creates life_destroys)

lemma life_tcache_library: "tcache_library life_ffi (life_alive 2)"
proof -
  have "(of_nat (le_dec (enc u32_repr i)) :: usize) = ucast i" for i
    by (simp add: u32_repr_def le_dec_enc)
  then show ?thesis
    unfolding tcache_library_def
    by (auto simp: life_lib_ok life_translation_keeps life_bymib_def read_call_def write_call_def
        dest!: life_keys intro!: life_creates life_destroys)
qed

section \<open>A run\<close>

lemma life_start_ok: "keys_ok life_ffi ref_start"
  by (rule keys_ok_startup) (simp_all add: ref_start_def life_inv_def)

lemma life_start_none: "objects (life_alive t) ref_start = {}"
  by (simp add: objects_def life_alive_def ref_start_def)

lemma life_first:
  assumes "mach p = mach ref_start" and "life_bymib (read_call u32_repr k) = life_create t"
  shows "\<exists>q. raw_get life_ffi u32_repr k p = (Done (Inr 0), q)"
proof -
  have "je (mach p) [t] = 0" using assms(1) by (simp add: ref_start_def)
  moreover have "delivers u32_repr \<lparr>status = 0, out = map Some (enc u32_repr 0), outlen = 4\<rparr> 0"
    using u32.dec_enc [of 0] by (simp add: delivers_def u32_repr_def)
  ultimately show ?thesis
    using assms(2) by (auto simp: raw_get_Ok_iff mallctlbymib_def foreign_def life_create_def)
qed

text \<open>Fetching a key here changes no more than the caches.\<close>

lemma life_fetch:
  assumes "keys_ok life_ffi p" and "(acc, name) \<in> key_table"
  shows "\<exists>k q. define_key life_ffi acc name p = (Done (Inr k), q) \<and> keys_ok life_ffi q \<and> mach q = mach p \<and>
    resolves life_ffi (str_bytes name) k"
proof -
  obtain k q where d: "define_key life_ffi acc name p = (Done (Inr k), q)" "keys_ok life_ffi q" "mach q = mach p"
    using translating_fetch [OF _ assms] by auto
  have "key_ok life_ffi acc name p"
    using assms by (auto simp: keys_ok_def intro: caches_okD)
  from define_key_key_ok(2) [OF this d(1)] d show ?thesis by blast
qed

lemma life_arena_created: "\<exists>q. arena_create life_ffi ref_start = (Done (Inr \<lparr>a_index = 0, a_owned = True\<rparr>), q)"
proof -
  obtain k p where d: "define_key life_ffi ''arenas_create'' ''arenas.create'' ref_start = (Done (Inr k), p)"
    and m: "mach p = mach ref_start" and k: "k = [seg_of ''arenas'', seg_of ''create'']"
    using life_fetch [OF life_start_ok, of "''arenas_create''" "''arenas.create''"] life_keys(1) by auto
  have "life_bymib (read_call u32_repr k) = life_create 1" by (simp add: k life_bymib_def read_call_def)
  from life_first [OF m this] d show ?thesis
    by (auto simp: arena_create_def key_defs run_try_eq from_created_index_def arena_validated_index_def
        ARENA_INDEX_LIMIT_def u32_try_from_def)
qed

lemma life_tcache_created: "\<exists>q. tcache_create life_ffi ref_start = (Done (Inr \<lparr>t_index = 0, t_owned = True\<rparr>), q)"
proof -
  obtain k p where d: "define_key life_ffi ''tcache_create'' ''tcache.create'' ref_start = (Done (Inr k), p)"
    and p: "keys_ok life_ffi p" "mach p = mach ref_start" and k: "k = [seg_of ''tcache'', seg_of ''create'']"
    using life_fetch [OF life_start_ok, of "''tcache_create''" "''tcache.create''"] life_keys(2) by auto
  obtain k1 p1 where d1: "define_key life_ffi ''tcache_flush'' ''tcache.flush'' p = (Done (Inr k1), p1)"
    and p1: "keys_ok life_ffi p1" "mach p1 = mach ref_start"
    using life_fetch [OF p(1), of "''tcache_flush''" "''tcache.flush''"] p(2) by auto
  obtain k2 p2 where d2: "define_key life_ffi ''tcache_destroy'' ''tcache.destroy'' p1 = (Done (Inr k2), p2)"
    and p2: "mach p2 = mach ref_start"
    using life_fetch [OF p1(1), of "''tcache_destroy''" "''tcache.destroy''"] p1(2) by auto
  have "life_bymib (read_call u32_repr k) = life_create 2" by (simp add: k life_bymib_def read_call_def)
  from life_first [OF p2 this] d d1 d2 show ?thesis
    by (auto simp: tcache_create_def key_defs run_try_eq usize_try_from_def tcache_validated_index_def
        TCACHE_INDEX_LIMIT_def u32_try_from_def)
qed

text \<open>Before anything else happens, the object of the first creation is the only one.\<close>

theorem arena_ownership_conserved_witness:
  "\<exists>h q. arena_create life_ffi ref_start = (Done (Inr h), q) \<and> objects (life_alive 1) q = {a_index h}"
proof -
  let ?h = "\<lparr>a_index = 0, a_owned = True\<rparr>"
  obtain q where c: "arena_create life_ffi ref_start = (Done (Inr ?h), q)"
    using life_arena_created by blast
  have "arena_step life_ffi (life_alive 1) (ref_start, [], [], {}) (q, [?h], [], {})"
    using c by (intro arena_step.created [where m = "arena_create life_ffi"]) (simp_all add: arena_creations_def)
  from arena_ownership_conserved [OF life_arena_library life_start_ok r_into_rtranclp [of "arena_step life_ffi (life_alive 1)", OF this]]
  show ?thesis using c by (auto simp: life_start_none)
qed

theorem tcache_ownership_conserved_witness:
  "\<exists>h q. tcache_create life_ffi ref_start = (Done (Inr h), q) \<and> objects (life_alive 2) q = {t_index h}"
proof -
  let ?h = "\<lparr>t_index = 0, t_owned = True\<rparr>"
  obtain q where c: "tcache_create life_ffi ref_start = (Done (Inr ?h), q)"
    using life_tcache_created by blast
  have "tcache_step life_ffi (life_alive 2) (ref_start, [], {}) (q, [?h], {})"
    using c by (intro tcache_step.created)
  from tcache_ownership_conserved [OF life_tcache_library life_start_ok r_into_rtranclp [of "tcache_step life_ffi (life_alive 2)", OF this]]
  show ?thesis using c by (auto simp: life_start_none)
qed

end
