(* ===== verification/Build_Files.thy ===== *)
theory Build_Files
  imports Rust_Base "HOL-Library.Sublist"
begin

text \<open>
  What the build script \<^verbatim>\<open>jevmalloc-sys/build.rs\<close> uses of the standard library on strings and paths, on a
  Unix host, and its recursive copy of a directory tree. A string is the list of its UTF-8 bytes.

  A tree is a file with its contents or a directory with its entries in the order they are read;
  symbolic links and failures of the operating system other than a wrong kind of entry are not modelled.

  Shown here: copying a tree to a fresh destination succeeds and yields the same tree; copying into an
  existing directory overlays it: every file of the source is there with its contents, what the source
  does not name stays.
\<close>

section \<open>Strings\<close>

text \<open>\<^verbatim>\<open>str::split_once\<close> at a character.\<close>

definition split_once :: "char \<Rightarrow> string \<Rightarrow> (string \<times> string) option" where
  "split_once c s = (if c \<in> set s then Some (takeWhile (\<lambda>x. x \<noteq> c) s, tl (dropWhile (\<lambda>x. x \<noteq> c) s)) else None)"

text \<open>\<^verbatim>\<open>str::replace\<close>: occurrences are found from the left and do not overlap.\<close>

function replace_all :: "string \<Rightarrow> string \<Rightarrow> string \<Rightarrow> string" where
  "replace_all pat new s =
    (if pat = [] \<or> length s < length pat then s
     else if prefix pat s then new @ replace_all pat new (drop (length pat) s)
     else hd s # replace_all pat new (tl s))"
  by pat_completeness auto
termination
  by (relation "measure (\<lambda>(pat, new, s). length s)") (auto simp flip: length_greater_0_conv)

declare replace_all.simps [simp del]

definition replace_char :: "char \<Rightarrow> char \<Rightarrow> string \<Rightarrow> string" where
  "replace_char a b s = map (\<lambda>c. if c = a then b else c) s"

text \<open>\<^verbatim>\<open>to_uppercase\<close> on ASCII, the alphabet of target triples.\<close>

definition upper_char :: "char \<Rightarrow> char" where
  "upper_char c = (let n = of_char c :: nat in if 97 \<le> n \<and> n \<le> 122 then char_of (n - 32) else c)"

definition to_uppercase :: "string \<Rightarrow> string" where
  "to_uppercase s = map upper_char s"

definition join_words :: "string list \<Rightarrow> string" where
  "join_words ws = concat (case ws of [] \<Rightarrow> [] | w # rest \<Rightarrow> w # map (\<lambda>x. CHR '' '' # x) rest)"

text \<open>\<^verbatim>\<open>&s[n..]\<close> panics past the end and inside a character.\<close>

definition str_from :: "nat \<Rightarrow> string \<Rightarrow> ('s, string) comp" where
  "str_from n s =
    (if n = length s \<or> (n < length s \<and> \<not> (128 \<le> (of_char (s ! n) :: nat) \<and> of_char (s ! n) < (192 :: nat)))
     then ret (drop n s) else panic)"

section \<open>Paths\<close>

text \<open>
  A path is its text. The last component is found by scanning back over empty and current-directory
  components; the root or a leading current directory is before the body and is never scanned over.
\<close>

definition body_start :: "string \<Rightarrow> nat" where
  "body_start p = (if prefix ''/'' p \<or> p = ''.'' \<or> prefix ''./'' p then 1 else 0)"

definition last_part :: "string \<Rightarrow> string" where
  "last_part p = rev (takeWhile (\<lambda>c. c \<noteq> CHR ''/'') (rev (drop (body_start p) p)))"

definition drop_last_part :: "string \<Rightarrow> string" where
  "drop_last_part p = take (max (body_start p) (length p - length (last_part p) - 1)) p"

function trim_right :: "string \<Rightarrow> string" where
  "trim_right p =
    (if body_start p < length p \<and> last_part p \<in> {'''', ''.''} then trim_right (drop_last_part p) else p)"
  by pat_completeness auto
termination
  by (relation "measure length") (auto simp: drop_last_part_def)

declare trim_right.simps [simp del]

definition file_name :: "string \<Rightarrow> string option" where
  "file_name p = (let q = trim_right p in
     if length q \<le> body_start q \<or> last_part q = ''..'' then None else Some (last_part q))"

definition parent :: "string \<Rightarrow> string option" where
  "parent p = (let q = trim_right p in
     if length q \<le> body_start q then if body_start q = 1 \<and> hd q \<noteq> CHR ''/'' then Some [] else None
     else Some (trim_right (drop_last_part q)))"

definition file_stem :: "string \<Rightarrow> string option" where
  "file_stem p = map_option (\<lambda>f.
     let before = rev (tl (dropWhile (\<lambda>c. c \<noteq> CHR ''.'') (rev f))) in
     if CHR ''.'' \<notin> set f \<or> before = [] then f else before) (file_name p)"

definition path_join :: "string \<Rightarrow> string \<Rightarrow> string" where
  "path_join a b = (if a = [] then b else if last a = CHR ''/'' then a @ b else a @ ''/'' @ b)"

section \<open>Copying a tree\<close>

datatype tree = File "byte list" | Dir "(string \<times> tree) list"

datatype io_error = NotADirectory | IsADirectory

text \<open>The destination after storing a child.\<close>

fun put :: "string \<Rightarrow> tree option \<Rightarrow> (string \<times> tree) list \<Rightarrow> (string \<times> tree) list" where
  "put n None es = es"
| "put n (Some t) [] = [(n, t)]"
| "put n (Some t) ((m, u) # es) = (if m = n then (n, t) # es else (m, u) # put n (Some t) es)"

text \<open>
  \<^verbatim>\<open>copy_recursively\<close>: the result and the destination it leaves, also when it stops early.
\<close>

fun copy_recursively :: "tree \<Rightarrow> tree option \<Rightarrow> (io_error + unit) \<times> tree option"
  and copy_entries :: "(string \<times> tree) list \<Rightarrow> tree \<Rightarrow> (io_error + unit) \<times> tree" where
  "copy_recursively src dst =
    (let dst = (case dst of None \<Rightarrow> Dir [] | Some t \<Rightarrow> t) in
     case src of
       File _ \<Rightarrow> (Inl NotADirectory, Some dst)
     | Dir es \<Rightarrow> (case copy_entries es dst of (r, t) \<Rightarrow> (r, Some t)))"
| "copy_entries [] dst = (Inr (), dst)"
| "copy_entries ((n, t) # es) dst =
    (case dst of
       File _ \<Rightarrow> (Inl NotADirectory, dst)
     | Dir ds \<Rightarrow>
       (case t of
          Dir _ \<Rightarrow>
            (case copy_recursively t (map_of ds n) of
               (Inl e, c) \<Rightarrow> (Inl e, Dir (put n c ds))
             | (Inr _, c) \<Rightarrow> copy_entries es (Dir (put n c ds)))
        | File bs \<Rightarrow>
            (case map_of ds n of
               Some (Dir _) \<Rightarrow> (Inl IsADirectory, dst)
             | _ \<Rightarrow> copy_entries es (Dir (put n (Some (File bs)) ds)))))"

declare copy_recursively.simps [simp del]

text \<open>A directory has no two entries of one name.\<close>

fun tree_wf :: "tree \<Rightarrow> bool" where
  "tree_wf (File bs) = True"
| "tree_wf (Dir es) = (distinct (map fst es) \<and> list_all (\<lambda>e. tree_wf (snd e)) es)"

lemma put_fresh: "n \<notin> fst ` set es \<Longrightarrow> put n (Some t) es = es @ [(n, t)]"
  by (induction es) auto

lemma map_of_put: "map_of (put n (Some t) es) m = (if m = n then Some t else map_of es m)"
  by (induction es) auto

text \<open>A fresh destination: entries are appended one by one.\<close>

lemma copy_fresh:
  "src = Dir es \<Longrightarrow> dst = None \<Longrightarrow> tree_wf src \<Longrightarrow> copy_recursively src dst = (Inr (), Some src)"
  "tgt = Dir ds \<Longrightarrow> list_all (\<lambda>e. tree_wf (snd e)) es' \<Longrightarrow> distinct (map fst es') \<Longrightarrow>
     fst ` set es' \<inter> fst ` set ds = {} \<Longrightarrow> copy_entries es' tgt = (Inr (), Dir (ds @ es'))"
proof (induction src dst and es' tgt arbitrary: es and ds rule: copy_recursively_copy_entries.induct)
  case (1 src dst)
  then show ?case by (simp add: copy_recursively.simps)
next
  case (2 dst)
  then show ?case by simp
next
  case (3 n t es dst)
  have none: "map_of ds n = None"
    using "3.prems"(4) by (simp add: map_of_eq_None_iff)
  have fresh: "n \<notin> fst ` set ds"
    using "3.prems"(4) by auto
  show ?case
  proof (cases t)
    case (File bs)
    with 3 none fresh show ?thesis by (auto simp: put_fresh)
  next
    case (Dir ts)
    with 3 none fresh show ?thesis by (auto simp: put_fresh)
  qed
qed

text \<open>The file a tree has at a path.\<close>

fun file_at :: "tree \<Rightarrow> string list \<Rightarrow> byte list option" where
  "file_at (File bs) p = (if p = [] then Some bs else None)"
| "file_at (Dir es) [] = None"
| "file_at (Dir es) (n # p) = (case map_of es n of None \<Rightarrow> None | Some t \<Rightarrow> file_at t p)"

definition laid_over :: "tree \<Rightarrow> tree option \<Rightarrow> tree \<Rightarrow> bool" where
  "laid_over src dst t \<longleftrightarrow> (\<forall>p. file_at t p = (case file_at src p of
      Some bs \<Rightarrow> Some bs
    | None \<Rightarrow> (case dst of None \<Rightarrow> None | Some d \<Rightarrow> file_at d p)))"

lemma laid_over_Nil: "laid_over (Dir []) (Some d) d"
proof -
  have "file_at (Dir []) p = None" for p by (cases p) simp_all
  then show ?thesis by (simp add: laid_over_def)
qed

text \<open>One entry laid over a directory, then the others over the result.\<close>

lemma laid_over_Cons:
  assumes "laid_over (Dir es) (Some (Dir (put n (Some c) ds))) t'" and "laid_over t (map_of ds n) c"
    and "n \<notin> fst ` set es"
  shows "laid_over (Dir ((n, t) # es)) (Some (Dir ds)) t'"
  unfolding laid_over_def
proof
  fix p
  have "map_of es n = None"
    using assms(3) by (simp add: map_of_eq_None_iff)
  with assms(1,2) show "file_at t' p = (case file_at (Dir ((n, t) # es)) p of Some bs \<Rightarrow> Some bs
      | None \<Rightarrow> (case Some (Dir ds) of None \<Rightarrow> None | Some d \<Rightarrow> file_at d p))"
    by (cases p) (auto simp: laid_over_def map_of_put cong: option.case_cong)
qed

lemma laid_over_File:
  assumes "\<And>es. map_of ds n \<noteq> Some (Dir es)"
  shows "laid_over (File bs) (map_of ds n) (File bs)"
proof (cases "map_of ds n")
  case None
  then show ?thesis by (simp add: laid_over_def)
next
  case (Some u)
  with assms show ?thesis by (cases u) (auto simp: laid_over_def)
qed

lemma laid_over_fresh: "laid_over s (Some (Dir [])) t \<Longrightarrow> laid_over s None t"
proof -
  have "file_at (Dir []) p = None" for p by (cases p) simp_all
  then show "laid_over s (Some (Dir [])) t \<Longrightarrow> laid_over s None t"
    by (simp add: laid_over_def cong: option.case_cong)
qed

lemma copy_overlays:
  "copy_recursively src dst = (Inr u, Some t) \<Longrightarrow> tree_wf src \<Longrightarrow> laid_over src dst t"
  "copy_entries es tgt = (Inr u, t') \<Longrightarrow> tree_wf (Dir es) \<Longrightarrow> laid_over (Dir es) (Some tgt) t'"
proof (induction src dst and es tgt arbitrary: t and t' rule: copy_recursively_copy_entries.induct)
  case (1 src dst)
  obtain es where src: "src = Dir es"
    using "1.prems"(1) by (cases src) (simp_all add: copy_recursively.simps)
  from 1 show ?case
    by (cases dst) (auto simp: src copy_recursively.simps Let_def intro: laid_over_fresh split: prod.splits)
next
  case (2 dst)
  then show ?case by (simp add: laid_over_Nil)
next
  case (3 n t es dst)
  obtain ds where dst: "dst = Dir ds"
    using "3.prems"(1) by (cases dst) simp_all
  have wf: "n \<notin> fst ` set es" "tree_wf (Dir es)" "tree_wf t"
    using "3.prems"(2) by auto
  show ?case
  proof (cases t)
    case (File bs)
    have nd: "map_of ds n \<noteq> Some (Dir us)" for us
      using "3.prems"(1) by (auto simp: dst File)
    have "copy_entries es (Dir (put n (Some (File bs)) ds)) = (Inr u, t')"
      using "3.prems"(1) nd by (auto simp: dst File split: option.splits tree.splits)
    moreover have "copy_entries es (Dir (put n (Some (File bs)) ds)) = (Inr u, t') \<Longrightarrow>
        laid_over (Dir es) (Some (Dir (put n (Some (File bs)) ds))) t'"
      using 3 nd wf by (cases "map_of ds n"; cases "the (map_of ds n)") (auto simp: dst File)
    ultimately show ?thesis
      unfolding dst File using laid_over_Cons [OF _ laid_over_File [OF nd] wf(1)] by blast
  next
    case (Dir ts)
    from "3.prems"(1) obtain c where c: "copy_recursively t (map_of ds n) = (Inr (), Some c)"
      "copy_entries es (Dir (put n (Some c) ds)) = (Inr u, t')"
      by (auto simp: dst Dir copy_recursively.simps split: prod.splits sum.splits)
    then show ?thesis
      unfolding dst using 3 wf by (intro laid_over_Cons) (auto simp: dst Dir)
  qed
qed

section \<open>Properties\<close>

text \<open>
  C33. Copying a directory tree that has no two entries of one name: into a fresh destination it succeeds
  and yields the same tree; and whenever it succeeds, the destination has at every path the file of the
  source if there is one and otherwise the file it had before.
\<close>

theorem copy_recursively_correct:
  assumes "tree_wf (Dir es)"
  shows "copy_recursively (Dir es) None = (Inr (), Some (Dir es)) \<and>
    (\<forall>dst t path. copy_recursively (Dir es) dst = (Inr (), Some t) \<longrightarrow>
      file_at t path = (case file_at (Dir es) path of
          Some bs \<Rightarrow> Some bs
        | None \<Rightarrow> (case dst of None \<Rightarrow> None | Some d \<Rightarrow> file_at d path)))"
  using assms copy_fresh(1) [of "Dir es" es None] copy_overlays(1) [of "Dir es" _ "()"]
  unfolding laid_over_def by blast

theorem copy_recursively_correct_witness:
  "copy_recursively (Dir [(''src'', Dir [(''a.c'', File [1, 2])]), (''configure'', File [3])]) None
    = (Inr (), Some (Dir [(''src'', Dir [(''a.c'', File [1, 2])]), (''configure'', File [3])]))"
  by (rule copy_recursively_correct [THEN conjunct1]) simp

end
