(* ===== verification/Build_Script.thy ===== *)
theory Build_Script
  imports Build_Files
begin

text \<open>
  \<^verbatim>\<open>jevmalloc-sys/build.rs\<close> and the target lists of \<^verbatim>\<open>jevmalloc-sys/src/env.rs\<close>: the script that configures
  and builds the bundled library, or links one supplied by the caller.

  The environment, the current directory, the parsed compiler flags (\<^verbatim>\<open>rustflags\<close>), the C compiler
  (\<^verbatim>\<open>cc\<close>), the files of the repository and the programs it starts are the fields of the parameter record
  \<open>host\<close>. The state is the log of what the script does that others see, the lines Cargo reads, whether the
  script prints them or \<^verbatim>\<open>cc\<close> does on its behalf, and the programs started, in order, and the tree at the build
  directory. Diagnostic lines (\<^verbatim>\<open>info!\<close>, the echo of a command) and what the started programs print
  themselves are left out. Environment values are taken to be Unicode.

  Shown here: the library is built with its symbols prefixed exactly when the crate is compiled for
  prefixed symbols; a supplied library stops the script before any program is started; the programs
  run in order and a failing one ends the run; every optional feature is passed explicitly.
\<close>

section \<open>Targets\<close>

definition UNSUPPORTED_TARGETS :: "string list" where
  "UNSUPPORTED_TARGETS = [''rumprun'', ''bitrig'', ''emscripten'', ''fuchsia'', ''redox'', ''wasm32'']"

definition UNTESTED_TARGETS :: "string list" where
  "UNTESTED_TARGETS = [''openbsd'', ''msvc'']"

definition NO_UNPREFIXED_MALLOC_TARGETS :: "string list" where
  "NO_UNPREFIXED_MALLOC_TARGETS = [''android'', ''dragonfly'', ''musl'', ''darwin'', ''openbsd'']"

text \<open>\<^verbatim>\<open>list.iter().any(|i| target.contains(i))\<close>\<close>

definition any_in :: "string list \<Rightarrow> string \<Rightarrow> bool" where
  "any_in pats target = list_ex (\<lambda>i. sublist i target) pats"

section \<open>The host and the log\<close>

record command =
  program :: string
  cargs :: "string list"
  dir :: "string option"
  cenv :: "(string \<times> string) list"

datatype exit_status = Not_started | Exited bool

datatype event = Line string | Start command | Cc_compile string string

datatype rust_flag = Codegen string "string option" | Z string | Other_flag

record host =
  vars :: "string \<Rightarrow> string option"
  current_dir :: "string option"
  rustflags :: "rust_flag list"
  c_compiler :: "string \<Rightarrow> string \<Rightarrow> (string \<times> string list) option"
  cc_lines :: "string \<Rightarrow> string \<Rightarrow> string list"
  cc_compile_lines :: "string \<Rightarrow> string \<Rightarrow> string list"
  spawn :: "command \<Rightarrow> tree option \<Rightarrow> exit_status \<times> tree option"
  cc_compiles :: bool
  path_exists :: "string \<Rightarrow> bool"
  submodule :: "tree option"
  config_file :: "byte list option"
  script_debug :: bool

record build_state =
  log :: "event list"
  build_tree :: "tree option"

definition emit :: "string \<Rightarrow> (build_state, unit) comp" where
  "emit s = (\<lambda>t. (Done (), t\<lparr>log := log t @ [Line s]\<rparr>))"

definition emit_all :: "string list \<Rightarrow> (build_state, unit) comp" where
  "emit_all ss = (\<lambda>t. (Done (), t\<lparr>log := log t @ map Line ss\<rparr>))"

definition warning :: "string \<Rightarrow> (build_state, unit) comp" where
  "warning s = emit (''cargo:warning='' @ [CHR 0x22] @ s @ [CHR 0x22])"

section \<open>Environment variables\<close>

definition expect_env :: "host \<Rightarrow> string \<Rightarrow> (build_state, string) comp" where
  "expect_env H name = (case vars H name of None \<Rightarrow> panic | Some v \<Rightarrow> ret v)"

definition read_and_watch_env_impl ::
    "host \<Rightarrow> string \<Rightarrow> (string \<Rightarrow> string option) \<Rightarrow> (build_state, string option) comp" where
  "read_and_watch_env_impl H name env_getter =
     run_then (expect_env H ''TARGET'') (\<lambda>target.
     let pre = replace_char CHR ''-'' CHR ''_'' (to_uppercase target);
         prefixed_name = pre @ ''_'' @ name in
     run_then (emit (''cargo:rerun-if-env-changed='' @ prefixed_name)) (\<lambda>_.
     case env_getter prefixed_name of
       Some v \<Rightarrow> ret (Some v)
     | None \<Rightarrow>
         run_then (emit (''cargo:rerun-if-env-changed='' @ name)) (\<lambda>_.
         ret (env_getter name))))"

definition read_and_watch_env :: "host \<Rightarrow> string \<Rightarrow> (build_state, string option) comp" where
  "read_and_watch_env H name = read_and_watch_env_impl H name
     (\<lambda>n. case vars H n of None \<Rightarrow> None | Some v \<Rightarrow> if v = [] then None else Some v)"

definition read_and_watch_env_os :: "host \<Rightarrow> string \<Rightarrow> (build_state, string option) comp" where
  "read_and_watch_env_os H name = read_and_watch_env_impl H name (vars H)"

section \<open>Commands\<close>

text \<open>\<^verbatim>\<open>execute\<close>: a command that cannot be started or fails ends the script.\<close>

definition start :: "host \<Rightarrow> command \<Rightarrow> (build_state, exit_status) comp" where
  "start H cmd = (\<lambda>t. case spawn H cmd (build_tree t) of
     (st, tree) \<Rightarrow> (Done st, t\<lparr>log := log t @ [Start cmd], build_tree := tree\<rparr>))"

definition execute :: "host \<Rightarrow> command \<Rightarrow> (build_state, unit) comp \<Rightarrow> (build_state, unit) comp" where
  "execute H cmd on_fail =
     run_then (start H cmd) (\<lambda>status.
     case status of
       Not_started \<Rightarrow> panic
     | Exited success \<Rightarrow>
         if \<not> success then run_then on_fail (\<lambda>_. panic) else ret ())"

definition run :: "host \<Rightarrow> command \<Rightarrow> (build_state, unit) comp" where
  "run H cmd = execute H cmd (ret ())"

definition run_and_log :: "host \<Rightarrow> command \<Rightarrow> string \<Rightarrow> (build_state, unit) comp" where
  "run_and_log H cmd log_file = execute H cmd
     (run H \<lparr>program = ''tail'', cargs = [''-n'', ''100'', log_file], dir = None, cenv = []\<rparr>)"

definition feature_flag :: "host \<Rightarrow> command \<Rightarrow> string \<Rightarrow> string \<Rightarrow> command" where
  "feature_flag H cmd feature opt =
    (if vars H (''CARGO_FEATURE_'' @ feature) \<noteq> None
     then cmd\<lparr>cargs := cargs cmd @ [''--enable-'' @ opt]\<rparr>
     else cmd\<lparr>cargs := cargs cmd @ [''--disable-'' @ opt]\<rparr>)"

definition gnu_target :: "string \<Rightarrow> string" where
  "gnu_target target =
    (if target = ''i686-pc-windows-msvc'' then ''i686-pc-win32''
     else if target = ''x86_64-pc-windows-msvc'' then ''x86_64-pc-win32''
     else if target = ''i686-pc-windows-gnu'' then ''i686-w64-mingw32''
     else if target = ''x86_64-pc-windows-gnu'' then ''x86_64-w64-mingw32''
     else if target = ''armv7-linux-androideabi'' then ''arm-linux-androideabi''
     else if target = ''riscv64gc-unknown-linux-gnu'' then ''riscv64-linux-gnu''
     else if target = ''riscv64gc-unknown-linux-musl'' then ''riscv64-linux-musl''
     else target)"

definition make_cmd :: "string \<Rightarrow> string" where
  "make_cmd hst =
    (if any_in [''bitrig'', ''dragonfly'', ''freebsd'', ''netbsd'', ''openbsd'', ''chimera-linux''] hst then ''gmake''
     else if sublist ''windows'' hst then ''mingw32-make''
     else ''make'')"

section \<open>The steps of the script\<close>

text \<open>Target checks and the choice of prefixed symbols.\<close>

definition check_target :: "host \<Rightarrow> string \<Rightarrow> (build_state, bool) comp" where
  "check_target H target =
     run_then (rust_assert (\<not> any_in UNSUPPORTED_TARGETS target)) (\<lambda>_.
     run_then (if any_in UNTESTED_TARGETS target
               then warning (''jemalloc support for `'' @ target @ ''` is untested'') else ret ()) (\<lambda>_.
     let use_prefix = (vars H ''CARGO_FEATURE_UNPREFIXED_MALLOC_ON_SUPPORTED_PLATFORMS'' = None) in
     run_then (if \<not> use_prefix \<and> any_in NO_UNPREFIXED_MALLOC_TARGETS target
               then run_then (warning (''Unprefixed `malloc` requested on unsupported platform `'' @ target @
                      ''` => using prefixed `malloc`'')) (\<lambda>_. ret True)
               else ret use_prefix) (\<lambda>use_prefix.
     run_then (emit ''cargo::rustc-check-cfg=cfg(prefixed)'') (\<lambda>_.
     run_then (if use_prefix then emit ''cargo:rustc-cfg=prefixed'' else ret ()) (\<lambda>_.
     ret use_prefix)))))"

text \<open>A library supplied by the caller.\<close>

definition unwrap :: "'a option \<Rightarrow> ('s, 'a) comp" where
  "unwrap x = (case x of None \<Rightarrow> panic | Some v \<Rightarrow> ret v)"

definition link_override :: "host \<Rightarrow> string \<Rightarrow> (build_state, unit) comp" where
  "link_override H jemalloc =
     run_then (rust_assert (path_exists H jemalloc)) (\<lambda>_.
     run_then (unwrap (parent jemalloc)) (\<lambda>par.
     run_then (emit (''cargo:rustc-link-search=native='' @ par)) (\<lambda>_.
     run_then (unwrap (file_stem jemalloc)) (\<lambda>stem.
     run_then (unwrap (file_name jemalloc)) (\<lambda>name.
     let kind = (if suffix ''.a'' name then ''static'' else ''dylib'') in
     run_then (str_from 3 stem) (\<lambda>lib.
     emit (''cargo:rustc-link-lib='' @ kind @ ''='' @ lib)))))))"

text \<open>
  Architecture flags taken over from the Rust compiler. While it looks for the compiler, \<^verbatim>\<open>cc\<close> prints the
  variables it consults as watch lines (\<open>cc_lines\<close>).
\<close>

fun target_cpu :: "rust_flag list \<Rightarrow> string option" where
  "target_cpu [] = None"
| "target_cpu (Codegen opt v # fs) = (if opt = ''target-cpu'' then v else target_cpu fs)"
| "target_cpu (_ # fs) = target_cpu fs"

fun tune_cpu :: "rust_flag list \<Rightarrow> string option" where
  "tune_cpu [] = None"
| "tune_cpu (Z s # fs) =
    (case (if prefix ''tune-cpu'' s then map_option snd (split_once CHR ''='' s) else None) of
       None \<Rightarrow> tune_cpu fs | Some v \<Rightarrow> Some v)"
| "tune_cpu (_ # fs) = tune_cpu fs"

definition compiler :: "host \<Rightarrow> (build_state, string \<times> string) comp" where
  "compiler H =
    (let march = (case target_cpu (rustflags H) of None \<Rightarrow> [] | Some arch \<Rightarrow> ''-march='' @ arch);
         mtune = (case tune_cpu (rustflags H) of None \<Rightarrow> [] | Some arch \<Rightarrow> ''-mtune='' @ arch) in
     run_then (emit_all (cc_lines H march mtune)) (\<lambda>_.
     run_then (unwrap (c_compiler H march mtune)) (\<lambda>(path, args).
     ret (path, join_words args))))"

text \<open>A fresh copy of the bundled sources with the generated configure script.\<close>

definition remove_build :: "(build_state, unit) comp" where
  "remove_build = (\<lambda>t. case build_tree t of
     None \<Rightarrow> (Done (), t)
   | Some (Dir _) \<Rightarrow> (Done (), t\<lparr>build_tree := None\<rparr>)
   | Some (File _) \<Rightarrow> (Panicked, t))"

definition copy_sources :: "host \<Rightarrow> (build_state, unit) comp" where
  "copy_sources H = (\<lambda>t. case submodule H of
     None \<Rightarrow> (Panicked, t\<lparr>build_tree := (case build_tree t of None \<Rightarrow> Some (Dir []) | Some b \<Rightarrow> Some b)\<rparr>)
   | Some src \<Rightarrow> (case copy_recursively src (build_tree t) of
         (Inl _, b) \<Rightarrow> (Panicked, t\<lparr>build_tree := b\<rparr>)
       | (Inr _, b) \<Rightarrow> (Done (), t\<lparr>build_tree := b\<rparr>)))"

definition copy_config :: "host \<Rightarrow> (build_state, unit) comp" where
  "copy_config H = (\<lambda>t. case (config_file H, build_tree t) of
     (Some bs, Some (Dir ds)) \<Rightarrow>
       (case map_of ds ''configure'' of
          Some (Dir _) \<Rightarrow> (Panicked, t)
        | _ \<Rightarrow> (Done (), t\<lparr>build_tree := Some (Dir (put ''configure'' (Some (File bs)) ds))\<rparr>))
   | _ \<Rightarrow> (Panicked, t))"

definition prepare :: "host \<Rightarrow> string \<Rightarrow> (build_state, unit) comp" where
  "prepare H out_dir =
     run_then (rust_assert (path_exists H out_dir)) (\<lambda>_.
     run_then (emit ''cargo:rerun-if-changed=configure'') (\<lambda>_.
     run_then remove_build (\<lambda>_.
     run_then (copy_sources H) (\<lambda>_.
     run_then (\<lambda>t. rust_assert (build_tree t \<noteq> None) t) (\<lambda>_.
     copy_config H)))))"

text \<open>The configure command.\<close>

definition arg :: "command \<Rightarrow> string \<Rightarrow> command" where
  "arg cmd a = cmd\<lparr>cargs := cargs cmd @ [a]\<rparr>"

definition env_arg :: "host \<Rightarrow> string \<Rightarrow> string \<Rightarrow> command \<Rightarrow> (build_state, command) comp" where
  "env_arg H name option cmd =
     run_then (read_and_watch_env H name) (\<lambda>v.
     ret (case v of None \<Rightarrow> cmd | Some x \<Rightarrow> arg cmd (option @ x)))"

definition malloc_conf_arg :: "host \<Rightarrow> command \<Rightarrow> (build_state, command) comp" where
  "malloc_conf_arg H cmd =
     run_then (read_and_watch_env H ''JEMALLOC_SYS_WITH_MALLOC_CONF'') (\<lambda>v.
     let malloc_conf = [];
         malloc_conf = (case v of
             None \<Rightarrow> malloc_conf
           | Some opts \<Rightarrow> (if malloc_conf \<noteq> [] then malloc_conf @ '','' else malloc_conf) @ opts) in
     ret (if malloc_conf \<noteq> [] then arg cmd (''--with-malloc-conf='' @ malloc_conf) else cmd))"

definition initial_command :: "string \<Rightarrow> string \<Rightarrow> string \<Rightarrow> string \<Rightarrow> string \<Rightarrow> command" where
  "initial_command target build_dir cc cflags je_version =
    (let configure = path_join build_dir ''configure'';
         script = replace_char CHR 0x5C CHR ''/'' (replace_all [CHR ''C'', CHR '':'', CHR 0x5C] ''/c/'' configure);
         cmd = \<lparr>program = ''sh'',
           cargs = [script, ''--with-version='' @ je_version, ''--enable-option-checking=fatal'', ''--disable-cxx'',
             ''--enable-doc=no'', ''--enable-shared=no''],
           dir = Some build_dir, cenv = [(''CC'', cc), (''EXTRA_CFLAGS'', cflags)]\<rparr>;
         cmd = (if sublist ''ios'' target then arg cmd ''--with-lg-page=14'' else cmd)
     in if sublist ''openbsd'' target then arg cmd ''--disable-dss'' else cmd)"

definition feature_args :: "host \<Rightarrow> string \<Rightarrow> command \<Rightarrow> command" where
  "feature_args H target cmd =
    (let cmd = feature_flag H cmd ''CACHE_OBLIVIOUS'' ''cache-oblivious'';
         cmd = feature_flag H cmd ''CHECK_SAFETY'' ''opt-safety-checks'';
         cmd = feature_flag H cmd ''CHECK_SIZE_MATCH'' ''opt-size-checks'';
         cmd = feature_flag H cmd ''CHECK_USE_AFTER_FREE'' ''uaf-detection'';
         cmd = feature_flag H cmd ''FILL'' ''fill'';
         cmd = feature_flag H cmd ''INITIAL_EXEC_TLS'' ''initial-exec-tls'';
         cmd = feature_flag H cmd ''PAGEID'' ''pageid'';
         cmd = feature_flag H cmd ''PROFILING'' ''prof'';
         cmd = (if vars H ''CARGO_FEATURE_PROFILING_FRAMEPTR'' \<noteq> None \<and> sublist ''linux'' target
                then arg cmd ''--enable-prof-frameptr'' else cmd)
     in feature_flag H cmd ''STATS'' ''stats'')"

definition prefix_args :: "bool \<Rightarrow> command \<Rightarrow> command" where
  "prefix_args use_prefix cmd =
    (let cmd = (if use_prefix then arg cmd ''--with-jemalloc-prefix=_rjem_'' else cmd)
     in arg cmd ''--with-private-namespace=_rjem_'')"

definition debug_args :: "host \<Rightarrow> command \<Rightarrow> command" where
  "debug_args H cmd =
    (if script_debug H \<or> vars H ''CARGO_CFG_DEBUG_ASSERTIONS'' \<noteq> None then arg cmd ''--enable-debug''
     else (arg cmd ''--disable-debug'')\<lparr>cenv := cenv cmd @ [(''CPPFLAGS'', ''-DNDEBUG'')]\<rparr>)"

definition configure_command ::
    "host \<Rightarrow> string \<Rightarrow> string \<Rightarrow> string \<Rightarrow> string \<Rightarrow> bool \<Rightarrow> string \<times> string \<Rightarrow> (build_state, command) comp" where
  "configure_command H target hst out_dir je_version use_prefix cc =
    (let build_dir = path_join out_dir ''build'' in
     run_then (malloc_conf_arg H (initial_command target build_dir (fst cc) (snd cc) je_version)) (\<lambda>cmd.
     run_then (env_arg H ''JEMALLOC_SYS_WITH_LG_PAGE'' ''--with-lg-page='' cmd) (\<lambda>cmd.
     run_then (env_arg H ''JEMALLOC_SYS_WITH_LG_HUGEPAGE'' ''--with-lg-hugepage='' cmd) (\<lambda>cmd.
     run_then (env_arg H ''JEMALLOC_SYS_WITH_LG_QUANTUM'' ''--with-lg-quantum='' cmd) (\<lambda>cmd.
     run_then (env_arg H ''JEMALLOC_SYS_WITH_LG_VADDR'' ''--with-lg-vaddr='' cmd) (\<lambda>cmd.
     let cmd = feature_args H target (debug_args H (prefix_args use_prefix cmd));
         cmd = arg cmd (''--host='' @ gnu_target target);
         cmd = arg cmd (''--build='' @ gnu_target hst)
     in ret (arg cmd (''--prefix='' @ out_dir))))))))"

text \<open>Make, its optional tests, and installation.\<close>

definition make_steps :: "host \<Rightarrow> string \<Rightarrow> string \<Rightarrow> string \<Rightarrow> (build_state, unit) comp" where
  "make_steps H hst num_jobs build_dir =
    (let mk = make_cmd hst;
         make = (\<lambda>args. \<lparr>program = mk, cargs = args, dir = Some build_dir, cenv = []\<rparr>) in
     run_then (run H (make [''-j'', num_jobs])) (\<lambda>_.
     run_then (if vars H ''JEMALLOC_SYS_RUN_JEMALLOC_TESTS'' \<noteq> None
               then run_then (run H (make [''-j'', num_jobs, ''tests''])) (\<lambda>_. run H (make [''check'']))
               else ret ()) (\<lambda>_.
     run H (make [''install_lib_static'', ''install_include'', ''-j'', num_jobs]))))"

text \<open>The link directives. The archive \<^verbatim>\<open>cc\<close> makes for Android comes with link lines of its own.\<close>

definition link_bundled :: "host \<Rightarrow> string \<Rightarrow> string \<Rightarrow> (build_state, unit) comp" where
  "link_bundled H target out_dir =
     run_then (emit (''cargo:root='' @ out_dir)) (\<lambda>_.
     run_then (if sublist ''windows'' target then emit ''cargo:rustc-link-lib=static=jemalloc''
               else emit ''cargo:rustc-link-lib=static=jemalloc_pic'') (\<lambda>_.
     run_then (emit (''cargo:rustc-link-search=native='' @ path_join out_dir ''build'' @ ''/lib'')) (\<lambda>_.
     run_then (if \<not> sublist ''windows'' target \<and> \<not> sublist ''android'' target
               then emit ''cargo:rustc-link-arg=-pthread'' else ret ()) (\<lambda>_.
     run_then (if sublist ''riscv'' target then emit ''cargo:rustc-link-lib=atomic'' else ret ()) (\<lambda>_.
     run_then (emit ''cargo:rerun-if-changed=jemalloc'') (\<lambda>_.
     if sublist ''android'' target
     then run_then (\<lambda>t. rust_assert (cc_compiles H)
            (t\<lparr>log := log t @ Cc_compile ''src/pthread_atfork.c'' ''pthread_atfork'' #
              map Line (cc_compile_lines H ''src/pthread_atfork.c'' ''pthread_atfork'')\<rparr>)) (\<lambda>_.
          emit ''cargo:rerun-if-changed=src/pthread_atfork.c'')
     else ret ()))))))"

definition build_bundled ::
    "host \<Rightarrow> string \<Rightarrow> string \<Rightarrow> string \<Rightarrow> string \<Rightarrow> string \<Rightarrow> bool \<Rightarrow> (build_state, unit) comp" where
  "build_bundled H target hst num_jobs out_dir je_version use_prefix =
     run_then (compiler H) (\<lambda>cc.
     run_then (prepare H out_dir) (\<lambda>_.
     run_then (configure_command H target hst out_dir je_version use_prefix cc) (\<lambda>cmd.
     run_then (run_and_log H cmd (path_join (path_join out_dir ''build'') ''config.log'')) (\<lambda>_.
     run_then (make_steps H hst num_jobs (path_join out_dir ''build'')) (\<lambda>_.
     link_bundled H target out_dir)))))"

definition build_main :: "host \<Rightarrow> (build_state, unit) comp" where
  "build_main H =
     run_then (expect_env H ''TARGET'') (\<lambda>target.
     run_then (expect_env H ''HOST'') (\<lambda>hst.
     run_then (expect_env H ''NUM_JOBS'') (\<lambda>num_jobs.
     run_then (expect_env H ''OUT_DIR'') (\<lambda>out_dir.
     run_then (unwrap (current_dir H)) (\<lambda>src_dir.
     run_then (expect_env H ''CARGO_PKG_VERSION'') (\<lambda>version.
     run_then (unwrap (split_once CHR ''+'' version)) (\<lambda>v.
     run_then (check_target H target) (\<lambda>use_prefix.
     run_then (read_and_watch_env_os H ''JEMALLOC_OVERRIDE'') (\<lambda>override.
     case override of
       Some jemalloc \<Rightarrow> link_override H jemalloc
     | None \<Rightarrow> build_bundled H target hst num_jobs out_dir (snd v) use_prefix)))))))))"

section \<open>What a run does to the log\<close>

text \<open>Every value a step can return.\<close>

definition yields :: "('s, 'a) comp \<Rightarrow> ('a \<Rightarrow> bool) \<Rightarrow> bool" where
  "yields m Q \<longleftrightarrow> (\<forall>s x t. m s = (Done x, t) \<longrightarrow> Q x)"

lemma yields_ret: "Q x \<Longrightarrow> yields (ret x) Q"
  by (simp add: yields_def)

lemma yields_then: "(\<And>x. yields (f x) Q) \<Longrightarrow> yields (run_then m f) Q"
  by (auto simp: yields_def run_then_Done_iff)

lemma yields_then': "yields m P \<Longrightarrow> (\<And>x. P x \<Longrightarrow> yields (f x) Q) \<Longrightarrow> yields (run_then m f) Q"
  unfolding yields_def run_then_Done_iff by blast

text \<open>
  A relation between the state before and after a run that holds of doing nothing and of doing one
  thing after another holds of a whole script as soon as it holds of its parts, however the run ends.
\<close>

locale run_relation =
  fixes R :: "build_state \<Rightarrow> build_state \<Rightarrow> bool"
  assumes same: "R s s"
    and chained: "R s t \<Longrightarrow> R t u \<Longrightarrow> R s u"
begin

definition obeys :: "(build_state, 'a) comp \<Rightarrow> bool" where
  "obeys m \<longleftrightarrow> (\<forall>s r t. m s = (r, t) \<longrightarrow> R s t)"

lemma obeysD: "obeys m \<Longrightarrow> m s = (r, t) \<Longrightarrow> R s t"
  by (simp add: obeys_def)

lemma obeys_done [simp, intro]: "obeys (Pair r)"
  by (simp add: obeys_def same)

lemma obeys_assert [simp, intro]: "obeys (rust_assert b)"
  by (simp add: rust_assert_def)

lemma obeys_then [intro]: "obeys m \<Longrightarrow> (\<And>x. obeys (f x)) \<Longrightarrow> obeys (run_then m f)"
  unfolding obeys_def run_then_def
  by (auto split: prod.splits outcome.splits) (metis chained)

lemma obeys_yields:
  assumes "obeys m" and "yields m P" and "\<And>x. P x \<Longrightarrow> obeys (f x)"
  shows "obeys (run_then m f)"
  unfolding obeys_def
proof (intro allI impI)
  fix s r t
  assume run: "run_then m f s = (r, t)"
  obtain r' u where m: "m s = (r', u)" by fastforce
  have su: "R s u" by (rule obeysD [OF assms(1) m])
  show "R s t"
  proof (cases r')
    case (Done x)
    then have "P x" using assms(2) m by (auto simp: yields_def)
    moreover have "f x u = (r, t)" using run m Done by (simp add: run_then_def)
    ultimately show ?thesis using su assms(3) obeysD chained by blast
  qed (use run m su in \<open>auto simp: run_then_def\<close>)
qed

lemma obeys_env [simp, intro]: "obeys (expect_env H name)"
  by (auto simp: expect_env_def split: option.splits)

lemma obeys_unwrap [simp, intro]: "obeys (unwrap x)"
  by (auto simp: unwrap_def split: option.splits)

lemma obeys_str_from [simp, intro]: "obeys (str_from n x)"
  by (simp add: str_from_def)

lemma obeys_watch:
  assumes "\<And>n. obeys (emit (''cargo:rerun-if-env-changed='' @ n))"
  shows "obeys (read_and_watch_env_impl H name g)"
  unfolding read_and_watch_env_impl_def Let_def
  by (intro obeys_then obeys_env assms, simp only: split: option.split)
     (intro conjI impI allI obeys_done obeys_then assms)

end

text \<open>Only lines are added to the log and the build directory is left alone.\<close>

definition only_lines :: "build_state \<Rightarrow> build_state \<Rightarrow> bool" where
  "only_lines s t \<longleftrightarrow> build_tree t = build_tree s \<and> (\<exists>new. log t = log s @ map Line new)"

interpretation lines: run_relation only_lines
proof
  show "only_lines s s" for s by (simp add: only_lines_def)
  show "only_lines s u" if "only_lines s t" "only_lines t u" for s t u
    using that by (auto simp: only_lines_def simp flip: map_append)
qed

lemma lines_emit [simp, intro]: "lines.obeys (emit x)"
proof -
  have "\<exists>new. [Line x] = map Line new" by (intro exI [of _ "[x]"]) simp
  then show ?thesis by (auto simp: lines.obeys_def emit_def only_lines_def)
qed

lemma lines_emit_all [simp, intro]: "lines.obeys (emit_all xs)"
  by (auto simp: lines.obeys_def emit_all_def only_lines_def)

lemma lines_check_target: "lines.obeys (check_target H target)"
  unfolding check_target_def warning_def Let_def by (intro lines.obeys_then) auto

lemma lines_override: "lines.obeys (link_override H path)"
  unfolding link_override_def Let_def by (intro lines.obeys_then) auto

section \<open>Prefixed symbols\<close>

abbreviation cfg_line :: event where
  "cfg_line \<equiv> Line ''cargo:rustc-cfg=prefixed''"

abbreviation prefix_flag :: string where
  "prefix_flag \<equiv> ''--with-jemalloc-prefix=''"

abbreviation host_flag :: string where
  "host_flag \<equiv> ''--host=''"

text \<open>The value a configure command line gives an option: that of its last occurrence.\<close>

fun requested :: "string \<Rightarrow> string list \<Rightarrow> string option" where
  "requested opt [] = None"
| "requested opt (a # as) = (case requested opt as of
     Some v \<Rightarrow> Some v
   | None \<Rightarrow> if prefix opt a then Some (drop (length opt) a) else None)"

abbreviation requested_prefix :: "string list \<Rightarrow> string option" where
  "requested_prefix \<equiv> requested prefix_flag"

lemma requested_snoc:
  "requested opt (as @ [a]) = (if prefix opt a then Some (drop (length opt) a) else requested opt as)"
  by (induction as) (auto split: option.splits)

definition symbol_prefix :: "bool \<Rightarrow> string option" where
  "symbol_prefix b = (if b then Some ''_rjem_'' else None)"

text \<open>The events of a build with the given choice for a target: the crate is not told of a prefix again, and a
  configure command asks for the prefix exactly when chosen, and for the target.\<close>

definition agrees :: "bool \<Rightarrow> string \<Rightarrow> event \<Rightarrow> bool" where
  "agrees b target e \<longleftrightarrow> e \<noteq> cfg_line \<and>
     (\<forall>c. e = Start c \<longrightarrow> program c = ''sh'' \<longrightarrow> requested_prefix (tl (cargs c)) = symbol_prefix b \<and>
       requested host_flag (tl (cargs c)) = Some (gnu_target target))"

definition all_agree :: "bool \<Rightarrow> string \<Rightarrow> build_state \<Rightarrow> build_state \<Rightarrow> bool" where
  "all_agree b target s t \<longleftrightarrow> (\<exists>new. log t = log s @ new \<and> list_all (agrees b target) new)"

interpretation agree: run_relation "all_agree b target" for b target
proof
  show "all_agree b target s s" for s by (simp add: all_agree_def)
  show "all_agree b target s u" if "all_agree b target s t" "all_agree b target t u" for s t u
    using that by (auto simp: all_agree_def)
qed

lemma agree_event:
  assumes "agrees b target e" and "\<And>s. log (snd (m s)) = log s @ [e]"
  shows "agree.obeys b target m"
  unfolding agree.obeys_def all_agree_def
proof (intro allI impI)
  fix s r t
  assume "m s = (r, t)"
  then have "log t = log s @ [e]" using assms(2) [of s] by simp
  then show "\<exists>new. log t = log s @ new \<and> list_all (agrees b target) new" using assms(1) by simp
qed

lemma agree_emit: "x \<noteq> ''cargo:rustc-cfg=prefixed'' \<Longrightarrow> agree.obeys b target (emit x)"
  by (rule agree_event [of b target "Line x"]) (simp_all add: agrees_def emit_def)

lemma agree_start:
  assumes "program c = ''sh'' \<Longrightarrow> requested_prefix (tl (cargs c)) = symbol_prefix b \<and>
    requested host_flag (tl (cargs c)) = Some (gnu_target target)"
  shows "agree.obeys b target (start H c)"
  using assms by (intro agree_event [of b target "Start c"]) (auto simp: agrees_def start_def split: prod.splits)

lemma agree_run:
  assumes "program c \<noteq> ''sh''"
  shows "agree.obeys b target (run H c)"
  unfolding run_def execute_def using assms
  by (intro agree.obeys_then agree_start) (auto split: exit_status.splits)

lemma agree_watch: "agree.obeys b target (read_and_watch_env_impl H name g)"
  by (rule agree.obeys_watch, rule agree_emit) simp

lemma agree_tree:
  assumes "\<And>s. log (snd (m s)) = log s"
  shows "agree.obeys b target m"
  unfolding agree.obeys_def all_agree_def
proof (intro allI impI)
  fix s r t
  assume "m s = (r, t)"
  then have "log t = log s" using assms [of s] by simp
  then show "\<exists>new. log t = log s @ new \<and> list_all (agrees b target) new" by simp
qed

lemma agree_prepare: "agree.obeys b target (prepare H out_dir)"
  unfolding prepare_def
proof (intro agree.obeys_then agree.obeys_assert)
  show "agree.obeys b target (emit ''cargo:rerun-if-changed=configure'')"
    by (rule agree_emit) simp
  show "agree.obeys b target remove_build" "agree.obeys b target (copy_sources H)" "agree.obeys b target (copy_config H)"
    "agree.obeys b target (\<lambda>t. rust_assert (build_tree t \<noteq> None) t)"
    by (rule agree_tree, simp add: remove_build_def copy_sources_def copy_config_def rust_assert_def
        split: option.splits tree.splits prod.splits sum.splits)+
qed

lemma agree_make: "agree.obeys b target (make_steps H hst n build_dir)"
proof -
  have "make_cmd hst \<noteq> ''sh''" by (simp add: make_cmd_def)
  then have "agree.obeys b target (run H \<lparr>program = make_cmd hst, cargs = as, dir = d, cenv = e\<rparr>)" for as d e
    by (intro agree_run) simp
  then show ?thesis
    unfolding make_steps_def Let_def by (auto intro!: agree.obeys_then)
qed

text \<open>\<^verbatim>\<open>cc\<close> tells Cargo nothing about a prefix.\<close>

definition cc_plain :: "host \<Rightarrow> bool" where
  "cc_plain H \<longleftrightarrow> (\<forall>a b. ''cargo:rustc-cfg=prefixed'' \<notin> set (cc_lines H a b) \<union> set (cc_compile_lines H a b))"

lemma agree_emit_all: "''cargo:rustc-cfg=prefixed'' \<notin> set xs \<Longrightarrow> agree.obeys b target (emit_all xs)"
  by (auto simp: agree.obeys_def all_agree_def emit_all_def agrees_def list_all_iff)

lemma agree_link:
  assumes "cc_plain H"
  shows "agree.obeys b target (link_bundled H tgt out_dir)"
proof -
  have cc: "agree.obeys b target (\<lambda>t. rust_assert (cc_compiles H)
      (t\<lparr>log := log t @ Cc_compile ''src/pthread_atfork.c'' ''pthread_atfork'' #
        map Line (cc_compile_lines H ''src/pthread_atfork.c'' ''pthread_atfork'')\<rparr>))"
    using assms by (auto simp: agree.obeys_def all_agree_def rust_assert_def agrees_def list_all_iff cc_plain_def)
  show ?thesis
    unfolding link_bundled_def
    by (intro agree.obeys_then) (auto intro!: agree_emit agree.obeys_then cc split: if_splits)
qed

definition conf :: "bool \<Rightarrow> string \<Rightarrow> command \<Rightarrow> bool" where
  "conf b d c \<longleftrightarrow> program c = ''sh'' \<and> dir c = Some d \<and> cargs c \<noteq> [] \<and>
     requested_prefix (tl (cargs c)) = symbol_prefix b"

definition configured :: "bool \<Rightarrow> string \<Rightarrow> string \<Rightarrow> command \<Rightarrow> bool" where
  "configured b target d c \<longleftrightarrow> conf b d c \<and> requested host_flag (tl (cargs c)) = Some (gnu_target target)"

lemma conf_arg_any:
  "conf b d c \<Longrightarrow> program (arg c a) = ''sh'' \<and> dir (arg c a) = Some d \<and> cargs (arg c a) \<noteq> [] \<and>
     requested_prefix (tl (cargs (arg c a))) =
       (if prefix prefix_flag a then Some (drop (length prefix_flag) a) else symbol_prefix b)"
  by (cases "cargs c") (auto simp: conf_def arg_def requested_snoc)

lemma conf_argI: "conf b d c \<Longrightarrow> \<not> prefix prefix_flag a \<Longrightarrow> conf b d (arg c a)"
  using conf_arg_any [of b d c a] by (simp add: conf_def)

lemma conf_feature: "conf b d c \<Longrightarrow> conf b d (feature_flag H c f opt)"
  using conf_argI [of b d c "''--enable-'' @ opt"] conf_argI [of b d c "''--disable-'' @ opt"]
  by (auto simp: feature_flag_def arg_def)

lemma conf_features: "conf b d c \<Longrightarrow> conf b d (feature_args H target c)"
  unfolding feature_args_def Let_def by (auto intro!: conf_feature conf_argI)

lemma conf_debug: "conf b d c \<Longrightarrow> conf b d (debug_args H c)"
  using conf_argI [of b d c "''--enable-debug''"] conf_argI [of b d c "''--disable-debug''"]
  by (auto simp: debug_args_def conf_def)

lemma conf_prefix:
  assumes "conf False d c"
  shows "conf b d (prefix_args b c)"
proof (cases b)
  case True
  have "conf True d (arg c ''--with-jemalloc-prefix=_rjem_'')"
    using conf_arg_any [OF assms, of "''--with-jemalloc-prefix=_rjem_''"] by (simp add: conf_def symbol_prefix_def)
  with True show ?thesis by (simp add: prefix_args_def conf_argI)
next
  case False
  with assms show ?thesis by (simp add: prefix_args_def conf_argI)
qed

lemma conf_initial: "conf False build_dir (initial_command target build_dir cc cflags v)"
  by (auto simp: initial_command_def Let_def conf_def arg_def symbol_prefix_def)

lemma conf_env_arg:
  assumes "conf b d c" and "\<And>x. \<not> prefix prefix_flag (opt @ x)"
  shows "yields (env_arg H name opt c) (conf b d)"
  unfolding env_arg_def using assms
  by (intro yields_then yields_ret) (auto intro: conf_argI split: option.splits)

lemma conf_malloc_conf: "conf b d c \<Longrightarrow> yields (malloc_conf_arg H c) (conf b d)"
  unfolding malloc_conf_arg_def Let_def
  by (intro yields_then yields_ret) (auto intro: conf_argI split: option.splits)

lemma conf_last_args:
  assumes "conf b d c"
  shows "configured b target d
    (arg (arg (arg c (''--host='' @ gnu_target target)) (''--build='' @ x)) (''--prefix='' @ y))"
proof -
  have "conf b d (arg (arg (arg c (''--host='' @ gnu_target target)) (''--build='' @ x)) (''--prefix='' @ y))"
    by (intro conf_argI assms) simp_all
  moreover obtain a as where "cargs c = a # as" using assms by (cases "cargs c") (auto simp: conf_def)
  then have "tl (cargs (arg (arg (arg c (''--host='' @ gnu_target target)) (''--build='' @ x)) (''--prefix='' @ y))) =
      ((as @ [''--host='' @ gnu_target target]) @ [''--build='' @ x]) @ [''--prefix='' @ y]"
    by (simp add: arg_def)
  ultimately show ?thesis
    by (simp add: configured_def requested_snoc del: append_assoc)
qed

lemma conf_configure:
  "yields (configure_command H target hst out_dir v b cc) (configured b target (path_join out_dir ''build''))"
  unfolding configure_command_def Let_def
  by (intro yields_then' [OF conf_malloc_conf [OF conf_initial]] yields_then' [OF conf_env_arg] yields_ret
      conf_last_args conf_features conf_debug conf_prefix) simp_all

lemma agree_configure: "agree.obeys b target (configure_command H tgt hst out_dir v b' cc)"
  unfolding configure_command_def malloc_conf_arg_def env_arg_def read_and_watch_env_def Let_def
  by (intro agree.obeys_then agree_watch agree.obeys_done)

lemma agree_run_and_log: "configured b target d c \<Longrightarrow> agree.obeys b target (run_and_log H c file)"
  unfolding run_and_log_def execute_def
  by (intro agree.obeys_then agree_start)
     (auto simp: configured_def conf_def intro!: agree.obeys_then agree_run split: exit_status.splits)

lemma agree_bundled:
  assumes "cc_plain H"
  shows "agree.obeys b target (build_bundled H target hst n out_dir v b)"
proof -
  have "agree.obeys b target (compiler H)"
    using assms unfolding compiler_def Let_def cc_plain_def
    by (intro agree.obeys_then agree.obeys_unwrap agree_emit_all) (auto split: prod.splits)
  then show ?thesis
    unfolding build_bundled_def
    by (intro agree.obeys_then agree_prepare agree.obeys_yields [OF agree_configure conf_configure]
        agree_run_and_log agree_make agree_link [OF assms])
qed

text \<open>The choice of prefixed symbols: what \<open>check_target\<close> tells the compiler and returns.\<close>

definition prefixed :: "host \<Rightarrow> string \<Rightarrow> bool" where
  "prefixed H target \<longleftrightarrow> vars H ''CARGO_FEATURE_UNPREFIXED_MALLOC_ON_SUPPORTED_PLATFORMS'' = None \<or>
     any_in NO_UNPREFIXED_MALLOC_TARGETS target"

lemma check_target_lines:
  assumes "check_target H target s = (Done b, u)"
  shows "\<exists>new. log u = log s @ map Line new \<and> (''cargo:rustc-cfg=prefixed'' \<in> set new \<longleftrightarrow> b) \<and> b = prefixed H target"
proof -
  let ?warn = "\<lambda>x. [''cargo:warning='' @ [CHR 0x22] @ x @ [CHR 0x22]]"
  let ?untested = "if any_in UNTESTED_TARGETS target
      then ?warn (''jemalloc support for `'' @ target @ ''` is untested'') else []"
  let ?wanted = "vars H ''CARGO_FEATURE_UNPREFIXED_MALLOC_ON_SUPPORTED_PLATFORMS'' \<noteq> None"
  let ?forced = "?wanted \<and> any_in NO_UNPREFIXED_MALLOC_TARGETS target"
  let ?forcing = "if ?forced
      then ?warn (''Unprefixed `malloc` requested on unsupported platform `'' @ target @
        ''` => using prefixed `malloc`'') else []"
  have b: "b \<longleftrightarrow> \<not> ?wanted \<or> ?forced"
    using assms
    by (auto simp: check_target_def warning_def emit_def Let_def run_then_Done_iff rust_assert_def split: if_splits)
  have "log u = log s @ map Line (?untested @ ?forcing @ [''cargo::rustc-check-cfg=cfg(prefixed)''] @
      (if b then [''cargo:rustc-cfg=prefixed''] else []))"
    using assms
    by (auto simp: check_target_def warning_def emit_def Let_def run_then_Done_iff rust_assert_def split: if_splits)
  moreover have "b = prefixed H target" using b by (auto simp: prefixed_def)
  ultimately show ?thesis
    by (intro exI conjI) (assumption, simp, simp)
qed

text \<open>The beginning of a run: either a required variable is missing, or the targets are checked.\<close>

lemma build_main_cases:
  assumes "build_main H s = (r, t)"
  obtains (missing) "r = Panicked" "t = s"
  | (checked) target hst n out_dir v where "vars H ''TARGET'' = Some target" and
      "run_then (check_target H target) (\<lambda>b.
       run_then (read_and_watch_env_os H ''JEMALLOC_OVERRIDE'') (\<lambda>ov. case ov of
         Some jemalloc \<Rightarrow> link_override H jemalloc
       | None \<Rightarrow> build_bundled H target hst n out_dir v b)) s = (r, t)"
  using assms unfolding build_main_def expect_env_def unwrap_def
  by (auto split: option.splits)

lemma started_lines: "only_lines s t \<Longrightarrow> Start c \<in> set (log t) \<longleftrightarrow> Start c \<in> set (log s)"
  by (auto simp: only_lines_def)

text \<open>
  The two sides of a build agree on symbol names: however the run ends, every configure command asks
  for the prefix exactly when the compiler was told that the crate's symbols are prefixed, and for the target.
\<close>

lemma prefix_choice:
  assumes "build_main H \<lparr>log = [], build_tree = tree\<rparr> = (r, t)"
    and "Start c \<in> set (log t)" and "program c = ''sh''" and "cc_plain H" and "vars H ''TARGET'' = Some target"
  shows "requested_prefix (tl (cargs c)) = symbol_prefix (cfg_line \<in> set (log t)) \<and>
    requested host_flag (tl (cargs c)) = Some (gnu_target target) \<and>
    (cfg_line \<in> set (log t) \<longleftrightarrow> prefixed H target)"
  using assms(1)
proof (cases rule: build_main_cases)
  case missing
  with assms(2) show ?thesis by simp
next
  case (checked target' hst n out_dir v)
  have "target' = target" using checked(1) assms(5) by simp
  note checked = checked(1) checked(2) [unfolded this]
  let ?s = "\<lparr>log = [], build_tree = tree\<rparr>"
  obtain x u where u: "check_target H target ?s = (x, u)" by fastforce
  then have "only_lines ?s u" by (rule lines.obeysD [OF lines_check_target])
  show ?thesis
  proof (cases x)
    case (Done b)
    from check_target_lines [OF u [unfolded Done]] obtain new where
      new: "log u = map Line new" "''cargo:rustc-cfg=prefixed'' \<in> set new \<longleftrightarrow> b" "b = prefixed H target" by auto
    have "agree.obeys b target (link_override H j)" for j
      unfolding link_override_def Let_def
      by (intro agree.obeys_then agree.obeys_assert agree.obeys_unwrap agree.obeys_str_from agree_emit) simp_all
    then have "agree.obeys b target (run_then (read_and_watch_env_os H ''JEMALLOC_OVERRIDE'') (\<lambda>ov. case ov of
         Some jemalloc \<Rightarrow> link_override H jemalloc
       | None \<Rightarrow> build_bundled H target hst n out_dir v b))"
      unfolding read_and_watch_env_os_def
      by (intro agree.obeys_then agree_watch) (auto intro: agree_bundled [OF assms(4)] split: option.splits)
    moreover have "run_then (read_and_watch_env_os H ''JEMALLOC_OVERRIDE'') (\<lambda>ov. case ov of
         Some jemalloc \<Rightarrow> link_override H jemalloc
       | None \<Rightarrow> build_bundled H target hst n out_dir v b) u = (r, t)"
      using checked(2) u Done by (simp add: run_then_def)
    ultimately have "all_agree b target u t" by (rule agree.obeysD)
    then obtain more where more: "log t = log u @ more" "list_all (agrees b target) more"
      by (auto simp: all_agree_def)
    then have "cfg_line \<notin> set more" by (auto simp: list_all_iff agrees_def)
    moreover have "Start c \<in> set more" using assms(2) more(1) new(1) by auto
    ultimately have "requested_prefix (tl (cargs c)) = symbol_prefix b \<and>
        requested host_flag (tl (cargs c)) = Some (gnu_target target)"
      using more(2) assms(3) by (simp add: list_all_iff agrees_def)
    moreover have "cfg_line \<in> set (log t) \<longleftrightarrow> b"
      using more(1) new(1,2) \<open>cfg_line \<notin> set more\<close> by auto
    ultimately show ?thesis using new(3) by simp
  qed (use checked(2) u assms(2) started_lines [OF \<open>only_lines ?s u\<close>] in \<open>auto simp: run_then_def\<close>)
qed

section \<open>Properties\<close>

text \<open>
  C32. A library supplied by the caller is only linked: with \<^verbatim>\<open>JEMALLOC_OVERRIDE\<close> set, in its plain or in
  its target-prefixed form, the script starts no program, compiles nothing and leaves the build
  directory alone, however the run ends.
\<close>

theorem override_starts_nothing:
  assumes "build_main H s = (r, t)" and "vars H ''TARGET'' = Some target"
    and "vars H ''JEMALLOC_OVERRIDE'' \<noteq> None \<or>
      vars H (replace_char CHR ''-'' CHR ''_'' (to_uppercase target) @ ''_JEMALLOC_OVERRIDE'') \<noteq> None"
  shows "build_tree t = build_tree s \<and> (\<exists>new. log t = log s @ map Line new)"
  using assms(1)
proof (cases rule: build_main_cases)
  case missing
  then show ?thesis by simp
next
  case (checked target' hst n out_dir v)
  have some: "yields (read_and_watch_env_os H ''JEMALLOC_OVERRIDE'') (\<lambda>ov. ov \<noteq> None)"
    using assms(2,3)
    by (auto simp: yields_def read_and_watch_env_os_def read_and_watch_env_impl_def expect_env_def Let_def
        run_then_Done_iff emit_def split: option.splits)
  have watch: "lines.obeys (read_and_watch_env_os H ''JEMALLOC_OVERRIDE'')"
    unfolding read_and_watch_env_os_def by (rule lines.obeys_watch) simp
  have rest: "lines.obeys (run_then (read_and_watch_env_os H ''JEMALLOC_OVERRIDE'') (\<lambda>ov. case ov of
       Some jemalloc \<Rightarrow> link_override H jemalloc
     | None \<Rightarrow> build_bundled H target' hst n out_dir v b))" for b
    by (rule lines.obeys_yields [OF watch some]) (auto intro: lines_override)
  have "only_lines s t"
    by (rule lines.obeysD [OF lines.obeys_then [OF lines_check_target rest] checked(2)])
  then show ?thesis by (simp add: only_lines_def)
qed

section \<open>The order of the programs\<close>

text \<open>The programs a log says were started.\<close>

definition started :: "build_state \<Rightarrow> command list" where
  "started s = concat (map (\<lambda>e. case e of Start c \<Rightarrow> [c] | _ \<Rightarrow> []) (log s))"

text \<open>A sequence of commands, each after the success of the one before.\<close>

fun run_all :: "host \<Rightarrow> command list \<Rightarrow> (build_state, unit) comp" where
  "run_all H [] = ret ()"
| "run_all H (c # cs) = run_then (run H c) (\<lambda>_. run_all H cs)"

lemma run_eq:
  "run H c s = (if fst (spawn H c (build_tree s)) = Exited True then Done () else Panicked,
     s\<lparr>log := log s @ [Start c], build_tree := snd (spawn H c (build_tree s))\<rparr>)"
  by (auto simp: run_def execute_def run_then_def start_def split: prod.splits exit_status.splits bool.splits)

text \<open>
  What the programs make of the tree when each is started in the tree its predecessor left, and that all of
  them succeed.
\<close>

fun tree_after :: "host \<Rightarrow> command list \<Rightarrow> tree option \<Rightarrow> tree option" where
  "tree_after H [] t = t"
| "tree_after H (c # cs) t = tree_after H cs (snd (spawn H c t))"

fun succeed :: "host \<Rightarrow> command list \<Rightarrow> tree option \<Rightarrow> bool" where
  "succeed H [] t \<longleftrightarrow> True"
| "succeed H (c # cs) t \<longleftrightarrow> fst (spawn H c t) = Exited True \<and> succeed H cs (snd (spawn H c t))"

text \<open>The \<open>k\<close>-th program is the first that is not started or fails.\<close>

definition stops_at :: "host \<Rightarrow> command list \<Rightarrow> tree option \<Rightarrow> nat \<Rightarrow> bool" where
  "stops_at H cs t k \<longleftrightarrow> k < length cs \<and> succeed H (take k cs) t \<and>
     fst (spawn H (cs ! k) (tree_after H (take k cs) t)) \<noteq> Exited True"

lemma stops_at_simps [simp]:
  "stops_at H (c # cs) t 0 \<longleftrightarrow> fst (spawn H c t) \<noteq> Exited True"
  "stops_at H (c # cs) t (Suc k) \<longleftrightarrow> fst (spawn H c t) = Exited True \<and> stops_at H cs (snd (spawn H c t)) k"
  by (auto simp: stops_at_def)

lemma run_all_started:
  assumes "run_all H cs s = (r, t)"
  shows "(r = Done () \<and> succeed H cs (build_tree s) \<and> started t = started s @ cs) \<or>
    (r = Panicked \<and> (\<exists>k. stops_at H cs (build_tree s) k \<and> started t = started s @ take (Suc k) cs))"
  using assms
proof (induction cs arbitrary: s)
  case Nil
  then show ?case by simp
next
  case (Cons c cs)
  let ?u = "s\<lparr>log := log s @ [Start c], build_tree := snd (spawn H c (build_tree s))\<rparr>"
  have u: "started ?u = started s @ [c]" by (simp add: started_def)
  show ?case
  proof (cases "fst (spawn H c (build_tree s)) = Exited True")
    case True
    then have "run_all H cs ?u = (r, t)"
      using Cons.prems by (simp add: run_then_def run_eq)
    from Cons.IH [OF this] show ?thesis
    proof (elim disjE conjE exE)
      fix k
      assume "stops_at H cs (build_tree ?u) k" "started t = started ?u @ take (Suc k) cs" "r = Panicked"
      then show ?thesis using u True by (intro disjI2 conjI exI [of _ "Suc k"]) simp_all
    qed (use u True in simp)
  next
    case False
    with Cons.prems have "r = Panicked" "t = ?u"
      by (auto simp: run_then_def run_eq)
    with u False show ?thesis by (intro disjI2 conjI exI [of _ 0]) simp_all
  qed
qed

definition make_list :: "host \<Rightarrow> string \<Rightarrow> string \<Rightarrow> string \<Rightarrow> command list" where
  "make_list H hst num_jobs build_dir =
     map (\<lambda>as. \<lparr>program = make_cmd hst, cargs = as, dir = Some build_dir, cenv = []\<rparr>)
      ([[''-j'', num_jobs]] @
       (if vars H ''JEMALLOC_SYS_RUN_JEMALLOC_TESTS'' \<noteq> None then [[''-j'', num_jobs, ''tests''], [''check'']] else []) @
       [[''install_lib_static'', ''install_include'', ''-j'', num_jobs]])"

lemma run_then_ret_unit: "run_then m (\<lambda>_. ret ()) = (m :: ('s, unit) comp)"
  by (rule ext) (simp add: run_then_def split: prod.splits outcome.splits)

lemma make_steps_list: "make_steps H hst n build_dir = run_all H (make_list H hst n build_dir)"
  by (simp add: make_steps_def make_list_def Let_def run_then_ret_unit run_then_assoc)

definition starts_nothing :: "build_state \<Rightarrow> build_state \<Rightarrow> bool" where
  "starts_nothing s t \<longleftrightarrow> started t = started s"

interpretation idle: run_relation starts_nothing
  by unfold_locales (simp_all add: starts_nothing_def)

lemma started_map_Line: "concat (map (\<lambda>e. case e of Start c \<Rightarrow> [c] | _ \<Rightarrow> []) (map Line new)) = []"
  by (induction new) simp_all

lemma only_lines_idle: "only_lines s t \<Longrightarrow> starts_nothing s t"
  using started_map_Line by (auto simp: only_lines_def starts_nothing_def started_def)

lemma idle_lines: "lines.obeys m \<Longrightarrow> idle.obeys m"
  unfolding idle.obeys_def lines.obeys_def using only_lines_idle by blast

lemma idle_emit [simp, intro]: "idle.obeys (emit x)"
  by (rule idle_lines) simp

lemma idle_watch [simp, intro]: "idle.obeys (read_and_watch_env_impl H name g)"
  by (rule idle.obeys_watch) simp

lemma idle_log:
  assumes "\<And>s. log (snd (m s)) = log s"
  shows "idle.obeys m"
  unfolding idle.obeys_def
proof (intro allI impI)
  fix s r t
  assume "m s = (r, t)"
  then show "starts_nothing s t" using assms [of s] by (simp add: starts_nothing_def started_def)
qed

text \<open>The tree configure is started in: the copied sources with the generated configure script.\<close>

definition prepared_tree :: "host \<Rightarrow> tree option" where
  "prepared_tree H = (case (submodule H, config_file H) of
     (Some src, Some bs) \<Rightarrow> (case snd (copy_recursively src None) of
         Some (Dir ds) \<Rightarrow> Some (Dir (put ''configure'' (Some (File bs)) ds)) | _ \<Rightarrow> None)
   | _ \<Rightarrow> None)"

lemma prepare_idle: "idle.obeys (prepare H out_dir)"
  unfolding prepare_def
  by (intro idle.obeys_then idle.obeys_assert idle_emit; rule idle_log;
      simp add: remove_build_def copy_sources_def copy_config_def rust_assert_def
        split: option.splits tree.splits prod.splits sum.splits)

lemma prepare_tree:
  assumes "prepare H out_dir s = (Done y, u)"
  shows "build_tree u = prepared_tree H"
proof -
  obtain v w x where v: "remove_build v = (Done (), w)" and c: "copy_sources H w = (Done (), x)"
    and f: "copy_config H x = (Done y, u)"
    using assms by (auto simp: prepare_def run_then_Done_iff rust_assert_def split: if_splits)
  have "build_tree w = None"
    using v by (auto simp: remove_build_def split: option.split_asm tree.split_asm)
  with c obtain src where "submodule H = Some src" "snd (copy_recursively src None) = build_tree x"
    by (auto simp: copy_sources_def split: option.split_asm prod.split_asm sum.split_asm)
  moreover from f obtain bs ds where "config_file H = Some bs" "build_tree x = Some (Dir ds)"
    "build_tree u = Some (Dir (put ''configure'' (Some (File bs)) ds))"
    by (auto simp: copy_config_def split: option.split_asm tree.split_asm)
  ultimately show ?thesis by (simp add: prepared_tree_def)
qed

text \<open>Building the configure command only reads the environment, whose lines it logs.\<close>

lemma lines_configure: "lines.obeys (configure_command H target hst out_dir v b cc)"
  unfolding configure_command_def malloc_conf_arg_def env_arg_def read_and_watch_env_def Let_def
  by (intro lines.obeys_then lines.obeys_watch lines_emit lines.obeys_done)

lemma lines_compiler: "lines.obeys (compiler H)"
  unfolding compiler_def Let_def
  by (intro lines.obeys_then lines_emit_all lines.obeys_unwrap) (auto split: prod.splits)

lemma idle_link: "idle.obeys (link_bundled H target out_dir)"
proof -
  have "idle.obeys (\<lambda>t. rust_assert (cc_compiles H)
      (t\<lparr>log := log t @ Cc_compile ''src/pthread_atfork.c'' ''pthread_atfork'' #
        map Line (cc_compile_lines H ''src/pthread_atfork.c'' ''pthread_atfork'')\<rparr>))"
    using started_map_Line by (simp add: idle.obeys_def rust_assert_def starts_nothing_def started_def)
  then show ?thesis
    unfolding link_bundled_def
    by (intro idle.obeys_then) (auto intro!: idle.obeys_then)
qed

text \<open>When configure itself was started and failed, its log is printed.\<close>

definition tail_log :: "string \<Rightarrow> command" where
  "tail_log build_dir = \<lparr>program = ''tail'', cargs = [''-n'', ''100'', path_join build_dir ''config.log''],
     dir = None, cenv = []\<rparr>"

lemma run_and_log_cases:
  assumes "run_and_log H c (path_join d ''config.log'') s = (r, t)"
  shows "(fst (spawn H c (build_tree s)) = Exited True \<and> r = Done () \<and> started t = started s @ [c] \<and>
      build_tree t = snd (spawn H c (build_tree s))) \<or>
    (fst (spawn H c (build_tree s)) \<noteq> Exited True \<and> r = Panicked \<and>
      started t = started s @ c # (if fst (spawn H c (build_tree s)) = Exited False then [tail_log d] else []))"
  using assms unfolding run_and_log_def execute_def
  by (auto simp: run_then_def start_def run_eq started_def tail_log_def split: prod.splits exit_status.splits if_splits)

text \<open>
  The programs \<open>cs\<close> a run with result \<open>r\<close> may have started, given the sequence it is to follow and the tree in
  which the first is started: all of them, each in the tree its predecessor left and each successful; or, in a
  run that does not return, none, or those up to the first that does not succeed.
\<close>

definition in_order :: "host \<Rightarrow> command list \<Rightarrow> string \<Rightarrow> tree option \<Rightarrow> unit outcome \<Rightarrow> command list \<Rightarrow> bool" where
  "in_order H cmds d t0 r cs \<longleftrightarrow> (succeed H cmds t0 \<and> cs = cmds) \<or>
     (r \<noteq> Done () \<and> (cs = [] \<or> (\<exists>k. stops_at H cmds t0 k \<and>
        cs = take (Suc k) cmds @ (if k = 0 \<and> fst (spawn H (hd cmds) t0) = Exited False then [tail_log d] else []))))"

lemma idle_then:
  assumes "run_then m f s = (r, t)" and "idle.obeys m"
  obtains (ends) "\<forall>x. r \<noteq> Done x" "started t = started s"
  | (goes) y u where "m s = (Done y, u)" "started u = started s" "f y u = (r, t)"
proof -
  obtain r' u where m: "m s = (r', u)" by fastforce
  then have "started u = started s"
    using idle.obeysD [OF assms(2)] by (simp add: starts_nothing_def)
  with m assms(1) show ?thesis
    by (cases r') (auto simp: run_then_def intro: that)
qed

lemma in_order_none: "r \<noteq> Done () \<Longrightarrow> in_order H cmds d t0 r []"
  by (simp add: in_order_def)

lemma make_link_order:
  assumes "run_then (run_all H cs) (\<lambda>_. link_bundled H target out_dir) s = (r, t)" and "started s = [cfg]"
    and "fst (spawn H cfg t0) = Exited True" and "build_tree s = snd (spawn H cfg t0)"
  shows "in_order H (cfg # cs) d t0 r (started t)"
proof -
  obtain r' u where u: "run_all H cs s = (r', u)" by fastforce
  from run_all_started [OF this] show ?thesis
  proof (elim disjE conjE exE)
    assume ok: "r' = Done ()" "succeed H cs (build_tree s)" and st: "started u = started s @ cs"
    then have "link_bundled H target out_dir u = (r, t)"
      using assms(1) u by (simp add: run_then_def)
    then have "started t = cfg # cs"
      using idle.obeysD [OF idle_link] st assms(2) by (simp add: starts_nothing_def)
    with ok(2) assms(3,4) show ?thesis by (simp add: in_order_def)
  next
    fix k
    assume bad: "r' = Panicked" and k: "stops_at H cs (build_tree s) k" "started u = started s @ take (Suc k) cs"
    then have "r = Panicked" "t = u" using assms(1) u by (auto simp: run_then_def)
    with k assms(2-4) show ?thesis
      unfolding in_order_def by (intro disjI2 conjI exI [of _ "Suc k"]) simp_all
  qed
qed

text \<open>What is said of a run that builds the bundled library.\<close>

definition ordered_run :: "host \<Rightarrow> string \<Rightarrow> string \<Rightarrow> string \<Rightarrow> string \<Rightarrow> unit outcome \<Rightarrow> command list \<Rightarrow> bool" where
  "ordered_run H target hst n build_dir r cs \<longleftrightarrow> (\<exists>cfg b. configured b target build_dir cfg \<and>
     in_order H (cfg # make_list H hst n build_dir) build_dir (prepared_tree H) r cs)"

lemma ordered_none:
  assumes "r \<noteq> Done ()"
  shows "ordered_run H target hst n build_dir r []"
proof -
  have "conf False build_dir \<lparr>program = ''sh'', cargs = [[]], dir = Some build_dir, cenv = []\<rparr>"
    by (simp add: conf_def symbol_prefix_def)
  from conf_last_args [OF this] in_order_none [OF assms] show ?thesis
    unfolding ordered_run_def by blast
qed

lemma bundled_order:
  assumes "build_bundled H target hst n out_dir v b s = (r, t)" and none: "started s = []"
  shows "ordered_run H target hst n (path_join out_dir ''build'') r (started t)"
  using assms(1) [unfolded build_bundled_def make_steps_list] idle_lines [OF lines_compiler]
proof (cases rule: idle_then)
  case ends
  with none show ?thesis by (simp add: ordered_none)
next
  case 1: (goes cc u1)
  show ?thesis
    using 1(3) prepare_idle
  proof (cases rule: idle_then)
    case ends
    with none 1 show ?thesis by (simp add: ordered_none)
  next
    case 2: (goes y u2)
    have tree: "build_tree u2 = prepared_tree H" by (rule prepare_tree [OF 2(1)])
    show ?thesis
      using 2(3) idle_lines [OF lines_configure]
    proof (cases rule: idle_then)
      case ends
      with none 1 2 show ?thesis by (simp add: ordered_none)
    next
      case 3: (goes cfg u3)
      let ?d = "path_join out_dir ''build''"
      have u3: "started u3 = []" using none 1 2 3 by simp
      have t3: "build_tree u3 = prepared_tree H"
        using lines.obeysD [OF lines_configure 3(1)] tree by (simp add: only_lines_def)
      have cfg: "configured b target ?d cfg"
        using conf_configure [of H target hst out_dir v b cc] 3(1) unfolding yields_def by blast
      obtain r4 u4 where u4: "run_and_log H cfg (path_join ?d ''config.log'') u3 = (r4, u4)"
        by fastforce
      have "in_order H (cfg # make_list H hst n ?d) ?d (prepared_tree H) r (started t)"
        using run_and_log_cases [OF u4]
      proof (elim disjE conjE)
        assume ok: "fst (spawn H cfg (build_tree u3)) = Exited True" "r4 = Done ()" "started u4 = started u3 @ [cfg]"
          "build_tree u4 = snd (spawn H cfg (build_tree u3))"
        then have "run_then (run_all H (make_list H hst n ?d)) (\<lambda>_. link_bundled H target out_dir) u4 = (r, t)"
          using 3(3) u4 by (simp add: run_then_def)
        then show ?thesis by (rule make_link_order) (use ok u3 t3 in simp_all)
      next
        assume bad: "fst (spawn H cfg (build_tree u3)) \<noteq> Exited True" "r4 = Panicked"
          "started u4 = started u3 @ cfg # (if fst (spawn H cfg (build_tree u3)) = Exited False then [tail_log ?d] else [])"
        then have "r = Panicked" "t = u4" using 3(3) u4 by (auto simp: run_then_def)
        with bad u3 t3 show ?thesis
          unfolding in_order_def by (intro disjI2 conjI exI [of _ 0]) simp_all
      qed
      with cfg show ?thesis by (auto simp: ordered_run_def)
    qed
  qed
qed

lemma build_main_order:
  assumes "build_main H \<lparr>log = [], build_tree = tree\<rparr> = (r, t)"
    and "vars H ''TARGET'' = Some target" and "vars H ''HOST'' = Some hst" and "vars H ''NUM_JOBS'' = Some n"
    and "vars H ''OUT_DIR'' = Some out_dir" and "vars H ''JEMALLOC_OVERRIDE'' = None"
    and "vars H (replace_char CHR ''-'' CHR ''_'' (to_uppercase target) @ ''_JEMALLOC_OVERRIDE'') = None"
  shows "ordered_run H target hst n (path_join out_dir ''build'') r (started t)"
proof -
  let ?s = "\<lparr>log = [], build_tree = tree\<rparr>"
  have s: "started ?s = []" by (simp add: started_def)
  consider "r = Panicked" "t = ?s"
    | v where "run_then (check_target H target) (\<lambda>b.
         run_then (read_and_watch_env_os H ''JEMALLOC_OVERRIDE'') (\<lambda>ov. case ov of
           Some jemalloc \<Rightarrow> link_override H jemalloc
         | None \<Rightarrow> build_bundled H target hst n out_dir v b)) ?s = (r, t)"
    using assms(1-5) unfolding build_main_def expect_env_def unwrap_def by (auto split: option.splits)
  then show ?thesis
  proof cases
    case 1
    with s show ?thesis by (simp add: ordered_none)
  next
    case 2
    show ?thesis
      using 2 idle_lines [OF lines_check_target]
    proof (cases rule: idle_then)
      case ends
      with s show ?thesis by (simp add: ordered_none)
    next
      case checked: (goes b u)
      have "idle.obeys (read_and_watch_env_os H ''JEMALLOC_OVERRIDE'')"
        unfolding read_and_watch_env_os_def by simp
      with checked(3) show ?thesis
      proof (cases rule: idle_then)
        case ends
        with s checked show ?thesis by (simp add: ordered_none)
      next
        case (goes ov u')
        have "ov = None"
          using goes(1) assms(2,6,7)
          by (auto simp: read_and_watch_env_os_def read_and_watch_env_impl_def expect_env_def Let_def
              run_then_Done_iff emit_def)
        with goes have "build_bundled H target hst n out_dir v b u' = (r, t)" by simp
        moreover have "started u' = []" using goes checked s by simp
        ultimately show ?thesis by (rule bundled_order)
      qed
    qed
  qed
qed

text \<open>
  C27. Without a supplied library the programs are configure, make, make with its tests when they are
  asked for, and installation, all in the build directory. Configure is started in the freshly copied
  sources, each further program in the tree the one before it left, and only after that one exited with
  success. A run that returns has started all of them and all succeeded. A run that does not has started
  none, or all with success, or those up to the first that was not started or failed; when that is
  configure and it did run, the printing of its log follows.
\<close>

theorem build_order:
  assumes "build_main H \<lparr>log = [], build_tree = tree\<rparr> = (r, t)"
    and "vars H ''TARGET'' = Some target" and "vars H ''HOST'' = Some hst" and "vars H ''NUM_JOBS'' = Some n"
    and "vars H ''OUT_DIR'' = Some out_dir" and "vars H ''JEMALLOC_OVERRIDE'' = None"
    and "vars H (replace_char CHR ''-'' CHR ''_'' (to_uppercase target) @ ''_JEMALLOC_OVERRIDE'') = None"
    and "build_dir = path_join out_dir ''build''"
  shows "\<exists>cfg. program cfg = ''sh'' \<and> dir cfg = Some build_dir \<and>
    in_order H (cfg # make_list H hst n build_dir) build_dir (prepared_tree H) r (started t)"
  using build_main_order [OF assms(1-7)] unfolding assms(8) ordered_run_def
  by (auto simp: configured_def conf_def)

section \<open>Environment, features and sources\<close>

text \<open>
  C40. The target-prefixed form of a configure variable takes precedence when it has a value; an empty
  value counts as absent in both forms, and the plain form is watched exactly when it is consulted. The
  override variable is different: its prefixed form takes precedence even when it is empty.
\<close>

theorem watched_variables:
  assumes "vars H ''TARGET'' = Some target"
    and "pre = replace_char CHR ''-'' CHR ''_'' (to_uppercase target) @ ''_''"
  shows "read_and_watch_env H name s =
      (if vars H (pre @ name) \<notin> {None, Some []}
       then (Done (vars H (pre @ name)), s\<lparr>log := log s @ [Line (''cargo:rerun-if-env-changed='' @ pre @ name)]\<rparr>)
       else (Done (if vars H name = Some [] then None else vars H name),
         s\<lparr>log := log s @ [Line (''cargo:rerun-if-env-changed='' @ pre @ name),
           Line (''cargo:rerun-if-env-changed='' @ name)]\<rparr>)) \<and>
    fst (read_and_watch_env_os H name s) =
      Done (if vars H (pre @ name) \<noteq> None then vars H (pre @ name) else vars H name)"
  using assms
  by (auto simp: read_and_watch_env_def read_and_watch_env_os_def read_and_watch_env_impl_def expect_env_def
      Let_def run_then_def emit_def split: option.splits)

text \<open>
  No optional feature is left to the defaults of configure: of each of the nine options the command
  gets exactly one of the enabling and the disabling form, the enabling one when Cargo enabled the
  feature.
\<close>

lemma features_explicit:
  assumes "(feature, opt) \<in> {(''CACHE_OBLIVIOUS'', ''cache-oblivious''), (''CHECK_SAFETY'', ''opt-safety-checks''),
      (''CHECK_SIZE_MATCH'', ''opt-size-checks''), (''CHECK_USE_AFTER_FREE'', ''uaf-detection''), (''FILL'', ''fill''),
      (''INITIAL_EXEC_TLS'', ''initial-exec-tls''), (''PAGEID'', ''pageid''), (''PROFILING'', ''prof''),
      (''STATS'', ''stats'')}"
  shows "\<exists>new. cargs (feature_args H target cmd) = cargs cmd @ new \<and>
    count_list new (''--enable-'' @ opt) = (if vars H (''CARGO_FEATURE_'' @ feature) \<noteq> None then 1 else 0) \<and>
    count_list new (''--disable-'' @ opt) = (if vars H (''CARGO_FEATURE_'' @ feature) \<noteq> None then 0 else 1)"
proof -
  define en where "en = ''--enable-''"
  define dis where "dis = ''--disable-''"
  define on where "on f opt = (if vars H (''CARGO_FEATURE_'' @ f) \<noteq> None then en @ opt else dis @ opt)" for f opt
  have ne: "dis @ a \<noteq> en @ b" "en @ a \<noteq> dis @ b" for a b
    by (simp_all add: en_def dis_def)
  have on_iff: "on f opt' = en @ opt \<longleftrightarrow> vars H (''CARGO_FEATURE_'' @ f) \<noteq> None \<and> opt' = opt"
    "on f opt' = dis @ opt \<longleftrightarrow> vars H (''CARGO_FEATURE_'' @ f) = None \<and> opt' = opt" for f opt' opt
    using ne by (auto simp: on_def)
  have flag: "cargs (feature_flag H c f opt) = cargs c @ [on f opt]" for c f opt
    by (simp add: feature_flag_def on_def en_def dis_def)
  let ?new = "[on ''CACHE_OBLIVIOUS'' ''cache-oblivious'', on ''CHECK_SAFETY'' ''opt-safety-checks'',
      on ''CHECK_SIZE_MATCH'' ''opt-size-checks'', on ''CHECK_USE_AFTER_FREE'' ''uaf-detection'', on ''FILL'' ''fill'',
      on ''INITIAL_EXEC_TLS'' ''initial-exec-tls'', on ''PAGEID'' ''pageid'', on ''PROFILING'' ''prof''] @
      (if vars H ''CARGO_FEATURE_PROFILING_FRAMEPTR'' \<noteq> None \<and> sublist ''linux'' target
       then [en @ ''prof-frameptr''] else []) @ [on ''STATS'' ''stats'']"
  have args: "cargs (feature_args H target cmd) = cargs cmd @ ?new"
    by (simp add: feature_args_def Let_def flag arg_def en_def)
  have frame: "count_list (if b then [en @ ''prof-frameptr''] else []) (en @ opt) = 0"
    "count_list (if b then [en @ ''prof-frameptr''] else []) (dis @ opt) = 0" for b
    using assms ne by auto
  have "count_list ?new (en @ opt) = (if vars H (''CARGO_FEATURE_'' @ feature) \<noteq> None then 1 else 0)"
    "count_list ?new (dis @ opt) = (if vars H (''CARGO_FEATURE_'' @ feature) \<noteq> None then 0 else 1)"
    unfolding count_list_append count_list.simps on_iff frame using assms
    by (elim insertE emptyE; simp)+
  with args show ?thesis unfolding en_def dis_def by blast
qed

lemma prepare_fresh:
  assumes "path_exists H out_dir" and "submodule H = Some (Dir es)" and "tree_wf (Dir es)"
    and "config_file H = Some bs" and "\<And>ds. map_of es ''configure'' \<noteq> Some (Dir ds)"
    and "\<And>f. build_tree s \<noteq> Some (File f)"
  shows "prepare H out_dir s = (Done (), s\<lparr>log := log s @ [Line ''cargo:rerun-if-changed=configure''],
    build_tree := Some (Dir (put ''configure'' (Some (File bs)) es))\<rparr>)"
proof -
  have fresh: "copy_recursively (Dir es) None = (Inr (), Some (Dir es))"
    using copy_fresh(1) [of "Dir es" es None] assms(3) by simp
  have remove: "remove_build u = (Done (), u\<lparr>build_tree := None\<rparr>)" if "build_tree u = build_tree s" for u
    using assms(6) that by (auto simp: remove_build_def split: option.splits tree.splits)
  have config: "copy_config H u = (Done (), u\<lparr>build_tree := Some (Dir (put ''configure'' (Some (File bs)) es))\<rparr>)"
    if "build_tree u = Some (Dir es)" for u
    using assms(4,5) that by (auto simp: copy_config_def split: option.splits tree.splits)
  show ?thesis
    using assms(1,2)
    by (simp add: prepare_def run_then_def emit_def remove copy_sources_def fresh config)
qed

text \<open>What a host owes a build of the bundled library, and that the build then completes.\<close>

definition host_ok :: "host \<Rightarrow> bool" where
  "host_ok H \<longleftrightarrow>
     (\<exists>target. vars H ''TARGET'' = Some target \<and> \<not> any_in UNSUPPORTED_TARGETS target \<and>
        vars H (replace_char CHR ''-'' CHR ''_'' (to_uppercase target) @ ''_JEMALLOC_OVERRIDE'') = None) \<and>
     vars H ''JEMALLOC_OVERRIDE'' = None \<and> vars H ''HOST'' \<noteq> None \<and> vars H ''NUM_JOBS'' \<noteq> None \<and>
     vars H ''OUT_DIR'' \<noteq> None \<and> path_exists H (the (vars H ''OUT_DIR'')) \<and> current_dir H \<noteq> None \<and>
     (\<exists>version. vars H ''CARGO_PKG_VERSION'' = Some version \<and> CHR ''+'' \<in> set version) \<and>
     (\<forall>march mtune. c_compiler H march mtune \<noteq> None) \<and> (\<forall>c t. fst (spawn H c t) = Exited True) \<and> cc_compiles H \<and>
     (\<exists>es. submodule H = Some (Dir es) \<and> tree_wf (Dir es) \<and> (\<forall>ds. map_of es ''configure'' \<noteq> Some (Dir ds))) \<and>
     config_file H \<noteq> None"

definition no_file :: "build_state \<Rightarrow> bool" where
  "no_file s \<longleftrightarrow> (\<forall>f. build_tree s \<noteq> Some (File f))"

lemma emit_safe: "safe P (emit x) (\<lambda>_. P)" if "\<And>s l. P s \<Longrightarrow> P (s\<lparr>log := l\<rparr>)"
  using that by (auto simp: safe_def emit_def)

lemma emit_all_no_file: "safe no_file (emit_all xs) (\<lambda>_. no_file)"
  by (simp add: safe_def emit_all_def no_file_def)

lemma emit_no_file: "safe no_file (emit x) (\<lambda>_. no_file)" and emit_any: "safe (\<lambda>_. True) (emit x) (\<lambda>_ _. True)"
  by (auto intro: emit_safe simp: no_file_def)

lemma emit_if_no_file: "safe no_file (if b then emit x else ret ()) (\<lambda>_. no_file)"
  by (simp add: emit_no_file safe_ret)

lemma check_target_safe: "\<not> any_in UNSUPPORTED_TARGETS target \<Longrightarrow> safe no_file (check_target H target) (\<lambda>_. no_file)"
  unfolding check_target_def warning_def Let_def
  by (auto intro!: safe_then [where R = "\<lambda>_. no_file"] emit_no_file safe_ret)

lemma read_watch_safe:
  assumes "vars H ''TARGET'' = Some target" and "\<And>x. safe P (emit x) (\<lambda>_. P)"
  shows "safe P (read_and_watch_env_impl H name g) (\<lambda>_. P)"
  unfolding read_and_watch_env_impl_def expect_env_def using assms
  by (auto simp: Let_def intro!: safe_then [where R = "\<lambda>_. P"] safe_ret split: option.split)

lemma configure_safe:
  assumes "vars H ''TARGET'' = Some target"
  shows "safe (\<lambda>_. True) (configure_command H tgt hst out_dir v b cc) (\<lambda>_ _. True)"
  unfolding configure_command_def malloc_conf_arg_def env_arg_def read_and_watch_env_def Let_def
  by (intro safe_then [where R = "\<lambda>_ _. True"] safe_ret read_watch_safe [OF assms] emit_any TrueI)

lemma run_safe: "(\<And>c t. fst (spawn H c t) = Exited True) \<Longrightarrow> safe (\<lambda>_. True) (run H c) (\<lambda>_ _. True)"
  by (simp add: safe_def run_eq)

lemma run_all_safe: "(\<And>c t. fst (spawn H c t) = Exited True) \<Longrightarrow> safe (\<lambda>_. True) (run_all H cs) (\<lambda>_ _. True)"
  by (induction cs) (auto intro!: safe_ret safe_then [where R = "\<lambda>_ _. True"] run_safe)

lemma run_and_log_safe:
  "(\<And>c t. fst (spawn H c t) = Exited True) \<Longrightarrow> safe (\<lambda>_. True) (run_and_log H c file) (\<lambda>_ _. True)"
  unfolding run_and_log_def execute_def
  by (auto simp: safe_def run_then_def start_def split: prod.split exit_status.split) (metis exit_status.inject fst_conv exit_status.distinct(1))+

lemma link_safe: "cc_compiles H \<Longrightarrow> safe (\<lambda>_. True) (link_bundled H target out_dir) (\<lambda>_ _. True)"
  unfolding link_bundled_def
  by (auto intro!: safe_then [where R = "\<lambda>_ _. True"] emit_any safe_ret) (simp_all add: safe_def)

lemma bundled_safe:
  assumes "host_ok H" and "vars H ''OUT_DIR'' = Some out_dir"
  shows "safe no_file (build_bundled H target hst n out_dir v b) (\<lambda>_ _. True)"
proof -
  obtain es bs tgt where h: "submodule H = Some (Dir es)" "tree_wf (Dir es)" "\<And>ds. map_of es ''configure'' \<noteq> Some (Dir ds)"
    "config_file H = Some bs" "path_exists H out_dir" "\<And>c t. fst (spawn H c t) = Exited True" "cc_compiles H"
    "\<And>a b. c_compiler H a b \<noteq> None" "vars H ''TARGET'' = Some tgt"
    using assms unfolding host_ok_def by auto
  have unw: "safe no_file (unwrap (c_compiler H a b)) (\<lambda>_. no_file)" for a b
    using h(8) [of a b] by (auto simp: unwrap_def intro: safe_ret)
  have comp: "safe no_file (compiler H) (\<lambda>_. no_file)"
    unfolding compiler_def Let_def
    by (rule safe_then [OF emit_all_no_file], rule safe_then [OF unw]) (auto intro: safe_ret split: prod.split)
  have prep: "safe no_file (prepare H out_dir) (\<lambda>_ _. True)"
    unfolding safe_def no_file_def using prepare_fresh [OF h(5,1,2,4,3)] by blast
  show ?thesis
    unfolding build_bundled_def make_steps_list
    by (rule safe_then [OF comp], rule safe_then [OF prep], rule safe_then [OF configure_safe [OF h(9)]],
        rule safe_then [OF run_and_log_safe [OF h(6)]], rule safe_then [OF run_all_safe [OF h(6)]],
        rule link_safe [OF h(7)])
qed

lemma build_main_safe:
  assumes "host_ok H"
  shows "safe no_file (build_main H) (\<lambda>_ _. True)"
proof -
  obtain target hst n out_dir cwd version where h: "vars H ''TARGET'' = Some target"
    "\<not> any_in UNSUPPORTED_TARGETS target" "vars H ''JEMALLOC_OVERRIDE'' = None"
    "vars H (replace_char CHR ''-'' CHR ''_'' (to_uppercase target) @ ''_JEMALLOC_OVERRIDE'') = None"
    "vars H ''HOST'' = Some hst" "vars H ''NUM_JOBS'' = Some n" "vars H ''OUT_DIR'' = Some out_dir"
    "current_dir H = Some cwd" "vars H ''CARGO_PKG_VERSION'' = Some version" "CHR ''+'' \<in> set version"
    using assms unfolding host_ok_def by auto
  have watch: "safe no_file (read_and_watch_env_os H ''JEMALLOC_OVERRIDE'') (\<lambda>ov s. no_file s \<and> ov = None)"
    unfolding safe_def
  proof (intro allI impI)
    fix s assume "no_file s"
    with safeD [OF read_watch_safe [OF h(1) emit_no_file], of s "''JEMALLOC_OVERRIDE''" "vars H"]
    obtain ov t where "read_and_watch_env_os H ''JEMALLOC_OVERRIDE'' s = (Done ov, t)" "no_file t"
      unfolding read_and_watch_env_os_def by blast
    moreover from this(1) have "ov = None"
      using h(1,3,4) by (auto simp: read_and_watch_env_os_def read_and_watch_env_impl_def expect_env_def Let_def
          run_then_Done_iff emit_def)
    ultimately show "\<exists>ov t. read_and_watch_env_os H ''JEMALLOC_OVERRIDE'' s = (Done ov, t) \<and> no_file t \<and> ov = None"
      by blast
  qed
  have rest: "safe (\<lambda>s. no_file s \<and> ov = None) (case ov of
       Some jemalloc \<Rightarrow> link_override H jemalloc | None \<Rightarrow> build_bundled H target hst n out_dir v b) (\<lambda>_ _. True)"
    for ov v b
    using bundled_safe [OF assms h(7)] by (cases ov) (auto simp: safe_def)
  show ?thesis
    unfolding build_main_def expect_env_def unwrap_def split_once_def
    by (simp add: h, rule safe_then [OF check_target_safe [OF h(2)]], rule safe_then [OF watch], rule rest)
qed

text \<open>
  The sources are prepared afresh: whatever an earlier build left in the build directory, afterwards
  it holds exactly the bundled tree with the generated configure script in place of the tree's own.
\<close>

lemma prepare_exact:
  assumes "path_exists H out_dir" and "submodule H = Some (Dir es)" and "tree_wf (Dir es)"
    and "config_file H = Some bs" and "\<forall>ds. map_of es ''configure'' \<noteq> Some (Dir ds)"
    and "\<forall>f. build_tree s \<noteq> Some (File f)"
  shows "prepare H out_dir s = (Done (), s\<lparr>log := log s @ [Line ''cargo:rerun-if-changed=configure''],
    build_tree := Some (Dir (put ''configure'' (Some (File bs)) es))\<rparr>)"
  using assms by (intro prepare_fresh) simp_all

text \<open>
  On a supported target with its variables set, a compiler, the bundled sources and programs that
  succeed, the script returns, unless a plain file is at the place of the build directory.
\<close>

lemma build_completes:
  assumes "host_ok H" and "\<forall>f. build_tree s \<noteq> Some (File f)"
  shows "\<exists>t. build_main H s = (Done (), t)"
  using safeD [OF build_main_safe [OF assms(1)], of s] assms(2) by (auto simp: no_file_def)

section \<open>Witnesses\<close>

text \<open>A Linux host with prefixed symbols, on which every program succeeds.\<close>

definition demo_vars :: "(string \<times> string) list" where
  "demo_vars = [(''TARGET'', ''x86_64-linux''), (''HOST'', ''x86_64-linux''), (''NUM_JOBS'', ''4''), (''OUT_DIR'', ''/o''),
     (''CARGO_PKG_VERSION'', ''0.1+5''), (''CARGO_FEATURE_STATS'', ''1'')]"

definition demo_host :: "(string \<times> string) list \<Rightarrow> host" where
  "demo_host vs = \<lparr>vars = map_of vs, current_dir = Some ''/s'', rustflags = [], c_compiler = (\<lambda>_ _. Some (''cc'', [])),
     cc_lines = (\<lambda>_ _. [''cargo:rerun-if-env-changed=CC'', ''cargo:rerun-if-env-changed=CFLAGS'']),
     cc_compile_lines = (\<lambda>_ name. [''cargo:rustc-link-lib=static='' @ name]),
     spawn = (\<lambda>_ t. (Exited True, t)), cc_compiles = True, path_exists = (\<lambda>_. True),
     submodule = Some (Dir [(''a'', File [1])]), config_file = Some [2], script_debug = False\<rparr>"

abbreviation demo_start :: build_state where
  "demo_start \<equiv> \<lparr>log = [], build_tree = None\<rparr>"

lemma demo_host_ok: "host_ok (demo_host demo_vars)"
proof -
  have "\<not> any_in UNSUPPORTED_TARGETS ''x86_64-linux''"
    by code_simp
  moreover have "map_of demo_vars (replace_char CHR ''-'' CHR ''_'' (to_uppercase ''x86_64-linux'') @ ''_JEMALLOC_OVERRIDE'') = None"
    by code_simp
  ultimately show ?thesis
    by (simp add: host_ok_def demo_host_def demo_vars_def)
qed

lemma demo_vars_simps:
  "vars (demo_host demo_vars) ''TARGET'' = Some ''x86_64-linux''" "vars (demo_host demo_vars) ''HOST'' = Some ''x86_64-linux''"
  "vars (demo_host demo_vars) ''NUM_JOBS'' = Some ''4''" "vars (demo_host demo_vars) ''OUT_DIR'' = Some ''/o''"
  "vars (demo_host demo_vars) ''JEMALLOC_OVERRIDE'' = None"
  "vars (demo_host demo_vars) (replace_char CHR ''-'' CHR ''_'' (to_uppercase ''x86_64-linux'') @ ''_JEMALLOC_OVERRIDE'') = None"
proof -
  show "vars (demo_host demo_vars) (replace_char CHR ''-'' CHR ''_'' (to_uppercase ''x86_64-linux'') @ ''_JEMALLOC_OVERRIDE'') = None"
    by code_simp
qed (simp_all add: demo_host_def demo_vars_def)

text \<open>The programs started on this host.\<close>

lemma started_in_log: "c \<in> set (started s) \<longleftrightarrow> Start c \<in> set (log s)"
  by (auto simp: started_def split: event.splits)

text \<open>
  On this host all programs succeed and are started in order; on the same host with a configure that fails
  the run does not return and make is never started.
\<close>

definition failing_host :: host where
  "failing_host = (demo_host demo_vars)\<lparr>spawn := (\<lambda>c t. (Exited (program c \<noteq> ''sh''), t))\<rparr>"

lemma demo_runs: "\<exists>t. build_main (demo_host demo_vars) demo_start = (Done (), t)"
  using safeD [OF build_main_safe [OF demo_host_ok], of demo_start] by (auto simp: no_file_def)

lemma demo_succeed: "succeed (demo_host demo_vars) cs t"
  by (induction cs arbitrary: t) (simp_all add: demo_host_def)

lemma demo_not_stopped: "\<not> stops_at (demo_host demo_vars) cs t k"
  by (simp add: stops_at_def demo_host_def)

lemma failing_configure:
  assumes "program cfg = ''sh''"
  shows "\<not> succeed failing_host (cfg # cs) t" and "stops_at failing_host (cfg # cs) t k \<longleftrightarrow> k = 0"
    and "fst (spawn failing_host cfg t) = Exited False"
  using assms by (cases k; simp add: failing_host_def)+

theorem build_order_witness:
  "(\<exists>t cfg. build_main (demo_host demo_vars) demo_start = (Done (), t) \<and>
     started t = cfg # make_list (demo_host demo_vars) ''x86_64-linux'' ''4'' (path_join ''/o'' ''build'')) \<and>
   (\<exists>r t. build_main failing_host demo_start = (r, t) \<and> r \<noteq> Done () \<and> ''make'' \<notin> program ` set (started t))"
proof (rule conjI)
  obtain t where t: "build_main (demo_host demo_vars) demo_start = (Done (), t)"
    using demo_runs by blast
  from build_order [OF this demo_vars_simps refl] show "\<exists>t cfg. build_main (demo_host demo_vars) demo_start = (Done (), t) \<and>
     started t = cfg # make_list (demo_host demo_vars) ''x86_64-linux'' ''4'' (path_join ''/o'' ''build'')"
    using t by (auto simp: in_order_def)
next
  obtain r t where t: "build_main failing_host demo_start = (r, t)" by fastforce
  have v: "vars failing_host = vars (demo_host demo_vars)" by (simp add: failing_host_def)
  obtain cfg where cfg: "program cfg = ''sh''" and "in_order failing_host (cfg # make_list failing_host ''x86_64-linux'' ''4''
      (path_join ''/o'' ''build'')) (path_join ''/o'' ''build'') (prepared_tree failing_host) r (started t)"
    using build_order [OF t demo_vars_simps [folded v] refl] by blast
  then have "r \<noteq> Done ()" "started t = [] \<or> started t = [cfg, tail_log (path_join ''/o'' ''build'')]"
    by (auto simp: in_order_def failing_configure [OF cfg])
  with t cfg show "\<exists>r t. build_main failing_host demo_start = (r, t) \<and> r \<noteq> Done () \<and> ''make'' \<notin> program ` set (started t)"
    by (intro exI [of _ r] exI [of _ t]) (auto simp: tail_log_def)
qed

text \<open>On this host the script starts configure and returns.\<close>

lemma demo_configured:
  "\<exists>t c. build_main (demo_host demo_vars) demo_start = (Done (), t) \<and> Start c \<in> set (log t) \<and> program c = ''sh''"
proof -
  obtain t where t: "build_main (demo_host demo_vars) demo_start = (Done (), t)"
    using demo_runs by blast
  moreover obtain cfg where "program cfg = ''sh''" "cfg \<in> set (started t)"
    using build_main_order [OF t demo_vars_simps]
    by (auto simp: in_order_def ordered_run_def configured_def conf_def)
  ultimately show ?thesis by (auto simp: started_in_log)
qed

definition override_host :: host where
  "override_host = demo_host ((''JEMALLOC_OVERRIDE'', ''/l/libje.a'') # demo_vars)"

theorem override_starts_nothing_witness:
  "\<exists>r t new. build_main override_host demo_start = (r, t) \<and> log t = map Line new"
proof -
  obtain r t where t: "build_main override_host demo_start = (r, t)" by fastforce
  have "vars override_host ''TARGET'' = Some ''x86_64-linux''" "vars override_host ''JEMALLOC_OVERRIDE'' \<noteq> None"
    by (simp_all add: override_host_def demo_host_def demo_vars_def)
  then show ?thesis
    using t override_starts_nothing [OF t] by auto
qed

theorem watched_variables_witness:
  "fst (read_and_watch_env (demo_host demo_vars) ''NUM_JOBS'' demo_start) = Done (Some ''4'')"
proof -
  have "vars (demo_host demo_vars) ((replace_char CHR ''-'' CHR ''_'' (to_uppercase ''x86_64-linux'') @ ''_'') @ ''NUM_JOBS'') = None"
    by code_simp
  then show ?thesis
    using watched_variables [OF demo_vars_simps(1) refl, of "''NUM_JOBS''" demo_start] demo_vars_simps(3) by simp
qed

end
