(* ===== verification/Declarations.thy ===== *)
theory Declarations
  imports Ffi Build_Script
begin

text \<open>
  The foreign declarations of \<^verbatim>\<open>jevmalloc-sys/src/standard.rs\<close>, \<^verbatim>\<open>extended.rs\<close> and \<^verbatim>\<open>control.rs\<close>: every item
  with its C type and the link name its \<^verbatim>\<open>cfg_attr(prefixed, link_name = ...)\<close> gives it. What the library
  exports is decided by the generated script \<^verbatim>\<open>jevmalloc-sys/configure/configure\<close>: the public name behind the
  prefix asked for or, when none is, behind the default of the binary format of the host. That format is
  read off the canonical name of the host; \<^verbatim>\<open>config.sub\<close>, which computes it from the name the command asks for, is in
  the submodule and a parameter here.

  Shown here: the declarations cover every call the wrapper makes; their symbols are distinct; a build
  links every declaration to the symbol of its own name, except with unprefixed declarations on Mach-O and
  PE/COFF hosts, where it links none; with prefixed symbols no name of the C library is taken over.
\<close>

section \<open>C types and declarations\<close>

datatype c_type_name =
    C_void | C_char | C_int | C_size_t
  | Ptr_mut c_type_name | Ptr_const c_type_name | Static_ref c_type_name
  | Nullable c_type_name | Callback "c_type_name list"

datatype declaration_kind =
    Function "c_type_name list" "c_type_name option"
  | Static c_type_name
  | Static_mut c_type_name

record foreign_item =
  d_name :: string
  prefixed_link_name :: string
  d_kind :: declaration_kind

text \<open>\<^verbatim>\<open>standard.rs\<close>\<close>

definition decl_malloc :: foreign_item where
  "decl_malloc = \<lparr>d_name = ''malloc'', prefixed_link_name = ''_rjem_malloc'',
     d_kind = Function [C_size_t] (Some (Ptr_mut C_void))\<rparr>"

definition decl_calloc :: foreign_item where
  "decl_calloc = \<lparr>d_name = ''calloc'', prefixed_link_name = ''_rjem_calloc'',
     d_kind = Function [C_size_t, C_size_t] (Some (Ptr_mut C_void))\<rparr>"

definition decl_posix_memalign :: foreign_item where
  "decl_posix_memalign = \<lparr>d_name = ''posix_memalign'', prefixed_link_name = ''_rjem_posix_memalign'',
     d_kind = Function [Ptr_mut (Ptr_mut C_void), C_size_t, C_size_t] (Some C_int)\<rparr>"

definition decl_aligned_alloc :: foreign_item where
  "decl_aligned_alloc = \<lparr>d_name = ''aligned_alloc'', prefixed_link_name = ''_rjem_aligned_alloc'',
     d_kind = Function [C_size_t, C_size_t] (Some (Ptr_mut C_void))\<rparr>"

definition decl_realloc :: foreign_item where
  "decl_realloc = \<lparr>d_name = ''realloc'', prefixed_link_name = ''_rjem_realloc'',
     d_kind = Function [Ptr_mut C_void, C_size_t] (Some (Ptr_mut C_void))\<rparr>"

definition decl_free :: foreign_item where
  "decl_free = \<lparr>d_name = ''free'', prefixed_link_name = ''_rjem_free'',
     d_kind = Function [Ptr_mut C_void] None\<rparr>"

definition decl_free_sized :: foreign_item where
  "decl_free_sized = \<lparr>d_name = ''free_sized'', prefixed_link_name = ''_rjem_free_sized'',
     d_kind = Function [Ptr_mut C_void, C_size_t] None\<rparr>"

definition decl_free_aligned_sized :: foreign_item where
  "decl_free_aligned_sized = \<lparr>d_name = ''free_aligned_sized'',
       prefixed_link_name = ''_rjem_free_aligned_sized'',
     d_kind = Function [Ptr_mut C_void, C_size_t, C_size_t] None\<rparr>"

text \<open>\<^verbatim>\<open>extended.rs\<close>\<close>

definition decl_mallocx :: foreign_item where
  "decl_mallocx = \<lparr>d_name = ''mallocx'', prefixed_link_name = ''_rjem_mallocx'',
     d_kind = Function [C_size_t, C_int] (Some (Ptr_mut C_void))\<rparr>"

definition decl_rallocx :: foreign_item where
  "decl_rallocx = \<lparr>d_name = ''rallocx'', prefixed_link_name = ''_rjem_rallocx'',
     d_kind = Function [Ptr_mut C_void, C_size_t, C_int] (Some (Ptr_mut C_void))\<rparr>"

definition decl_xallocx :: foreign_item where
  "decl_xallocx = \<lparr>d_name = ''xallocx'', prefixed_link_name = ''_rjem_xallocx'',
     d_kind = Function [Ptr_mut C_void, C_size_t, C_size_t, C_int] (Some C_size_t)\<rparr>"

definition decl_sallocx :: foreign_item where
  "decl_sallocx = \<lparr>d_name = ''sallocx'', prefixed_link_name = ''_rjem_sallocx'',
     d_kind = Function [Ptr_const C_void, C_int] (Some C_size_t)\<rparr>"

definition decl_dallocx :: foreign_item where
  "decl_dallocx = \<lparr>d_name = ''dallocx'', prefixed_link_name = ''_rjem_dallocx'',
     d_kind = Function [Ptr_mut C_void, C_int] None\<rparr>"

definition decl_sdallocx :: foreign_item where
  "decl_sdallocx = \<lparr>d_name = ''sdallocx'', prefixed_link_name = ''_rjem_sdallocx'',
     d_kind = Function [Ptr_mut C_void, C_size_t, C_int] None\<rparr>"

definition decl_nallocx :: foreign_item where
  "decl_nallocx = \<lparr>d_name = ''nallocx'', prefixed_link_name = ''_rjem_nallocx'',
     d_kind = Function [C_size_t, C_int] (Some C_size_t)\<rparr>"

definition decl_malloc_usable_size :: foreign_item where
  "decl_malloc_usable_size = \<lparr>d_name = ''malloc_usable_size'',
       prefixed_link_name = ''_rjem_malloc_usable_size'',
     d_kind = Function [Ptr_const C_void] (Some C_size_t)\<rparr>"

text \<open>\<^verbatim>\<open>control.rs\<close>\<close>

definition decl_malloc_conf :: foreign_item where
  "decl_malloc_conf = \<lparr>d_name = ''malloc_conf'', prefixed_link_name = ''_rjem_malloc_conf'',
     d_kind = Static (Nullable (Static_ref C_char))\<rparr>"

definition decl_malloc_message :: foreign_item where
  "decl_malloc_message = \<lparr>d_name = ''malloc_message'', prefixed_link_name = ''_rjem_malloc_message'',
     d_kind = Static_mut (Nullable (Callback [Ptr_mut C_void, Ptr_const C_char]))\<rparr>"

definition decl_mallctl :: foreign_item where
  "decl_mallctl = \<lparr>d_name = ''mallctl'', prefixed_link_name = ''_rjem_mallctl'',
     d_kind = Function [Ptr_const C_char, Ptr_mut C_void, Ptr_mut C_size_t, Ptr_mut C_void,
       C_size_t] (Some C_int)\<rparr>"

definition decl_mallctlnametomib :: foreign_item where
  "decl_mallctlnametomib = \<lparr>d_name = ''mallctlnametomib'',
       prefixed_link_name = ''_rjem_mallctlnametomib'',
     d_kind = Function [Ptr_const C_char, Ptr_mut C_size_t, Ptr_mut C_size_t] (Some C_int)\<rparr>"

definition decl_mallctlbymib :: foreign_item where
  "decl_mallctlbymib = \<lparr>d_name = ''mallctlbymib'', prefixed_link_name = ''_rjem_mallctlbymib'',
     d_kind = Function [Ptr_const C_size_t, C_size_t, Ptr_mut C_void, Ptr_mut C_size_t, Ptr_mut C_void,
       C_size_t] (Some C_int)\<rparr>"

definition decl_malloc_stats_print :: foreign_item where
  "decl_malloc_stats_print = \<lparr>d_name = ''malloc_stats_print'',
       prefixed_link_name = ''_rjem_malloc_stats_print'',
     d_kind = Function [Nullable (Callback [Ptr_mut C_void, Ptr_const C_char]), Ptr_mut C_void,
       Ptr_const C_char] None\<rparr>"

definition standard_declarations :: "foreign_item list" where
  "standard_declarations = [decl_malloc, decl_calloc, decl_posix_memalign, decl_aligned_alloc, decl_realloc,
       decl_free, decl_free_sized, decl_free_aligned_sized]"

definition extended_declarations :: "foreign_item list" where
  "extended_declarations = [decl_mallocx, decl_rallocx, decl_xallocx, decl_sallocx, decl_dallocx,
       decl_sdallocx, decl_nallocx, decl_malloc_usable_size]"

definition control_declarations :: "foreign_item list" where
  "control_declarations = [decl_malloc_conf, decl_malloc_message, decl_mallctl, decl_mallctlnametomib,
       decl_mallctlbymib, decl_malloc_stats_print]"

definition declarations :: "foreign_item list" where
  "declarations = standard_declarations @ extended_declarations @ control_declarations"

lemmas declaration_defs = declarations_def standard_declarations_def extended_declarations_def
  control_declarations_def
  decl_malloc_def decl_calloc_def decl_posix_memalign_def decl_aligned_alloc_def decl_realloc_def
  decl_free_def decl_free_sized_def decl_free_aligned_sized_def
  decl_mallocx_def decl_rallocx_def decl_xallocx_def decl_sallocx_def decl_dallocx_def
  decl_sdallocx_def decl_nallocx_def decl_malloc_usable_size_def
  decl_malloc_conf_def decl_malloc_message_def decl_mallctl_def decl_mallctlnametomib_def
  decl_mallctlbymib_def decl_malloc_stats_print_def

section \<open>Symbols\<close>

text \<open>The symbol the compiler emits for a declaration: the attribute applies under \<^verbatim>\<open>cfg(prefixed)\<close>.\<close>

definition link_symbol :: "bool \<Rightarrow> foreign_item \<Rightarrow> string" where
  "link_symbol pre d = (if pre then prefixed_link_name d else d_name d)"

text \<open>
  The binary format configure assumes. The patterns of its \<^verbatim>\<open>case\<close> are \<^verbatim>\<open>*-*-name*\<close>, tried in this order; on
  NetBSD it asks the compiler whether the format is ELF (\<open>elf\<close>).
\<close>

datatype abi = Elf | Aout | Macho | Xcoff | Pecoff

definition host_is :: "string list \<Rightarrow> string \<Rightarrow> bool" where
  "host_is names host_name = (case dropWhile (\<lambda>c. c \<noteq> CHR ''-'') host_name of
     [] \<Rightarrow> False
   | _ # rest \<Rightarrow> list_ex (\<lambda>name. sublist (CHR ''-'' # name) rest) names)"

definition configure_abi :: "bool \<Rightarrow> string \<Rightarrow> abi" where
  "configure_abi elf host_name =
    (if host_is [''darwin'', ''ios''] host_name then Macho
     else if host_is [''freebsd'', ''dragonfly'', ''openbsd'', ''bitrig'', ''linux-android'', ''linux-musl'', ''linux'',
       ''kfreebsd''] host_name then Elf
     else if host_is [''netbsd''] host_name then (if elf then Elf else Aout)
     else if host_is [''solaris2''] host_name then Elf
     else if host_is [''ibm-aix''] host_name then Xcoff
     else if host_is [''mingw'', ''cygwin''] host_name then Pecoff
     else Elf)"

definition JEMALLOC_PREFIX :: "string option \<Rightarrow> abi \<Rightarrow> string" where
  "JEMALLOC_PREFIX with_jemalloc_prefix abi = (case with_jemalloc_prefix of
     Some p \<Rightarrow> p
   | None \<Rightarrow> if abi \<noteq> Macho \<and> abi \<noteq> Pecoff then [] else ''je_'')"

text \<open>
  The symbol under which a library configured by a command exports a public name; \<open>config_sub\<close> gives the
  canonical name of the host asked for, or of the build machine when none is.
\<close>

definition exported :: "(string option \<Rightarrow> string) \<Rightarrow> bool \<Rightarrow> command \<Rightarrow> string \<Rightarrow> string" where
  "exported config_sub elf c name =
     JEMALLOC_PREFIX (requested_prefix (tl (cargs c)))
       (configure_abi elf (config_sub (requested host_flag (tl (cargs c))))) @ name"

text \<open>The declaration through which a recorded call crosses the boundary.\<close>

fun call_declaration :: "ffi_call \<Rightarrow> foreign_item" where
  "call_declaration (Call_nametomib _) = decl_mallctlnametomib"
| "call_declaration (Call_bymib _) = decl_mallctlbymib"
| "call_declaration (Call_mallocx _ _) = decl_mallocx"
| "call_declaration (Call_rallocx _ _ _) = decl_rallocx"
| "call_declaration (Call_sallocx _ _) = decl_sallocx"
| "call_declaration (Call_sdallocx _ _ _) = decl_sdallocx"
| "call_declaration (Call_nallocx _ _) = decl_nallocx"
| "call_declaration (Call_stats_print _) = decl_malloc_stats_print"

lemma call_declared: "call_declaration c \<in> set declarations"
  by (cases c) (simp_all add: declarations_def extended_declarations_def control_declarations_def)

lemma prefixed_names: "\<forall>d \<in> set declarations. prefixed_link_name d = ''_rjem_'' @ d_name d"
  by (simp add: declaration_defs)

lemma prefixed_name: "d \<in> set declarations \<Longrightarrow> prefixed_link_name d = ''_rjem_'' @ d_name d"
  using prefixed_names by (rule bspec)

lemma distinct_names: "distinct (map d_name declarations)"
  by (simp add: declaration_defs)

lemma prefixed_link: "d \<in> set declarations \<Longrightarrow> link_symbol True d = ''_rjem_'' @ d_name d"
  by (simp add: prefixed_name link_symbol_def)

lemma distinct_symbols: "distinct (map (link_symbol b) declarations)"
proof -
  have "map (link_symbol b) declarations = map ((@) (if b then ''_rjem_'' else [])) (map d_name declarations)"
    by (cases b) (simp_all add: prefixed_name link_symbol_def)
  moreover have "inj ((@) (if b then ''_rjem_'' else []))" by (simp add: inj_on_def)
  ultimately show ?thesis using distinct_names by (simp only: distinct_map [of "(@) _"]) (auto intro: inj_on_subset)
qed

lemma no_prefixed_name: "\<forall>d \<in> set declarations. \<not> prefix ''_'' (d_name d)"
  by (simp add: declaration_defs)

section \<open>Linking\<close>

text \<open>
  C16. The crate and the library it builds agree on every symbol in all builds but one kind. However a run
  of the script ends, if it starts configure, then the script chose prefixed symbols exactly when the
  feature that asks for unprefixed ones is off or the target is listed as not supporting them, and the
  declarations resolve, each to the symbol under which the library exports its name, exactly when it did or
  configure takes the target's binary format to be other than Mach-O and PE/COFF: unprefixed declarations do not resolve on those
  two, where the library prefixes its names by itself. The declarations cover every call the wrapper
  makes. With prefixed symbols no declaration uses a name of the C library; in either case no two
  declarations share a symbol.
\<close>

theorem link_names_agree:
  assumes "build_main H \<lparr>log = [], build_tree = tree\<rparr> = (r, t)"
    and "Start c \<in> set (log t)" and "program c = ''sh''" and "cc_plain H" and "vars H ''TARGET'' = Some target"
  shows "(cfg_line \<in> set (log t) \<longleftrightarrow> prefixed H target) \<and> (\<forall>d \<in> set declarations.
      link_symbol (cfg_line \<in> set (log t)) d = exported config_sub elf c (d_name d) \<longleftrightarrow>
        cfg_line \<in> set (log t) \<or> configure_abi elf (config_sub (Some (gnu_target target))) \<notin> {Macho, Pecoff}) \<and>
    call_declaration call \<in> set declarations \<and>
    distinct (map (link_symbol (cfg_line \<in> set (log t))) declarations) \<and>
    (cfg_line \<in> set (log t) \<longrightarrow> link_symbol True ` set declarations \<inter> d_name ` set declarations = {})"
proof (intro conjI impI)
  show "cfg_line \<in> set (log t) \<longleftrightarrow> prefixed H target"
    using prefix_choice [OF assms] by simp
  have "requested_prefix (tl (cargs c)) = symbol_prefix (cfg_line \<in> set (log t))"
    "requested host_flag (tl (cargs c)) = Some (gnu_target target)"
    using prefix_choice [OF assms] by simp_all
  then show "\<forall>d \<in> set declarations.
      link_symbol (cfg_line \<in> set (log t)) d = exported config_sub elf c (d_name d) \<longleftrightarrow>
        cfg_line \<in> set (log t) \<or> configure_abi elf (config_sub (Some (gnu_target target))) \<notin> {Macho, Pecoff}"
    by (cases "cfg_line \<in> set (log t)")
       (auto simp: prefixed_name exported_def symbol_prefix_def link_symbol_def JEMALLOC_PREFIX_def)
  show "link_symbol True ` set declarations \<inter> d_name ` set declarations = {}"
  proof (rule ccontr)
    assume "\<not> ?thesis"
    then obtain d e where "d \<in> set declarations" "e \<in> set declarations" "link_symbol True d = d_name e" by auto
    then have "prefix ''_'' (d_name e)" using prefixed_link [of d] by (simp flip: \<open>link_symbol True d = d_name e\<close>)
    with \<open>e \<in> set declarations\<close> no_prefixed_name show False by blast
  qed
qed (rule call_declared, rule distinct_symbols)

section \<open>Witnesses\<close>

text \<open>
  A host that asks for unprefixed symbols: on Linux every declaration resolves; for 64-bit Windows with the
  GNU tools, which is none of the targets that are always prefixed, none does.
\<close>

definition unprefixed_vars :: "string \<Rightarrow> (string \<times> string) list" where
  "unprefixed_vars target = (''TARGET'', target) #
     (''CARGO_FEATURE_UNPREFIXED_MALLOC_ON_SUPPORTED_PLATFORMS'', ''1'') # demo_vars"

lemma formats:
  "configure_abi elf ''x86_64-linux'' = Elf" "configure_abi elf ''x86_64-w64-mingw32'' = Pecoff"
  "configure_abi elf ''aarch64-apple-ios'' = Macho" "configure_abi elf ''x86_64-apple-darwin'' = Macho"
  by (cases elf; code_simp)+

lemma windows_names:
  "gnu_target ''x86_64-pc-windows-gnu'' = ''x86_64-w64-mingw32''" "\<not> any_in UNSUPPORTED_TARGETS ''x86_64-pc-windows-gnu''"
  "\<not> any_in NO_UNPREFIXED_MALLOC_TARGETS ''x86_64-pc-windows-gnu''" "\<not> any_in UNTESTED_TARGETS ''x86_64-pc-windows-gnu''"
  by code_simp+

lemma windows_host_ok: "host_ok (demo_host (unprefixed_vars ''x86_64-pc-windows-gnu''))"
proof -
  have "map_of (unprefixed_vars ''x86_64-pc-windows-gnu'')
      (replace_char CHR ''-'' CHR ''_'' (to_uppercase ''x86_64-pc-windows-gnu'') @ ''_JEMALLOC_OVERRIDE'') = None"
    by code_simp
  with windows_names(2) show ?thesis
    by (simp add: host_ok_def demo_host_def unprefixed_vars_def demo_vars_def)
qed

text \<open>A run that completes has started configure, whatever the target.\<close>

lemma completed_configured:
  assumes "host_ok H" and "vars H ''TARGET'' = Some target"
  shows "\<exists>t c. build_main H demo_start = (Done (), t) \<and> Start c \<in> set (log t) \<and> program c = ''sh''"
proof -
  obtain t where t: "build_main H demo_start = (Done (), t)"
    using safeD [OF build_main_safe [OF assms(1)], of demo_start] by (auto simp: no_file_def)
  obtain hst n out_dir where h: "vars H ''HOST'' = Some hst" "vars H ''NUM_JOBS'' = Some n" "vars H ''OUT_DIR'' = Some out_dir"
    "vars H ''JEMALLOC_OVERRIDE'' = None"
    "vars H (replace_char CHR ''-'' CHR ''_'' (to_uppercase target) @ ''_JEMALLOC_OVERRIDE'') = None"
    using assms by (auto simp: host_ok_def)
  obtain cfg where "program cfg = ''sh''" "cfg \<in> set (started t)"
    using build_main_order [OF t assms(2) h] by (auto simp: in_order_def ordered_run_def configured_def conf_def)
  with t show ?thesis by (auto simp: started_in_log)
qed

lemma demo_cc_plain: "cc_plain (demo_host vs)"
  by (auto simp: cc_plain_def demo_host_def)

text \<open>The canonical name of a host that is canonical already.\<close>

definition same_name :: "string option \<Rightarrow> string" where
  "same_name h = (case h of None \<Rightarrow> ''x86_64-pc-linux-gnu'' | Some n \<Rightarrow> n)"

theorem link_names_agree_witness:
  "(\<exists>t c. build_main (demo_host demo_vars) demo_start = (Done (), t) \<and> Start c \<in> set (log t) \<and>
     link_symbol (cfg_line \<in> set (log t)) decl_malloc = exported same_name True c ''malloc'') \<and>
   (\<exists>t c. build_main (demo_host (unprefixed_vars ''x86_64-pc-windows-gnu'')) demo_start = (Done (), t) \<and>
     Start c \<in> set (log t) \<and> cfg_line \<notin> set (log t) \<and>
     link_symbol False decl_malloc \<noteq> exported same_name True c ''malloc'')"
proof -
  have malloc: "decl_malloc \<in> set declarations" "d_name decl_malloc = ''malloc''"
    by (simp_all add: declarations_def standard_declarations_def decl_malloc_def)
  have linux: "configure_abi True (same_name (Some (gnu_target ''x86_64-linux''))) \<notin> {Macho, Pecoff}"
  proof -
    have "gnu_target ''x86_64-linux'' = ''x86_64-linux''" by code_simp
    then show ?thesis by (simp add: same_name_def formats)
  qed
  have windows: "configure_abi True (same_name (Some (gnu_target ''x86_64-pc-windows-gnu''))) = Pecoff"
    by (simp add: same_name_def formats windows_names)
  obtain t c where t: "build_main (demo_host demo_vars) demo_start = (Done (), t)"
    and c: "Start c \<in> set (log t)" "program c = ''sh''"
    using demo_configured by blast
  have "link_symbol (cfg_line \<in> set (log t)) decl_malloc = exported same_name True c (d_name decl_malloc) \<longleftrightarrow>
      cfg_line \<in> set (log t) \<or> configure_abi True (same_name (Some (gnu_target ''x86_64-linux''))) \<notin> {Macho, Pecoff}"
    using link_names_agree [OF t c demo_cc_plain demo_vars_simps(1), of same_name True] malloc(1) by blast
  then have 1: "link_symbol (cfg_line \<in> set (log t)) decl_malloc = exported same_name True c ''malloc''"
    using linux by (simp only: malloc(2)) simp
  have tgt: "vars (demo_host (unprefixed_vars ''x86_64-pc-windows-gnu'')) ''TARGET'' = Some ''x86_64-pc-windows-gnu''"
    by (simp add: demo_host_def unprefixed_vars_def)
  obtain u d where u: "build_main (demo_host (unprefixed_vars ''x86_64-pc-windows-gnu'')) demo_start = (Done (), u)"
    and d: "Start d \<in> set (log u)" "program d = ''sh''"
    using completed_configured [OF windows_host_ok tgt] by blast
  have all: "(cfg_line \<in> set (log u) \<longleftrightarrow> prefixed (demo_host (unprefixed_vars ''x86_64-pc-windows-gnu'')) ''x86_64-pc-windows-gnu'') \<and>
    (link_symbol (cfg_line \<in> set (log u)) decl_malloc = exported same_name True d (d_name decl_malloc) \<longleftrightarrow>
      cfg_line \<in> set (log u) \<or> configure_abi True (same_name (Some (gnu_target ''x86_64-pc-windows-gnu''))) \<notin> {Macho, Pecoff})"
    using link_names_agree [OF u d demo_cc_plain tgt, of same_name True] malloc(1) by blast
  moreover have "\<not> prefixed (demo_host (unprefixed_vars ''x86_64-pc-windows-gnu'')) ''x86_64-pc-windows-gnu''"
    using windows_names(3) by (simp add: prefixed_def demo_host_def unprefixed_vars_def)
  ultimately have 2: "cfg_line \<notin> set (log u)" "link_symbol False decl_malloc \<noteq> exported same_name True d ''malloc''"
    by (auto simp: windows malloc(2))
  show ?thesis using t c 1 u d 2 by blast
qed

end
