(* ===== verification/Build_Output.thy ===== *)
theory Build_Output
  imports Build_Script
begin

text \<open>
  The whole output of \<^verbatim>\<open>jevmalloc-sys/build.rs\<close> as one list. The reference below says, from the environment
  and the lines \<^verbatim>\<open>cc\<close> prints, with no state, which lines Cargo reads and which commands are started, with their arguments
  and in their order, in a run that builds the bundled library. The script is shown to produce it: what a
  build depends on, how configure is called and what is linked can be read off the list.
\<close>

section \<open>The reference\<close>

definition variable_prefix :: "string \<Rightarrow> string" where
  "variable_prefix target = replace_char CHR ''-'' CHR ''_'' (to_uppercase target) @ ''_''"

text \<open>The watch lines of a variable, and its value; \<open>g\<close> reads one form of it.\<close>

definition watch_lines :: "(string \<Rightarrow> string option) \<Rightarrow> string \<Rightarrow> string \<Rightarrow> event list" where
  "watch_lines g target name =
    Line (''cargo:rerun-if-env-changed='' @ variable_prefix target @ name) #
    (if g (variable_prefix target @ name) = None then [Line (''cargo:rerun-if-env-changed='' @ name)] else [])"

definition variable_value :: "(string \<Rightarrow> string option) \<Rightarrow> string \<Rightarrow> string \<Rightarrow> string option" where
  "variable_value g target name =
    (case g (variable_prefix target @ name) of Some v \<Rightarrow> Some v | None \<Rightarrow> g name)"

definition set_value :: "host \<Rightarrow> string \<Rightarrow> string option" where
  "set_value H n = (case vars H n of None \<Rightarrow> None | Some v \<Rightarrow> if v = [] then None else Some v)"

definition configure_variables :: "(string \<times> string) list" where
  "configure_variables = [(''JEMALLOC_SYS_WITH_MALLOC_CONF'', ''--with-malloc-conf=''),
     (''JEMALLOC_SYS_WITH_LG_PAGE'', ''--with-lg-page=''), (''JEMALLOC_SYS_WITH_LG_HUGEPAGE'', ''--with-lg-hugepage=''),
     (''JEMALLOC_SYS_WITH_LG_QUANTUM'', ''--with-lg-quantum=''), (''JEMALLOC_SYS_WITH_LG_VADDR'', ''--with-lg-vaddr='')]"

definition warning_line :: "string \<Rightarrow> event" where
  "warning_line s = Line (''cargo:warning='' @ [CHR 0x22] @ s @ [CHR 0x22])"

definition target_lines :: "host \<Rightarrow> string \<Rightarrow> event list" where
  "target_lines H target =
    (if any_in UNTESTED_TARGETS target
     then [warning_line (''jemalloc support for `'' @ target @ ''` is untested'')] else []) @
    (if vars H ''CARGO_FEATURE_UNPREFIXED_MALLOC_ON_SUPPORTED_PLATFORMS'' \<noteq> None \<and> any_in NO_UNPREFIXED_MALLOC_TARGETS target
     then [warning_line (''Unprefixed `malloc` requested on unsupported platform `'' @ target @
       ''` => using prefixed `malloc`'')] else []) @
    [Line ''cargo::rustc-check-cfg=cfg(prefixed)''] @ (if prefixed H target then [cfg_line] else [])"

definition feature_option :: "host \<Rightarrow> string \<times> string \<Rightarrow> string" where
  "feature_option H = (\<lambda>(feature, opt). (if vars H (''CARGO_FEATURE_'' @ feature) \<noteq> None then ''--enable-'' else ''--disable-'') @ opt)"

definition feature_options :: "host \<Rightarrow> string \<Rightarrow> string list" where
  "feature_options H target = map (feature_option H)
      [(''CACHE_OBLIVIOUS'', ''cache-oblivious''), (''CHECK_SAFETY'', ''opt-safety-checks''),
       (''CHECK_SIZE_MATCH'', ''opt-size-checks''), (''CHECK_USE_AFTER_FREE'', ''uaf-detection''), (''FILL'', ''fill''),
       (''INITIAL_EXEC_TLS'', ''initial-exec-tls''), (''PAGEID'', ''pageid''), (''PROFILING'', ''prof'')] @
    (if vars H ''CARGO_FEATURE_PROFILING_FRAMEPTR'' \<noteq> None \<and> sublist ''linux'' target then [''--enable-prof-frameptr''] else []) @
    [feature_option H (''STATS'', ''stats'')]"

definition debug_build :: "host \<Rightarrow> bool" where
  "debug_build H \<longleftrightarrow> script_debug H \<or> vars H ''CARGO_CFG_DEBUG_ASSERTIONS'' \<noteq> None"

definition configure_line :: "host \<Rightarrow> string \<Rightarrow> string \<Rightarrow> string \<Rightarrow> string \<Rightarrow> string \<times> string \<Rightarrow> command" where
  "configure_line H target hst out_dir version cc =
    (let build_dir = path_join out_dir ''build'' in
     \<lparr>program = ''sh'',
      cargs = [replace_char CHR 0x5C CHR ''/'' (replace_all [CHR ''C'', CHR '':'', CHR 0x5C] ''/c/'' (path_join build_dir ''configure'')),
          ''--with-version='' @ version, ''--enable-option-checking=fatal'', ''--disable-cxx'', ''--enable-doc=no'',
          ''--enable-shared=no''] @
        (if sublist ''ios'' target then [''--with-lg-page=14''] else []) @
        (if sublist ''openbsd'' target then [''--disable-dss''] else []) @
        concat (map (\<lambda>(name, opt). case variable_value (set_value H) target name of None \<Rightarrow> [] | Some v \<Rightarrow> [opt @ v])
          configure_variables) @
        (if prefixed H target then [''--with-jemalloc-prefix=_rjem_''] else []) @ [''--with-private-namespace=_rjem_''] @
        [if debug_build H then ''--enable-debug'' else ''--disable-debug''] @ feature_options H target @
        [''--host='' @ gnu_target target, ''--build='' @ gnu_target hst, ''--prefix='' @ out_dir],
      dir = Some build_dir,
      cenv = [(''CC'', fst cc), (''EXTRA_CFLAGS'', snd cc)] @
        (if debug_build H then [] else [(''CPPFLAGS'', ''-DNDEBUG'')])\<rparr>)"

definition link_lines :: "host \<Rightarrow> string \<Rightarrow> string \<Rightarrow> event list" where
  "link_lines H target out_dir =
    [Line (''cargo:root='' @ out_dir),
     Line (if sublist ''windows'' target then ''cargo:rustc-link-lib=static=jemalloc''
       else ''cargo:rustc-link-lib=static=jemalloc_pic''),
     Line (''cargo:rustc-link-search=native='' @ path_join out_dir ''build'' @ ''/lib'')] @
    (if \<not> sublist ''windows'' target \<and> \<not> sublist ''android'' target then [Line ''cargo:rustc-link-arg=-pthread''] else []) @
    (if sublist ''riscv'' target then [Line ''cargo:rustc-link-lib=atomic''] else []) @
    [Line ''cargo:rerun-if-changed=jemalloc''] @
    (if sublist ''android'' target then Cc_compile ''src/pthread_atfork.c'' ''pthread_atfork'' #
       map Line (cc_compile_lines H ''src/pthread_atfork.c'' ''pthread_atfork'') @
       [Line ''cargo:rerun-if-changed=src/pthread_atfork.c''] else [])"

text \<open>The architecture flags \<^verbatim>\<open>cc\<close> is given, and what it prints when it looks for the compiler with them.\<close>

definition march_flag :: "host \<Rightarrow> string" where
  "march_flag H = (case target_cpu (rustflags H) of None \<Rightarrow> [] | Some arch \<Rightarrow> ''-march='' @ arch)"

definition mtune_flag :: "host \<Rightarrow> string" where
  "mtune_flag H = (case tune_cpu (rustflags H) of None \<Rightarrow> [] | Some arch \<Rightarrow> ''-mtune='' @ arch)"

definition compiler_lines :: "host \<Rightarrow> event list" where
  "compiler_lines H = map Line (cc_lines H (march_flag H) (mtune_flag H))"

definition script_output ::
    "host \<Rightarrow> string \<Rightarrow> string \<Rightarrow> string \<Rightarrow> string \<Rightarrow> string \<Rightarrow> string \<times> string \<Rightarrow> event list" where
  "script_output H target hst num_jobs out_dir version cc =
    target_lines H target @ watch_lines (vars H) target ''JEMALLOC_OVERRIDE'' @ compiler_lines H @
    [Line ''cargo:rerun-if-changed=configure''] @
    concat (map (\<lambda>(name, _). watch_lines (set_value H) target name) configure_variables) @
    map Start (configure_line H target hst out_dir version cc # make_list H hst num_jobs (path_join out_dir ''build'')) @
    link_lines H target out_dir"

section \<open>What each step adds to the log\<close>

text \<open>A step that returns, returns \<open>x\<close> and adds \<open>L\<close>.\<close>

definition outputs :: "(build_state, 'a) comp \<Rightarrow> 'a \<Rightarrow> event list \<Rightarrow> bool" where
  "outputs m x L \<longleftrightarrow> (\<forall>s r t. m s = (Done r, t) \<longrightarrow> r = x \<and> log t = log s @ L)"

lemma outputs_ret: "outputs (ret x) x []"
  by (simp add: outputs_def)

lemma outputs_then:
  "outputs m x L \<Longrightarrow> outputs (f x) y M \<Longrightarrow> outputs (run_then m f) y (L @ M)"
  by (fastforce simp: outputs_def run_then_Done_iff)

lemma outputs_map: "outputs m x L \<Longrightarrow> outputs (run_then m (\<lambda>v. ret (g v))) (g x) L"
  by (fastforce simp: outputs_def run_then_Done_iff)

lemma outputs_eq: "outputs m x L \<Longrightarrow> L = M \<Longrightarrow> outputs m x M"
  by simp

lemma outputs_emit: "outputs (emit l) () [Line l]"
  by (simp add: outputs_def emit_def)

lemma outputs_assert: "outputs (rust_assert b) () []"
  by (simp add: outputs_def rust_assert_def)

lemma outputs_if:
  "(b \<Longrightarrow> outputs m x L) \<Longrightarrow> (\<not> b \<Longrightarrow> outputs n x M) \<Longrightarrow> outputs (if b then m else n) x (if b then L else M)"
  by simp

lemma outputs_quiet:
  assumes "\<And>s r t. m s = (Done r, t) \<Longrightarrow> log t = log s"
  shows "outputs m () []"
  using assms by (simp add: outputs_def)

lemma outputs_unwrap: "outputs (unwrap (Some x)) x []"
  by (simp add: unwrap_def outputs_ret)

lemma outputs_env: "vars H name = Some v \<Longrightarrow> outputs (expect_env H name) v []"
  by (simp add: expect_env_def outputs_ret)

lemma outputs_start: "outputs (run H c) () [Start c]"
  by (auto simp: outputs_def run_eq split: if_splits)

lemma outputs_run_and_log: "outputs (run_and_log H c file) () [Start c]"
  by (auto simp: outputs_def run_and_log_def execute_def start_def run_then_Done_iff
      split: prod.splits exit_status.splits bool.splits if_splits)

lemma outputs_run_all: "outputs (run_all H cs) () (map Start cs)"
proof (induction cs)
  case (Cons c cs)
  then show ?case
    using outputs_then [OF outputs_start, of "\<lambda>_. run_all H cs" "()" "map Start cs"] by simp
qed (simp add: outputs_ret)

lemma outputs_watch:
  assumes "vars H ''TARGET'' = Some target"
  shows "outputs (read_and_watch_env_impl H name g) (variable_value g target name) (watch_lines g target name)"
  using assms
  by (auto simp: outputs_def read_and_watch_env_impl_def expect_env_def run_then_def emit_def Let_def
      variable_value_def watch_lines_def variable_prefix_def split: option.splits)

lemma outputs_watch_set:
  assumes "vars H ''TARGET'' = Some target"
  shows "outputs (read_and_watch_env H name) (variable_value (set_value H) target name)
    (watch_lines (set_value H) target name)"
proof -
  have "(\<lambda>n. case vars H n of None \<Rightarrow> None | Some v \<Rightarrow> if v = [] then None else Some v) = set_value H"
    by (simp add: set_value_def fun_eq_iff)
  with outputs_watch [OF assms, of name "set_value H"] show ?thesis
    by (simp add: read_and_watch_env_def)
qed

lemma outputs_check_target: "outputs (check_target H target) (prefixed H target) (target_lines H target)"
  unfolding outputs_def check_target_def warning_def prefixed_def target_lines_def warning_line_def
  by (auto simp: run_then_def emit_def rust_assert_def Let_def split: if_splits)

lemma outputs_prepare: "outputs (prepare H out_dir) () [Line ''cargo:rerun-if-changed=configure'']"
proof -
  have q: "outputs remove_build () []" "outputs (copy_sources H) () []"
    "outputs (\<lambda>t. rust_assert (build_tree t \<noteq> None) t) () []" "outputs (copy_config H) () []"
    by (auto simp: outputs_def remove_build_def copy_sources_def copy_config_def rust_assert_def
        split: option.splits tree.splits prod.splits sum.splits if_splits)
  show ?thesis
    unfolding prepare_def
    using outputs_then [OF outputs_assert outputs_then [OF outputs_emit outputs_then [OF q(1)
      outputs_then [OF q(2) outputs_then [OF q(3) q(4)]]]]]
    by simp
qed

lemma outputs_link: "outputs (link_bundled H target out_dir) () (link_lines H target out_dir)"
  unfolding outputs_def link_bundled_def link_lines_def
  by (auto simp: run_then_def emit_def rust_assert_def split: if_splits)

section \<open>The configure command\<close>

definition option_args :: "host \<Rightarrow> string \<Rightarrow> string \<times> string \<Rightarrow> string list" where
  "option_args H target = (\<lambda>(name, opt). case variable_value (set_value H) target name of None \<Rightarrow> [] | Some v \<Rightarrow> [opt @ v])"

definition args :: "command \<Rightarrow> string list \<Rightarrow> command" where
  "args cmd as = cmd\<lparr>cargs := cargs cmd @ as\<rparr>"

lemma outputs_env_arg:
  assumes "vars H ''TARGET'' = Some target"
  shows "outputs (env_arg H name opt cmd) (args cmd (option_args H target (name, opt)))
    (watch_lines (set_value H) target name)"
proof -
  have "(case v of None \<Rightarrow> cmd | Some x \<Rightarrow> arg cmd (opt @ x)) =
      args cmd (case v of None \<Rightarrow> [] | Some v \<Rightarrow> [opt @ v])" for v
    by (simp add: args_def arg_def split: option.split)
  then show ?thesis
    using outputs_map [OF outputs_watch_set [OF assms], of name "\<lambda>v. case v of None \<Rightarrow> cmd | Some x \<Rightarrow> arg cmd (opt @ x)"]
    by (simp add: env_arg_def option_args_def)
qed

lemma set_value_nonempty: "set_value H n = Some v \<Longrightarrow> v \<noteq> []"
  by (auto simp: set_value_def split: option.splits if_splits)

lemma outputs_malloc_conf:
  assumes "vars H ''TARGET'' = Some target"
  shows "outputs (malloc_conf_arg H cmd)
    (args cmd (option_args H target (''JEMALLOC_SYS_WITH_MALLOC_CONF'', ''--with-malloc-conf='')))
    (watch_lines (set_value H) target ''JEMALLOC_SYS_WITH_MALLOC_CONF'')"
proof -
  have ne: "v \<noteq> []" if "variable_value (set_value H) target n = Some v" for n v
    using that by (auto simp: variable_value_def dest: set_value_nonempty split: option.splits)
  let ?f = "\<lambda>v. let malloc_conf = []; malloc_conf = (case v of None \<Rightarrow> malloc_conf
      | Some opts \<Rightarrow> (if malloc_conf \<noteq> [] then malloc_conf @ '','' else malloc_conf) @ opts)
    in if malloc_conf \<noteq> [] then arg cmd (''--with-malloc-conf='' @ malloc_conf) else cmd"
  have "?f (variable_value (set_value H) target ''JEMALLOC_SYS_WITH_MALLOC_CONF'') =
      args cmd (option_args H target (''JEMALLOC_SYS_WITH_MALLOC_CONF'', ''--with-malloc-conf=''))"
    using ne [of "''JEMALLOC_SYS_WITH_MALLOC_CONF''"]
    by (simp add: option_args_def args_def arg_def Let_def split: option.split)
  then show ?thesis
    using outputs_map [OF outputs_watch_set [OF assms], of "''JEMALLOC_SYS_WITH_MALLOC_CONF''" ?f]
    by (simp add: malloc_conf_arg_def Let_def)
qed

text \<open>Arguments are appended, so a command is determined by its start and what is appended.\<close>

lemma args_args [simp]: "args (args c as) bs = args c (as @ bs)"
  by (simp add: args_def)

lemma args_Nil [simp]: "args c [] = c"
  by (simp add: args_def)

lemma arg_args: "arg c a = args c [a]"
  by (simp add: arg_def args_def)

lemma feature_args_eq: "feature_args H target c = args c (feature_options H target)"
proof -
  have "feature_flag H c f opt = args c [feature_option H (f, opt)]" for c f opt
    by (simp add: feature_flag_def args_def feature_option_def)
  then show ?thesis
    by (simp add: feature_args_def feature_options_def Let_def arg_args)
qed

lemma prefix_args_eq: "prefix_args b c =
  args c ((if b then [''--with-jemalloc-prefix=_rjem_''] else []) @ [''--with-private-namespace=_rjem_''])"
  by (simp add: prefix_args_def Let_def arg_args)

lemma debug_args_eq: "debug_args H c =
  (args c [if debug_build H then ''--enable-debug'' else ''--disable-debug''])
    \<lparr>cenv := cenv c @ (if debug_build H then [] else [(''CPPFLAGS'', ''-DNDEBUG'')])\<rparr>"
  by (simp add: debug_args_def debug_build_def arg_args args_def)

lemma outputs_configure:
  assumes "vars H ''TARGET'' = Some target"
  shows "outputs (configure_command H target hst out_dir version (prefixed H target) cc)
    (configure_line H target hst out_dir version cc)
    (concat (map (\<lambda>(name, _). watch_lines (set_value H) target name) configure_variables))"
proof -
  let ?c = "initial_command target (path_join out_dir ''build'') (fst cc) (snd cc) version"
  let ?o = "\<lambda>n opt. option_args H target (n, opt)" and ?w = "watch_lines (set_value H) target"
  let ?finish = "\<lambda>cmd. let cmd = feature_args H target (debug_args H (prefix_args (prefixed H target) cmd));
         cmd = arg cmd (''--host='' @ gnu_target target); cmd = arg cmd (''--build='' @ gnu_target hst)
     in arg cmd (''--prefix='' @ out_dir)"
  let ?all = "?o ''JEMALLOC_SYS_WITH_MALLOC_CONF'' ''--with-malloc-conf='' @
    ?o ''JEMALLOC_SYS_WITH_LG_PAGE'' ''--with-lg-page='' @ ?o ''JEMALLOC_SYS_WITH_LG_HUGEPAGE'' ''--with-lg-hugepage='' @
    ?o ''JEMALLOC_SYS_WITH_LG_QUANTUM'' ''--with-lg-quantum='' @ ?o ''JEMALLOC_SYS_WITH_LG_VADDR'' ''--with-lg-vaddr=''"
  note step = outputs_env_arg [OF assms]
  have "outputs (configure_command H target hst out_dir version (prefixed H target) cc) (?finish (args ?c ?all))
    (?w ''JEMALLOC_SYS_WITH_MALLOC_CONF'' @ ?w ''JEMALLOC_SYS_WITH_LG_PAGE'' @ ?w ''JEMALLOC_SYS_WITH_LG_HUGEPAGE'' @
     ?w ''JEMALLOC_SYS_WITH_LG_QUANTUM'' @ ?w ''JEMALLOC_SYS_WITH_LG_VADDR'' @ [])"
    unfolding configure_command_def Let_def
    by (rule outputs_then [OF outputs_malloc_conf [OF assms]], rule outputs_then [OF step], rule outputs_then [OF step],
        rule outputs_then [OF step], rule outputs_then [OF step]) (simp add: outputs_ret)
  moreover have "?finish (args ?c ?all) = configure_line H target hst out_dir version cc"
    by (simp add: feature_args_eq prefix_args_eq debug_args_eq arg_args args_def initial_command_def configure_line_def
        option_args_def configure_variables_def Let_def)
  ultimately show ?thesis by (simp add: configure_variables_def)
qed

section \<open>The script\<close>

lemma outputs_compiler:
  assumes "c_compiler H (march_flag H) (mtune_flag H) = Some (path, as)"
  shows "outputs (compiler H) (path, join_words as) (compiler_lines H)"
  using assms unfolding compiler_lines_def march_flag_def mtune_flag_def
  by (auto simp: outputs_def compiler_def Let_def run_then_Done_iff emit_all_def unwrap_def)

lemma outputs_bundled:
  assumes "vars H ''TARGET'' = Some target"
    and "c_compiler H (march_flag H) (mtune_flag H) = Some (path, as)"
  shows "outputs (build_bundled H target hst n out_dir version (prefixed H target)) ()
    (compiler_lines H @ [Line ''cargo:rerun-if-changed=configure''] @
     concat (map (\<lambda>(name, _). watch_lines (set_value H) target name) configure_variables) @
     [Start (configure_line H target hst out_dir version (path, join_words as))] @ map Start (make_list H hst n (path_join out_dir ''build'')) @ link_lines H target out_dir)"
  unfolding build_bundled_def make_steps_list
  using outputs_then [OF outputs_compiler [OF assms(2)] outputs_then [OF outputs_prepare
    outputs_then [OF outputs_configure [OF assms(1)] outputs_then [OF outputs_run_and_log
      outputs_then [OF outputs_run_all outputs_link]]]]]
  by simp

lemma outputs_main:
  assumes v: "vars H ''TARGET'' = Some target" "vars H ''HOST'' = Some hst" "vars H ''NUM_JOBS'' = Some n"
      "vars H ''OUT_DIR'' = Some out_dir" "vars H ''CARGO_PKG_VERSION'' = Some (name @ CHR ''+'' # version)"
    and plus: "CHR ''+'' \<notin> set name" and cwd: "current_dir H = Some cwd"
    and none: "variable_value (vars H) target ''JEMALLOC_OVERRIDE'' = None"
    and cc: "c_compiler H (march_flag H) (mtune_flag H) = Some (path, as)"
  shows "outputs (build_main H) () (script_output H target hst n out_dir version (path, join_words as))"
proof -
  have split: "split_once CHR ''+'' (name @ CHR ''+'' # version) = Some (name, version)"
    using plus by (auto simp: split_once_def takeWhile_append dropWhile_append)
  have ov: "outputs (read_and_watch_env_os H ''JEMALLOC_OVERRIDE'') None (watch_lines (vars H) target ''JEMALLOC_OVERRIDE'')"
    using outputs_watch [OF v(1), of "''JEMALLOC_OVERRIDE''" "vars H"] none by (simp add: read_and_watch_env_os_def)
  let ?rest = "\<lambda>p ov. case ov of Some jemalloc \<Rightarrow> link_override H jemalloc
    | None \<Rightarrow> build_bundled H target hst n out_dir version p"
  let ?bundled = "compiler_lines H @ [Line ''cargo:rerun-if-changed=configure''] @
    concat (map (\<lambda>(name, _). watch_lines (set_value H) target name) configure_variables) @
    [Start (configure_line H target hst out_dir version (path, join_words as))] @
    map Start (make_list H hst n (path_join out_dir ''build'')) @ link_lines H target out_dir"
  have b: "outputs (?rest (prefixed H target) None) () ?bundled"
    unfolding option.case by (rule outputs_bundled [OF v(1) cc])
  have "outputs (run_then (check_target H target) (\<lambda>p. run_then (read_and_watch_env_os H ''JEMALLOC_OVERRIDE'') (?rest p)))
      () (target_lines H target @ watch_lines (vars H) target ''JEMALLOC_OVERRIDE'' @ ?bundled)"
    by (rule outputs_then [OF outputs_check_target], rule outputs_then [OF ov], rule b)
  moreover have "build_main H = run_then (check_target H target)
      (\<lambda>p. run_then (read_and_watch_env_os H ''JEMALLOC_OVERRIDE'') (?rest p))"
    unfolding build_main_def expect_env_def unwrap_def v cwd option.case run_then_ret split snd_conv by (rule refl)
  ultimately show ?thesis
    by (simp only: script_output_def list.map append_Cons append_Nil append_assoc)
qed

section \<open>Properties\<close>

text \<open>
  C37. On a suitable host, unless a plain file is at the place of the build directory, the script returns,
  and what it has output is known exactly: the directives to Cargo, those \<^verbatim>\<open>cc\<close> prints for it included, and the
  commands it starts, with their arguments and environment, are the list the reference computes from the
  variables of the environment and the lines \<^verbatim>\<open>cc\<close> prints. Diagnostic lines and what the started programs print
  themselves are not part of it.
\<close>

theorem build_output_exact:
  assumes "host_ok H" and "\<forall>f. build_tree s \<noteq> Some (File f)"
    and "vars H ''TARGET'' = Some target" and "vars H ''HOST'' = Some hst"
    and "vars H ''NUM_JOBS'' = Some n" and "vars H ''OUT_DIR'' = Some out_dir"
    and "vars H ''CARGO_PKG_VERSION'' = Some (name @ CHR ''+'' # version)" and "CHR ''+'' \<notin> set name"
    and "c_compiler H (march_flag H) (mtune_flag H) = Some (path, as)"
  shows "\<exists>t. build_main H s = (Done (), t) \<and>
    log t = log s @ script_output H target hst n out_dir version (path, join_words as)"
proof -
  obtain t where t: "build_main H s = (Done (), t)"
    using build_completes [OF assms(1,2)] by blast
  obtain cwd where cwd: "current_dir H = Some cwd"
    using assms(1) by (auto simp: host_ok_def)
  have none: "variable_value (vars H) target ''JEMALLOC_OVERRIDE'' = None"
    using assms(1,3) by (auto simp: host_ok_def variable_value_def variable_prefix_def)
  from outputs_main [OF assms(3-8) cwd none assms(9)] t show ?thesis
    by (simp add: outputs_def)
qed

text \<open>The commands of an output, and those started on the host of the examples.\<close>

definition commands :: "event list \<Rightarrow> command list" where
  "commands es = concat (map (\<lambda>e. case e of Start c \<Rightarrow> [c] | _ \<Rightarrow> []) es)"

lemma demo_debug: "\<not> debug_build (demo_host demo_vars)"
  by (simp add: debug_build_def demo_host_def demo_vars_def)

lemma demo_features:
  "feature_options (demo_host demo_vars) ''x86_64-linux'' =
   [''--disable-cache-oblivious'', ''--disable-opt-safety-checks'', ''--disable-opt-size-checks'',
    ''--disable-uaf-detection'', ''--disable-fill'', ''--disable-initial-exec-tls'', ''--disable-pageid'',
    ''--disable-prof'', ''--enable-stats'']"
  by (simp add: feature_options_def feature_option_def demo_host_def demo_vars_def)

lemma demo_target:
  "variable_prefix ''x86_64-linux'' = ''X86_64_LINUX_''" "gnu_target ''x86_64-linux'' = ''x86_64-linux''"
  "\<not> sublist ''ios'' ''x86_64-linux''" "\<not> sublist ''openbsd'' ''x86_64-linux''" "\<not> sublist ''windows'' ''x86_64-linux''"
  by code_simp+

lemma demo_prefixed: "prefixed (demo_host demo_vars) target"
  by (simp add: prefixed_def demo_host_def demo_vars_def)

lemma demo_variables:
  "list_all (\<lambda>(name, opt). variable_value (set_value (demo_host demo_vars)) ''x86_64-linux'' name = None) configure_variables"
  by (simp add: configure_variables_def variable_value_def demo_target set_value_def demo_host_def demo_vars_def)

lemma demo_script:
  "replace_char CHR 0x5C CHR ''/'' (replace_all [CHR ''C'', CHR '':'', CHR 0x5C] ''/c/''
     (path_join (path_join ''/o'' ''build'') ''configure'')) = ''/o/build/configure''"
  by code_simp

lemma demo_configure:
  "cargs (configure_line (demo_host demo_vars) ''x86_64-linux'' ''x86_64-linux'' ''/o'' ''5'' (''cc'', [])) =
   [''/o/build/configure'', ''--with-version=5'', ''--enable-option-checking=fatal'', ''--disable-cxx'',
    ''--enable-doc=no'', ''--enable-shared=no'', ''--with-jemalloc-prefix=_rjem_'', ''--with-private-namespace=_rjem_'',
    ''--disable-debug'', ''--disable-cache-oblivious'', ''--disable-opt-safety-checks'', ''--disable-opt-size-checks'',
    ''--disable-uaf-detection'', ''--disable-fill'', ''--disable-initial-exec-tls'', ''--disable-pageid'',
    ''--disable-prof'', ''--enable-stats'', ''--host=x86_64-linux'', ''--build=x86_64-linux'', ''--prefix=/o'']"
proof -
  have "concat (map (\<lambda>(name, opt). case variable_value (set_value (demo_host demo_vars)) ''x86_64-linux'' name of
      None \<Rightarrow> [] | Some v \<Rightarrow> [opt @ v]) configure_variables) = []"
    using demo_variables by (auto simp: list_all_iff)
  then show ?thesis
    by (simp add: configure_line_def Let_def demo_script demo_target demo_prefixed demo_debug demo_features)
qed

lemma commands_lines [simp]:
  "commands [] = []" "commands (Line l # es) = commands es" "commands (Cc_compile a b # es) = commands es"
  "commands (Start c # es) = c # commands es" "commands (es @ fs) = commands es @ commands fs"
  "commands (map Start cs) = cs" "commands (map Line ls) = []"
  by (simp_all add: commands_def comp_def)

lemma commands_watch: "commands (watch_lines g target name) = []"
  by (simp add: watch_lines_def)

lemma commands_concat: "commands (concat ess) = concat (map commands ess)"
  by (induction ess) simp_all

text \<open>The commands of the whole output: configure and then the runs of make, whatever the lines are.\<close>

lemma commands_output:
  "commands (script_output H target hst n out_dir version cc) =
   configure_line H target hst out_dir version cc # make_list H hst n (path_join out_dir ''build'')"
proof -
  have "commands (target_lines H target) = []"
    by (simp add: target_lines_def warning_line_def)
  moreover have "commands (concat (map (\<lambda>(name, _). watch_lines (set_value H) target name) configure_variables)) = []"
    by (simp add: commands_concat commands_watch case_prod_unfold comp_def)
  moreover have "commands (link_lines H target out_dir) = []" "commands (compiler_lines H) = []"
    by (simp_all add: link_lines_def compiler_lines_def)
  ultimately show ?thesis
    by (simp add: script_output_def commands_watch del: map_append list.map)
qed

lemma demo_make:
  "map cargs (make_list (demo_host demo_vars) ''x86_64-linux'' ''4'' d) =
   [[''-j'', ''4''], [''install_lib_static'', ''install_include'', ''-j'', ''4'']]"
  by (simp add: make_list_def demo_host_def demo_vars_def)

theorem build_output_exact_witness:
  "\<exists>t. build_main (demo_host demo_vars) demo_start = (Done (), t) \<and>
    Line ''cargo:rerun-if-env-changed=CC'' \<in> set (log t) \<and> map cargs (commands (log t)) =
    [[''/o/build/configure'', ''--with-version=5'', ''--enable-option-checking=fatal'', ''--disable-cxx'',
      ''--enable-doc=no'', ''--enable-shared=no'', ''--with-jemalloc-prefix=_rjem_'', ''--with-private-namespace=_rjem_'',
      ''--disable-debug'', ''--disable-cache-oblivious'', ''--disable-opt-safety-checks'', ''--disable-opt-size-checks'',
      ''--disable-uaf-detection'', ''--disable-fill'', ''--disable-initial-exec-tls'', ''--disable-pageid'',
      ''--disable-prof'', ''--enable-stats'', ''--host=x86_64-linux'', ''--build=x86_64-linux'', ''--prefix=/o''],
     [''-j'', ''4''], [''install_lib_static'', ''install_include'', ''-j'', ''4'']]"
proof -
  have host: "vars (demo_host demo_vars) ''CARGO_PKG_VERSION'' = Some (''0.1'' @ CHR ''+'' # ''5'')"
      "CHR ''+'' \<notin> set ''0.1''" "\<forall>f. build_tree demo_start \<noteq> Some (File f)"
    by (simp_all add: demo_host_def demo_vars_def)
  have cc: "c_compiler (demo_host demo_vars) a b = Some (''cc'', [])" for a b
    by (simp add: demo_host_def)
  from build_output_exact [OF demo_host_ok host(3) demo_vars_simps(1-4) host(1,2) cc]
  obtain t where t: "build_main (demo_host demo_vars) demo_start = (Done (), t)"
      "log t = script_output (demo_host demo_vars) ''x86_64-linux'' ''x86_64-linux'' ''4'' ''/o'' ''5'' (''cc'', [])"
    by (auto simp: join_words_def)
  have "Line ''cargo:rerun-if-env-changed=CC'' \<in> set (log t)"
    by (simp add: t(2) script_output_def compiler_lines_def demo_host_def del: list.map)
  then show ?thesis
    by (intro exI [of _ t] conjI t(1)) (simp_all only: t(2) commands_output list.map demo_configure demo_make)
qed

end
