(* ===== verification/Source_Tests.thy ===== *)
theory Source_Tests
  imports Thread_This Thread_Cache Stats Extent_Hooks Layout
begin

text \<open>
  The unit tests of the repository that do not need a running C library, replayed on the model: each
  lemma has the name of the test, evaluates the definitions on its inputs and shows what the test asserts,
  for every library. They check the definitions against expectations their authors wrote down, and are
  not used by any other theory. From \<^verbatim>\<open>ctl/error.rs\<close>, \<^verbatim>\<open>ctl/raw.rs\<close>, \<^verbatim>\<open>stats.rs\<close>, \<^verbatim>\<open>arena/tests.rs\<close>, \<^verbatim>\<open>arenas.rs\<close>,
  \<^verbatim>\<open>thread/cache.rs\<close>, \<^verbatim>\<open>arena/extent_hooks/tests.rs\<close> and \<^verbatim>\<open>tests/flags.rs\<close>.
\<close>

section \<open>Errors and names\<close>

lemma unknown_status_keeps_its_code:
  assumes "\<forall>n. errno F n \<noteq> 12345"
  shows "\<exists>e. from_code 12345 p = (Done e, p) \<and> error_code e = 12345 \<and>
    (\<exists>before after. error_display F e = before @ ''12345'' @ after)"
proof -
  have "description F (Error 12345) = None"
    using assms [THEN spec, THEN not_sym] by (simp add: description_def)
  moreover have "show_int (sint (12345 :: c_int)) = ''12345''"
    by (simp add: show_int_def show_nat.simps digit_def char_of_def bit_0)
  ultimately have "error_display F (Error 12345) = ''Unknown jemalloc error (errno '' @ ''12345'' @ '')''"
    by (simp add: error_display_def)
  moreover have "from_code 12345 p = (Done (Error 12345), p)" "error_code (Error 12345) = 12345"
    by (simp_all add: from_code_def error_code_def)
  ultimately show ?thesis by blast
qed

lemma rejects_empty_name:
  "errno_ok F \<Longrightarrow> mibs F [] p = (Done (Inl (Error (errno F EINVAL))), p)"
  by (rule mibs_rejected) (simp_all add: name_rejected_def str_bytes_def)

lemma rejects_interior_nul:
  "errno_ok F \<Longrightarrow> mibs F (str_bytes ''epoch'' @ 0 # str_bytes ''background_thread'') p =
     (Done (Inl (Error (errno F EINVAL))), p)"
  by (rule mibs_rejected) (simp_all add: name_rejected_def)

lemma rejects_excessive_depth:
  "errno_ok F \<Longrightarrow> mibs F (str_bytes ''a.b.c.d.e.f.g.h.i'') p = (Done (Inl (Error (errno F EINVAL))), p)"
  by (rule mibs_rejected) (simp_all add: name_rejected_def segments_str KEY_SEGS_def)

lemma enforces_name_limit:
  "\<not> name_rejected (replicate (NAME_MAX - 1) 97)" and "name_rejected (replicate NAME_MAX 97)"
  by (simp_all add: name_rejected_def NAME_MAX_def KEY_SEGS_def segments_count)

section \<open>Handles\<close>

text \<open>The largest index is accepted and the limit rejected; the handle does not own the arena.\<close>

lemma validates_index_range:
  assumes "errno_ok F"
  shows "from_index F 0 p = (Done (Inr \<lparr>a_index = 0, a_owned = False\<rparr>), p)"
    and "from_index F (ARENA_INDEX_LIMIT - 1) p = (Done (Inr \<lparr>a_index = ARENA_INDEX_LIMIT - 1, a_owned = False\<rparr>), p)"
    and "from_index F ARENA_INDEX_LIMIT p = (Done (Inl (Error (errno F EINVAL))), p)"
  using assms by (simp_all add: from_index_def arena_validated_index_def ARENA_INDEX_LIMIT_def u32_try_from_def)

lemma substitutes_arena_component:
  assumes "from_index F 7 p = (Done (Inr a), p)" and "1 < length k"
  shows "\<exists>key. arena_select a k p = (Done key, p) \<and> key ! 1 = 7 \<and> \<not> arena_is_owned a"
proof -
  have "a = \<lparr>a_index = 7, a_owned = False\<rparr>"
    using assms(1) by (auto simp: from_index_def run_try_Ok_iff)
  with assms(2) show ?thesis
    by (simp add: arena_select_def select_key_def arena_is_owned_def)
qed

lemma substitutes_all_arenas_component:
  "1 < length k \<Longrightarrow> \<exists>key. arenas_select k p = (Done key, p) \<and> key ! 1 = ALL_ARENAS"
  by (simp add: arenas_select_def select_key_def)

lemma validates_cache_index_range:
  assumes "errno_ok F"
  shows "tcache_validated_index F 0 p = (Done (Inr 0), p)"
    and "tcache_validated_index F (TCACHE_INDEX_LIMIT - 1) p = (Done (Inr 4093), p)"
    and "tcache_validated_index F TCACHE_INDEX_LIMIT p = (Done (Inl (Error (errno F EINVAL))), p)"
    and "tcache_validated_index F (- 1) p = (Done (Inl (Error (errno F EINVAL))), p)"
  using assms by (simp_all add: tcache_validated_index_def TCACHE_INDEX_LIMIT_def u32_try_from_def)

section \<open>The statistics report\<close>

lemma writer_forwards_exact_bytes:
  "write_fragments (\<lambda>output fragment. output @ fragment) [[0xFF, 0], [0xC3, 0], [0xA9, 0]] [] p =
     (Done [0xFF, 0xC3, 0xA9], p)"
  by (simp add: write_fragment_def run_then_def)

lemma buffer_accepts_split_utf8:
  "pb_finish F (pb_write (pb_write (pb_new [0, 0]) [0xC3]) [0xA9]) p = (Done (Inr [0xC3, 0xA9]), p)"
  by (simp add: pb_finish_def pb_write_def pb_new_def checked_add_def from_utf8_def cont_def)

lemma buffer_rejects_invalid_utf8:
  "errno_ok F \<Longrightarrow> pb_finish F (pb_write (pb_new [0]) [0xFF]) p = (Done (Inl (Error (errno F EILSEQ))), p)"
  by (simp add: pb_finish_def pb_write_def pb_new_def checked_add_def from_utf8_def invalid_utf8_def
      fail_from_code_iff)

lemma buffer_rejects_insufficient_space:
  "errno_ok F \<Longrightarrow> pb_finish F (pb_write (pb_new [0, 0]) (str_bytes ''abc'')) p =
     (Done (Inl (Error (errno F ENOSPC))), p)"
  by (simp add: pb_finish_def pb_write_def pb_new_def checked_add_def insufficient_space_def fail_from_code_iff)

lemma options_are_bounded_and_nul_free:
  assumes "errno_ok F"
  shows "normalize_options F (str_bytes ''x?Jx'' @ [0xC3, 0xA9]) (replicate PRINT_OPTIONS_CAPACITY 0) p =
      (Done (Inr (str_bytes ''xJ'')), p)"
    and "normalize_options F (str_bytes ''g'' @ 0 # str_bytes ''m'') (replicate PRINT_OPTIONS_CAPACITY 0) p =
      (Done (Inl (Error (errno F EINVAL))), p)"
  using assms
  by (simp_all add: normalize_options_eq chosen_def first_occurrences_def PRINT_OPTIONS_def str_bytes_def)

section \<open>Hook tables\<close>

lemma raw_literal_defaults_optional_callbacks:
  assumes "hooks = EMPTY_RAW_EXTENT_HOOKS\<lparr>h_alloc := Some f\<rparr>"
  shows "h_alloc hooks \<noteq> None" and "h_dalloc hooks = None" and "h_destroy hooks = None" and "h_commit hooks = None"
    and "h_decommit hooks = None" and "h_purge_lazy hooks = None" and "h_purge_forced hooks = None"
    and "h_split hooks = None" and "h_merge hooks = None"
  using assms by (simp_all add: EMPTY_RAW_EXTENT_HOOKS_def)

lemma rust_literal_defaults_optional_callbacks:
  assumes "raw = raw_header (ExtentHooks_new st (default_callbacks\<lparr>cb_alloc := Some f\<rparr>))"
  shows "h_alloc raw \<noteq> None" and "h_dalloc raw = None" and "h_destroy raw = None" and "h_commit raw = None"
    and "h_decommit raw = None" and "h_purge_lazy raw = None" and "h_purge_forced raw = None"
    and "h_split raw = None" and "h_merge raw = None"
  using assms by (simp_all add: ExtentHooks_new_def default_callbacks_def EMPTY_callbacks_def)

lemma populates_every_callback_slot:
  assumes "raw = raw_header (ExtentHooks_new st \<lparr>cb_alloc = Some f1, cb_dalloc = Some f2, cb_destroy = Some f3,
    cb_commit = Some f4, cb_decommit = Some f5, cb_purge_lazy = Some f6, cb_purge_forced = Some f7,
    cb_split = Some f8, cb_merge = Some f9\<rparr>)"
  shows "h_alloc raw \<noteq> None" and "h_dalloc raw \<noteq> None" and "h_destroy raw \<noteq> None" and "h_commit raw \<noteq> None"
    and "h_decommit raw \<noteq> None" and "h_purge_lazy raw \<noteq> None" and "h_purge_forced raw \<noteq> None"
    and "h_split raw \<noteq> None" and "h_merge raw \<noteq> None"
  using assms by (simp_all add: ExtentHooks_new_def)

section \<open>Layouts\<close>

text \<open>The matrices of the tests are instances: any valid layout of nonzero size will do.\<close>

lemma flag_word_follows_the_quantum:
  assumes "valid_layout l" and "0 < lsize l"
  shows "adjust_layout l p = (Done (normal l), p)"
    and "layout_flags (normal l) = (if lalign l \<le> QUANTUM then 0 else MALLOCX_ALIGN (lalign l))"
  by (simp_all add: adjust_layout_valid [OF assms] layout_flags_def le_max_iff_disj)

lemma fragment_layouts_retain_alignment_flags:
  assumes "sz \<in> {1, 7, 15}" and "align \<in> {32, 64, 128, 4096, 65536}"
  shows "layout_flags (normal \<lparr>lsize = sz, lalign = align\<rparr>) = MALLOCX_ALIGN align"
  using assms by (auto simp: layout_flags_def QUANTUM_def)

end
