(* ===== verification/Spec2Isabelle.thy ===== *)
theory Spec2Isabelle
  imports Cache_Concurrent Composed Exact_Controls Settings Reference_Lifecycle Declarations
    Build_Output Source_Tests
begin

text \<open>
  Verification of jevmalloc, a Rust interface to the jemalloc allocator.

  \<^bold>\<open>The program.\<close> The crate \<^verbatim>\<open>jevmalloc-sys\<close> declares the C functions, encodes their flag words and
  builds the bundled C library; the crate \<^verbatim>\<open>jevmalloc\<close> is a global allocator on top of it and a typed
  interface to jemalloc's controls. A control is reached in two steps. Its name is translated once into a
  numeric key, which a static cache keeps, and the key then names the control in untyped reads, writes
  and commands. Arena handles, explicit thread caches, the calling thread, options, profiling and
  statistics are typed operations over these. Extent hook tables let C call back into Rust.

  \<^bold>\<open>The boundary.\<close> The C library is a git submodule and is not part of the repository. It is a parameter,
  the record \<open>ffi\<close> of Ffi, over an abstract allocator state. What the code relies on is stated as
  named hypotheses of documented behaviour (\<open>nametomib_ok\<close>, \<open>call_ok\<close>, \<open>reads_as\<close>, \<open>updates_as\<close>,
  \<open>accepts_in\<close>, \<open>updates_in\<close>, \<open>local_call_ok\<close>, \<open>value_control\<close>, \<open>plain_control\<close>, \<open>precedence_control\<close>,
  \<open>name_control\<close>, \<open>counter_control\<close>, the laws of creation and destruction in Lifecycle, the heap contract
  of Global), and each theorem that has one is applied to a concrete library in one of the Reference
  theories or beside it. A contract promises no more than the controls do: where a control takes a
  pointer or an index it speaks of the good ones only (a terminated string, a live allocation, a hook
  table, an existing cache), and the register laws of arenas hold for a set \<open>A\<close> of existing ones.
  Callbacks and hooks of the application, the programs a build starts, the lines that the \<^verbatim>\<open>cc\<close> package
  prints and the answers of \<^verbatim>\<open>config.sub\<close> are parameters in the same way.

  \<^bold>\<open>Running code.\<close> A function of the program is a state transformer with one of three outcomes (Rust_Base):
  it returns, it panics, or it runs into undefined behaviour, which is a value here so that its absence
  can be proved. \<open>run_then\<close> is statement order, \<open>run_try\<close> the question mark operator, an error is the left
  of a sum. \<open>safe P m Q\<close> says that \<open>m\<close> returns from every state in \<open>P\<close>. The state holds the memory the code
  reads, the hook tables, the allocator state, the key caches, and a ghost trace of the C calls made.
  Integers have the widths of the 64-bit targets and wrap; values cross the boundary as little-endian bytes.

  \<^bold>\<open>Theories, by source file\<close> (under \<^verbatim>\<open>src/jevmalloc/src\<close> unless said otherwise).
  \<^item> Rust_Base, Ffi: the prelude; \<^verbatim>\<open>jevmalloc-sys/src/control.rs\<close>, \<^verbatim>\<open>extended.rs\<close>, \<^verbatim>\<open>extent.rs\<close> as calls
    recorded in the trace. The locale \<open>c_type\<close> is the law of a C representation.
  \<^item> Declarations: every foreign item of \<^verbatim>\<open>jevmalloc-sys/src/standard.rs\<close>, \<^verbatim>\<open>extended.rs\<close> and
    \<^verbatim>\<open>control.rs\<close> with its symbol, parameters and result. The symbols are those under which the library that
    the build script configures exports the names, where the script asks for a prefix or the default of
    \<^verbatim>\<open>jevmalloc-sys/configure/configure\<close> is the empty one. That default is \<^verbatim>\<open>je_\<close> for Mach-O and PE/COFF, and there
    the unprefixed declarations are not exported.
  \<^item> Ctl_Error: \<^verbatim>\<open>ctl/error.rs\<close>. An error is never zero and its text determines it.
  \<^item> Ctl_Raw: \<^verbatim>\<open>ctl/raw.rs\<close>. Names are checked before any call; the untyped operations never panic or read
    uninitialised memory when the library keeps its word.
  \<^item> Ctl_Cache, Cache_Concurrent: \<^verbatim>\<open>ctl/key/cache.rs\<close>, once as a sequential component behind the locale
    \<open>key_source\<close> and once as a step relation of its atomic operations under release/acquire memory with
    stale relaxed loads, any number of threads and any interleaving. No caller sees a partial key and a
    call finishes in a bounded number of its own steps.
  \<^item> Ctl_Key, Key_Invariant: \<^verbatim>\<open>ctl/key.rs\<close>, every accessor with its own cache, and the invariant \<open>keys_ok\<close>
    that all control operations keep.
  \<^item> Ctl_Value: \<^verbatim>\<open>ctl/value.rs\<close>. Both C booleans satisfy the locale \<open>c_bool\<close>.
  \<^item> Controls: the contracts of controls by name, and the lemmas that turn them into safety of a composed
    operation; the other theories' safety proofs are instances.
  \<^item> Flags, Layout, Global: \<^verbatim>\<open>jevmalloc-sys/src/flags.rs\<close>, \<^verbatim>\<open>global/layout.rs\<close>, \<^verbatim>\<open>global.rs\<close>, \<^verbatim>\<open>global/hook.rs\<close>.
    The flag word is injective, a layout is normalised to one the flags encode, and the four entry points
    refine the contract of a global allocator for every client that keeps its side.
  \<^item> Arena_Parts, Arena, Handle: \<^verbatim>\<open>arena.rs\<close>, \<^verbatim>\<open>arena/name.rs\<close>, \<^verbatim>\<open>arena/dss.rs\<close>, \<^verbatim>\<open>arena/destroy_error.rs\<close>.
    The locale \<open>owning_handle\<close> states the ownership protocol; arenas and explicit thread caches are
    interpretations, and so are destroyed at most once.
  \<^item> Lifecycle, Reference_Lifecycle: whole programs that create, destroy, drop, release and adopt handles
    in any order, as a step relation per kind of handle. The locale \<open>handle_life\<close> extends \<open>owning_handle\<close>
    with what creation and destruction do to the library's objects; in every reachable state each object
    is held, released or lost exactly once. The second theory has a library that satisfies the laws.
  \<^item> Thread_This, Thread_Cache: \<^verbatim>\<open>thread/this.rs\<close>, \<^verbatim>\<open>thread/counters.rs\<close>, \<^verbatim>\<open>arenas.rs\<close>, \<^verbatim>\<open>thread/cache.rs\<close>.
  \<^item> Options, Stats: \<^verbatim>\<open>config.rs\<close>, \<^verbatim>\<open>opt.rs\<close>, \<^verbatim>\<open>profiling.rs\<close>, \<^verbatim>\<open>stats.rs\<close>. Every getter; the option filter and
    the bounded print buffer of the statistics report are exact.
  \<^item> Exact_Controls: what each control operation does, not only that it is safe: the name of its own
    control comes from the cache or from exactly one translation, then one typed call is made on that
    key, at the index of the handle where there is one. Before that call only the translation can fail,
    and the operation then answers its status. \<open>on_control\<close>, \<open>on_indexed\<close> and \<open>on_hooks\<close> state this, and
    tables list the names.
  \<^item> Indirect_Controls: the controls that pass a pointer to memory the other side writes or reads, arena names
    and the direct thread counters, under contracts that say what is at the pointer.
  \<^item> Settings: the controls that are read and written. The locale \<open>setting\<close> is the contract of a register, or of
    one per arena; every pair of a getter and a setter is an interpretation of it, over numbers, booleans
    of both representations and precedence strings, so any mix of accesses answers as the registers do. A write answers the previous value, and
    a write of an arena precedence the resulting one.
  \<^item> Extent_Hooks: \<^verbatim>\<open>arena/extent_hooks.rs\<close>. The locale \<open>fallible_hook\<close> is the contract of a hook that can
    decline, interpreted for all of them on both targets.
  \<^item> Build_Files, Build_Script: \<^verbatim>\<open>jevmalloc-sys/build.rs\<close> and \<^verbatim>\<open>env.rs\<close>. The locale \<open>run_relation\<close> carries a
    relation on logs from the steps of the script to the whole. Every started program has an exit status,
    and one that fails or does not start is the last of the build.
  \<^item> Reference_Heap, Reference_Controls, Composed: concrete libraries, and the properties that compose
    several components. This theory holds the one on indices and flag words.
  \<^item> Build_Output: a stateless reference of the output of \<^verbatim>\<open>build.rs\<close>, the lines for Cargo, those that \<^verbatim>\<open>cc\<close> prints
    included, and the commands with their arguments as one list computed from the environment, and that
    the script produces exactly it.
  \<^item> Source_Tests: the unit tests of the repository that need no running library, replayed on the definitions.

  \<^bold>\<open>Bounds and termination.\<close> No definition uses fuel: loops run over finite lists or recurse with a proved
  measure. Indices are bounded by what the flag word can carry (4095 arenas, 4094 explicit caches), names
  by 127 bytes and eight segments, settings by 999 bytes, as in the code.

  \<^bold>\<open>Not modelled.\<close> The C library itself, and with it the effect of the standard allocation functions, which no
  Rust code of the crates calls: they are declarations here. Module roots and re-exports hold no behaviour.
  Left out of modelled files are derived and structural \<^verbatim>\<open>Debug\<close> and \<^verbatim>\<open>Clone\<close> implementations, the marker implementations
  of \<^verbatim>\<open>Send\<close> and \<^verbatim>\<open>Sync\<close>, and the diagnostic lines of the build script. What the started programs print themselves is not
  part of a log. Of \<^verbatim>\<open>configure\<close> only the symbol prefix is modelled. The other tests and the benchmarks run
  the crate against the real library. The 32-bit and big-endian targets differ in widths and layout and are
  not covered, nor are symbolic links in the copied sources.
\<close>

section \<open>Indices and flag words\<close>

lemma unat_field_less: "unat (field l n w) < 2 ^ n"
  using unsigned_take_bit_eq [of n "drop_bit l w", where 'a = nat]
  by (simp add: field_def take_bit_nat_less_exp)

text \<open>
  C21. The handles accept exactly the indices their flag word can carry: an arena index is accepted if
  and only if the arena field of its flag word holds that index, and a thread-cache index if and only if
  the cache field of its flag word does. One more and the index would be lost or spill into another field.
\<close>

theorem index_limits_exact:
  "((\<exists>c q. arena_validated_index F i p = (Done (Inr c), q)) \<longleftrightarrow>
      unat (field 20 12 (MALLOCX_ARENA i)) = unat i + 1) \<and>
   ((\<exists>c q. tcache_validated_index F i p = (Done (Inr c), q)) \<longleftrightarrow>
      unat (field 8 12 (MALLOCX_TCACHE i)) = unat i + 2)"
proof -
  have "unat (field 20 12 (MALLOCX_ARENA i)) = unat i + 1" if "unat i < 4095"
    using MALLOCX_ARENA_shift [OF that] that by (auto simp: field_push_same)
  moreover have "unat (field 8 12 (MALLOCX_TCACHE i)) = unat i + 2" if "unat i < 4094"
    using MALLOCX_TCACHE_shift [OF that] that by (auto simp: field_push_same)
  moreover have "(\<exists>c q. arena_validated_index F i p = (Done (Inr c), q)) \<longleftrightarrow> unat i < 4095"
    using u32_try_from_small [of i] by (auto simp: arena_validated_index_iff)
  moreover have "(\<exists>c q. tcache_validated_index F i p = (Done (Inr c), q)) \<longleftrightarrow> unat i < 4094"
    using u32_try_from_small [of i] by (auto simp: tcache_validated_index_iff)
  ultimately show ?thesis
    using unat_field_less [of 20 12 "MALLOCX_ARENA i"] unat_field_less [of 8 12 "MALLOCX_TCACHE i"] by auto
qed

end
